(* ===== verification/Prelude.thy ===== *)
theory Prelude
  imports Main "HOL-Library.Word"
begin

text \<open>
  Shared ground of the development: the byte type, Go's \<open>error\<close> values, the result type of
  fallible Go functions and the generic lemmas the component theories use.

  A Go function returning \<open>(T, error)\<close> is modelled by a function into \<open>err + T\<close>: \<open>Inl e\<close> when
  the returned error is \<open>e\<close>, \<open>Inr v\<close> when it is nil and the value is \<open>v\<close>. A function that
  returns a meaningful value together with a non-nil error is modelled by a pair instead. A
  \<open>[]byte\<close> is a list of 8-bit words and a Go \<open>string\<close> (a byte string) is an Isabelle
  \<open>string\<close>, one \<open>char\<close> per byte; \<open>str_bytes\<close> and \<open>bytes_str\<close> are Go's conversions
  between the two.
\<close>

section \<open>Bytes\<close>

type_synonym byte = "8 word"
type_synonym bytes = "byte list"

definition str_bytes :: "string \<Rightarrow> bytes" where
  "str_bytes s = map (\<lambda>c. of_char c) s"

definition bytes_str :: "bytes \<Rightarrow> string" where
  "bytes_str bs = map (\<lambda>b. char_of (unat b)) bs"

lemma char_of_unat_of_char [simp]: "char_of (unat (of_char c :: 8 word)) = c"
proof -
  have "(of_char c :: 8 word) = of_nat (of_char c)"
    by (simp add: of_nat_of_char)
  then have "unat (of_char c :: 8 word) = of_char c"
    using nat_of_char_less_256 [of c] by (simp add: unat_of_nat)
  then show ?thesis by simp
qed

lemma of_char_char_of_unat [simp]: "(of_char (char_of (unat b)) :: 8 word) = b"
proof -
  have lt: "unat b < 256" using unsigned_less [of b] by simp
  have "(of_char (char_of (unat b)) :: 8 word) = of_nat (of_char (char_of (unat b)))"
    by (simp only: of_nat_of_char)
  also have "\<dots> = of_nat (unat b)" using lt by simp
  finally show ?thesis by simp
qed

lemma bytes_str_str_bytes [simp]: "bytes_str (str_bytes s) = s"
  by (induction s) (simp_all add: str_bytes_def bytes_str_def)

lemma str_bytes_bytes_str [simp]: "str_bytes (bytes_str bs) = bs"
  by (induction bs) (simp_all add: str_bytes_def bytes_str_def)

lemma length_str_bytes [simp]: "length (str_bytes s) = length s"
  by (simp add: str_bytes_def)

lemma length_bytes_str [simp]: "length (bytes_str bs) = length bs"
  by (simp add: bytes_str_def)

lemma str_bytes_eq_Nil [simp]: "str_bytes s = [] \<longleftrightarrow> s = []"
  by (simp add: str_bytes_def)

section \<open>Errors\<close>

text \<open>
  Go's sentinel errors, the values callers compare with \<open>errors.Is\<close>, are constants of
  \<open>sentinel\<close>. An error value is a sentinel, a plain message (\<open>errors.New\<close>, or \<open>fmt.Errorf\<close>
  with no \<open>%w\<close>; the label names the failing site, its arguments are left out), a message
  wrapping another error, the join of several, a failed API response (\<open>api.Error\<close>), or an
  error value produced by code that is not under src/ (\<open>ErrExt\<close>).
\<close>

datatype sentinel =
    StoreErrNotFound
  | ErrEmailNotFound
  | ErrNoWrappedKey
  | ErrKeyUnwrap
  | ErrUnauthorized
  | ApiErrNotFound
  | ErrRateLimited
  | ErrServer
  | IoEOF
  | IoErrUnexpectedEOF
  | IoErrShortWrite
  | ErrOperationNotAllowed
  | ErrAuthUnsupported
  | ErrServerClosed
  | OsErrDeadlineExceeded
  | OsErrNoDeadline
  | OsErrNotExist
  | ContextDone

record api_error =
  StatusCode :: int
  Method :: string
  URL :: string
  Body :: string
  Err :: "sentinel option"
  retryAfter :: int

datatype err =
    ErrSentinel sentinel
  | ErrNew string
  | ErrWrap string err
  | ErrJoin "err list"
  | ErrApi api_error
  | ErrExt string

fun errors_is :: "err \<Rightarrow> sentinel \<Rightarrow> bool" where
  "errors_is (ErrSentinel s) t = (s = t)"
| "errors_is (ErrNew m) t = False"
| "errors_is (ErrWrap m e) t = errors_is e t"
| "errors_is (ErrJoin es) t = list_ex (\<lambda>e. errors_is e t) es"
| "errors_is (ErrApi a) t = (Err a = Some t)"
| "errors_is (ErrExt m) t = False"

text \<open>\<open>errors.As\<close> with a target of type \<open>*api.Error\<close>: the first one in the error's tree.\<close>

fun errors_as_api :: "err \<Rightarrow> api_error option" and errors_as_api_list :: "err list \<Rightarrow> api_error option" where
  "errors_as_api (ErrApi a) = Some a"
| "errors_as_api (ErrWrap m e) = errors_as_api e"
| "errors_as_api (ErrJoin es) = errors_as_api_list es"
| "errors_as_api (ErrSentinel s) = None"
| "errors_as_api (ErrNew m) = None"
| "errors_as_api (ErrExt m) = None"
| "errors_as_api_list [] = None"
| "errors_as_api_list (e # es) =
     (case errors_as_api e of Some a \<Rightarrow> Some a | None \<Rightarrow> errors_as_api_list es)"

text \<open>\<open>errors.Join\<close>: nil errors are dropped and the join of none is nil.\<close>

definition errors_join :: "err option list \<Rightarrow> err option" where
  "errors_join es =
     (let found = List.map_filter id es in if found = [] then None else Some (ErrJoin found))"

lemma errors_join_None [simp]:
  "errors_join es = None \<longleftrightarrow> (\<forall>e \<in> set es. e = None)"
  by (induction es) (auto simp: errors_join_def Let_def List.map_filter_def)

section \<open>Results\<close>

text \<open>The ubiquitous \<open>if err != nil { return err }\<close>, and the wrapping of an error on the way out.\<close>

fun bind_err :: "err + 'a \<Rightarrow> ('a \<Rightarrow> err + 'b) \<Rightarrow> err + 'b" where
  "bind_err (Inl e) f = Inl e"
| "bind_err (Inr x) f = f x"

fun wrap_err :: "string \<Rightarrow> err + 'a \<Rightarrow> err + 'a" where
  "wrap_err m (Inl e) = Inl (ErrWrap m e)"
| "wrap_err m (Inr x) = Inr x"

lemma bind_err_Inr_iff [simp]:
  "bind_err r f = Inr y \<longleftrightarrow> (\<exists>x. r = Inr x \<and> f x = Inr y)"
  by (cases r) auto

lemma bind_err_Inl_iff:
  "bind_err r f = Inl e \<longleftrightarrow> r = Inl e \<or> (\<exists>x. r = Inr x \<and> f x = Inl e)"
  by (cases r) auto

lemma wrap_err_Inr_iff [simp]: "wrap_err m r = Inr x \<longleftrightarrow> r = Inr x"
  by (cases r) auto

lemma wrap_err_Inl_iff: "wrap_err m r = Inl e \<longleftrightarrow> (\<exists>e'. r = Inl e' \<and> e = ErrWrap m e')"
  by (cases r) auto

lemma bind_err_cong [fundef_cong]:
  "r = r' \<Longrightarrow> (\<And>x. r' = Inr x \<Longrightarrow> f x = g x) \<Longrightarrow> bind_err r f = bind_err r' g"
  by (cases r') auto

definition is_ok :: "err + 'a \<Rightarrow> bool" where
  "is_ok r = (case r of Inl _ \<Rightarrow> False | Inr _ \<Rightarrow> True)"

lemma is_ok_simps [simp]: "is_ok (Inr x)" "\<not> is_ok (Inl e)"
  by (simp_all add: is_ok_def)

lemma is_ok_iff: "is_ok r \<longleftrightarrow> (\<exists>x. r = Inr x)"
  by (cases r) auto

section \<open>Loops that undo each other\<close>

text \<open>
  If \<open>g x\<close> undoes \<open>f x\<close> on every state satisfying \<open>P\<close>, then running the \<open>g\<close>-loop over the
  reversed index list undoes the \<open>f\<close>-loop.
\<close>

lemma fold_rev_inverse:
  assumes step: "\<And>x s. x \<in> set xs \<Longrightarrow> P s \<Longrightarrow> P (f x s) \<and> g x (f x s) = s"
    and start: "P s"
  shows "P (fold f xs s) \<and> fold g (rev xs) (fold f xs s) = s"
  using assms
proof (induction xs arbitrary: s)
  case Nil
  then show ?case by simp
next
  case (Cons x xs)
  have fx: "P (f x s)" "g x (f x s) = s"
    using Cons.prems(1) [of x s] Cons.prems(2) by simp_all
  have "P (fold f xs (f x s)) \<and> fold g (rev xs) (fold f xs (f x s)) = f x s"
    by (rule Cons.IH) (use Cons.prems(1) fx in auto)
  then show ?case using fx by simp
qed

section \<open>List slices\<close>

lemma take_drop_slice:
  "i \<le> j \<Longrightarrow> j \<le> length xs \<Longrightarrow> length (take (j - i) (drop i xs)) = j - i"
  by simp

lemma distinct_map_filter_keys:
  "distinct (map fst xs) \<Longrightarrow> distinct (map fst (filter P xs))"
  by (induction xs) auto

end
