(* ===== verification/Primitives.thy ===== *)
theory Primitives
  imports Prelude
begin

text \<open>
  The cryptographic primitives the program takes from Go's standard library and from
  \<open>golang.org/x/crypto\<close>. The ciphers, the KEM and the hashes are parameters, the fields of one
  record; the length checks their constructors make are written out. What the program relies on
  is stated as named predicates on the record (\<open>block_cipher_ok\<close>, \<open>gcm_ok\<close>, \<open>kem_ok\<close>,
  \<open>hash_ok\<close>), each a documented fact of the primitive.

  \<open>toy_prims\<close> is a concrete, deliberately weak instance that satisfies all of them; the closed
  examples of the development are evaluated on it.
\<close>

record prims =
  aes_encrypt :: "bytes \<Rightarrow> bytes \<Rightarrow> bytes"
  aes_decrypt :: "bytes \<Rightarrow> bytes \<Rightarrow> bytes"
  gcm_seal :: "bytes \<Rightarrow> bytes \<Rightarrow> bytes \<Rightarrow> bytes \<Rightarrow> bytes"
  gcm_open :: "bytes \<Rightarrow> bytes \<Rightarrow> bytes \<Rightarrow> bytes \<Rightarrow> bytes option"
  mlkem_key_valid :: "bytes \<Rightarrow> bool"
  mlkem_public :: "bytes \<Rightarrow> bytes"
  mlkem_encapsulate :: "bytes \<Rightarrow> bytes \<Rightarrow> bytes \<times> bytes"
  mlkem_decapsulate :: "bytes \<Rightarrow> bytes \<Rightarrow> bytes"
  x25519_public :: "bytes \<Rightarrow> bytes"
  x25519_ecdh :: "bytes \<Rightarrow> bytes \<Rightarrow> bytes option"
  sha3_256 :: "bytes \<Rightarrow> bytes"
  shake_256 :: "nat \<Rightarrow> bytes \<Rightarrow> bytes"

text \<open>\<open>aes.NewCipher\<close> takes keys of 16, 24 or 32 bytes and refuses every other length.\<close>

definition aes_key_ok :: "bytes \<Rightarrow> bool" where
  "aes_key_ok key = (length key = 16 \<or> length key = 24 \<or> length key = 32)"

text \<open>AES is a permutation of the 16-byte blocks, \<open>Decrypt\<close> being the inverse of \<open>Encrypt\<close>.\<close>

definition block_cipher_ok :: "prims \<Rightarrow> bool" where
  "block_cipher_ok E \<longleftrightarrow>
     (\<forall>key b. aes_key_ok key \<longrightarrow> length b = 16 \<longrightarrow>
        length (aes_encrypt E key b) = 16 \<and> length (aes_decrypt E key b) = 16 \<and>
        aes_decrypt E key (aes_encrypt E key b) = b \<and>
        aes_encrypt E key (aes_decrypt E key b) = b)"

text \<open>\<open>cipher.AEAD\<close>: opening what was sealed gives the plaintext back; GCM adds a 16-byte tag.\<close>

definition gcm_ok :: "prims \<Rightarrow> bool" where
  "gcm_ok E \<longleftrightarrow>
     (\<forall>key nonce plain aad. aes_key_ok key \<longrightarrow> length nonce = 12 \<longrightarrow>
        length (gcm_seal E key nonce plain aad) = length plain + 16 \<and>
        gcm_open E key nonce (gcm_seal E key nonce plain aad) aad = Some plain)"

text \<open>
  ML-KEM-768 decapsulates what was encapsulated for its own key, with ciphertexts of 1088 and
  public keys of 1184 bytes; X25519 public keys are 32 bytes and both sides of an exchange agree.
\<close>

definition kem_ok :: "prims \<Rightarrow> bool" where
  "kem_ok E \<longleftrightarrow>
     (\<forall>seed coins. length seed = 64 \<longrightarrow>
        length (mlkem_public E seed) = 1184 \<and>
        length (snd (mlkem_encapsulate E (mlkem_public E seed) coins)) = 1088 \<and>
        mlkem_decapsulate E seed (snd (mlkem_encapsulate E (mlkem_public E seed) coins)) =
          fst (mlkem_encapsulate E (mlkem_public E seed) coins)) \<and>
     (\<forall>a b. length (x25519_public E a) = 32 \<and>
        x25519_ecdh E a (x25519_public E b) = x25519_ecdh E b (x25519_public E a))"

definition hash_ok :: "prims \<Rightarrow> bool" where
  "hash_ok E \<longleftrightarrow> (\<forall>m. length (sha3_256 E m) = 32) \<and> (\<forall>n m. length (shake_256 E n m) = n)"

lemma block_cipher_okD:
  assumes "block_cipher_ok E" "aes_key_ok key" "length b = 16"
  shows "length (aes_encrypt E key b) = 16" "length (aes_decrypt E key b) = 16"
    "aes_decrypt E key (aes_encrypt E key b) = b" "aes_encrypt E key (aes_decrypt E key b) = b"
  using assms by (auto simp: block_cipher_ok_def)

lemma gcm_okD:
  assumes "gcm_ok E" "aes_key_ok key" "length nonce = 12"
  shows "length (gcm_seal E key nonce plain aad) = length plain + 16"
    "gcm_open E key nonce (gcm_seal E key nonce plain aad) aad = Some plain"
  using assms by (auto simp: gcm_ok_def)

lemma kem_ok_mlkem:
  assumes "kem_ok E" "length seed = 64"
  shows "length (mlkem_public E seed) = 1184"
    "mlkem_encapsulate E (mlkem_public E seed) coins = (shared, ct) \<Longrightarrow>
       length ct = 1088 \<and> mlkem_decapsulate E seed ct = shared"
  using assms by (auto simp: kem_ok_def) (metis fst_conv snd_conv)+

lemma kem_ok_x25519:
  assumes "kem_ok E"
  shows "length (x25519_public E a) = 32"
    "x25519_ecdh E a (x25519_public E b) = x25519_ecdh E b (x25519_public E a)"
  using assms by (auto simp: kem_ok_def)

lemma hash_okD:
  assumes "hash_ok E"
  shows "length (sha3_256 E m) = 32" "length (shake_256 E n m) = n"
  using assms by (auto simp: hash_ok_def)

text \<open>
  The outcomes of \<open>rand.Read\<close>: the \<open>i\<close>-th draw a function makes either fails or fills its buffer.
\<close>

type_synonym rand = "nat \<Rightarrow> nat \<Rightarrow> err + bytes"

definition rand_ok :: "rand \<Rightarrow> bool" where
  "rand_ok R \<longleftrightarrow> (\<forall>i n bs. R i n = Inr bs \<longrightarrow> length bs = n)"

lemma rand_okD: "rand_ok R \<Longrightarrow> R i n = Inr bs \<Longrightarrow> length bs = n"
  by (auto simp: rand_ok_def)

section \<open>A concrete instance\<close>

definition toy_prims :: prims where
  "toy_prims =
     \<lparr>aes_encrypt = (\<lambda>key b. rev b), aes_decrypt = (\<lambda>key b. rev b),
      gcm_seal = (\<lambda>key nonce plain aad. plain @ replicate 16 0),
      gcm_open = (\<lambda>key nonce ct aad.
         if 16 \<le> length ct then Some (take (length ct - 16) ct) else None),
      mlkem_key_valid = (\<lambda>k. length k = 1184),
      mlkem_public = (\<lambda>seed. replicate 1184 0),
      mlkem_encapsulate = (\<lambda>pk coins. (replicate 32 7, replicate 1088 0)),
      mlkem_decapsulate = (\<lambda>seed ct. replicate 32 7),
      x25519_public = (\<lambda>a. replicate 32 9),
      x25519_ecdh = (\<lambda>a b. Some (replicate 32 5)),
      sha3_256 = (\<lambda>m. replicate 32 1),
      shake_256 = (\<lambda>n m. replicate n 3)\<rparr>"

definition toy_rand :: rand where
  "toy_rand i n = Inr (replicate n (of_nat i))"

lemma toy_prims_ok [simp]:
  "block_cipher_ok toy_prims" "gcm_ok toy_prims" "kem_ok toy_prims" "hash_ok toy_prims"
  by (simp_all add: toy_prims_def block_cipher_ok_def gcm_ok_def kem_ok_def hash_ok_def)

lemma toy_rand_ok [simp]: "rand_ok toy_rand"
  by (auto simp: rand_ok_def toy_rand_def)

end
