(* ===== verification/KeyWrap.thy ===== *)
theory KeyWrap
  imports Primitives
begin

text \<open>
  \<open>internal/crypto/keywrap.go\<close>: AES Key Wrap (RFC 3394), the one cipher mode the program writes
  out by hand. The two nested loops are folds over the list of their \<open>(j, i)\<close> pairs; a step works
  on the register \<open>a\<close> (8 bytes) and the block array \<open>r\<close>. The lemmas show that a step of \<open>Unwrap\<close>
  undoes the same step of \<open>Wrap\<close> and the other way round, hence that the two operations are
  inverse to each other on the whole range of inputs they accept.
\<close>

unbundle bit_operations_syntax

definition aeskwIV :: bytes where
  "aeskwIV = [0xA6, 0xA6, 0xA6, 0xA6, 0xA6, 0xA6, 0xA6, 0xA6]"

definition newAESKeyWrap :: "bytes \<Rightarrow> err + bytes" where
  "newAESKeyWrap wrappingKey =
     (if aes_key_ok wrappingKey then Inr wrappingKey
      else Inl (ErrWrap ''crypto: build wrap cipher'' (ErrNew ''crypto/aes: invalid key size'')))"

text \<open>\<open>a[7-k] ^= byte(t >> (8*k))\<close> for \<open>k\<close> from 0 to 7, read off the index \<open>m = 7 - k\<close>.\<close>

definition xor_counter :: "bytes \<Rightarrow> 64 word \<Rightarrow> bytes" where
  "xor_counter a t = map (\<lambda>m. (a ! m) XOR ucast (drop_bit (8 * (7 - m)) t)) [0..<8]"

definition slice :: "bytes \<Rightarrow> nat \<Rightarrow> nat \<Rightarrow> bytes" where
  "slice r i j = take (j - i) (drop i r)"

text \<open>\<open>copy(r[i:j], new)\<close> for a \<open>new\<close> of exactly \<open>j - i\<close> bytes.\<close>

definition write_slice :: "bytes \<Rightarrow> nat \<Rightarrow> nat \<Rightarrow> bytes \<Rightarrow> bytes" where
  "write_slice r i j new = take i r @ new @ drop j r"

definition step_counter :: "nat \<Rightarrow> nat \<times> nat \<Rightarrow> 64 word" where
  "step_counter n ji = of_nat (n * fst ji + snd ji)"

definition wrap_step :: "prims \<Rightarrow> bytes \<Rightarrow> nat \<Rightarrow> nat \<times> nat \<Rightarrow> bytes \<times> bytes \<Rightarrow> bytes \<times> bytes" where
  "wrap_step E block n ji ar =
     (let i = snd ji; a = fst ar; r = snd ar;
          buf = aes_encrypt E block (a @ slice r ((i - 1) * 8) (i * 8))
      in (xor_counter (take 8 buf) (step_counter n ji),
          write_slice r ((i - 1) * 8) (i * 8) (drop 8 buf)))"

definition unwrap_step :: "prims \<Rightarrow> bytes \<Rightarrow> nat \<Rightarrow> nat \<times> nat \<Rightarrow> bytes \<times> bytes \<Rightarrow> bytes \<times> bytes" where
  "unwrap_step E block n ji ar =
     (let i = snd ji; a = xor_counter (fst ar) (step_counter n ji); r = snd ar;
          buf = aes_decrypt E block (a @ slice r ((i - 1) * 8) (i * 8))
      in (take 8 buf, write_slice r ((i - 1) * 8) (i * 8) (drop 8 buf)))"

definition wrap_indices :: "nat \<Rightarrow> (nat \<times> nat) list" where
  "wrap_indices n = concat (map (\<lambda>j. map (\<lambda>i. (j, i)) [1..<Suc n]) [0..<6])"

definition unwrap_indices :: "nat \<Rightarrow> (nat \<times> nat) list" where
  "unwrap_indices n = concat (map (\<lambda>j. map (\<lambda>i. (j, i)) (rev [1..<Suc n])) (rev [0..<6]))"

definition Wrap :: "prims \<Rightarrow> bytes \<Rightarrow> bytes \<Rightarrow> err + bytes" where
  "Wrap E block key =
     (if length key < 16 \<or> length key mod 8 \<noteq> 0
      then Inl (ErrNew ''crypto: key to wrap has the wrong length'')
      else
        let n = length key div 8;
            ar = fold (wrap_step E block n) (wrap_indices n) (aeskwIV, key)
        in Inr (fst ar @ snd ar))"

definition Unwrap :: "prims \<Rightarrow> bytes \<Rightarrow> bytes \<Rightarrow> err + bytes" where
  "Unwrap E block wrapped =
     (if length wrapped < 24 \<or> length wrapped mod 8 \<noteq> 0
      then Inl (ErrNew ''crypto: wrapped key has the wrong length'')
      else
        let n = length wrapped div 8 - 1;
            ar = fold (unwrap_step E block n) (unwrap_indices n) (take 8 wrapped, drop 8 wrapped)
        in if fst ar \<noteq> aeskwIV then Inl (ErrSentinel ErrKeyUnwrap) else Inr (snd ar))"

definition WrapKey :: "prims \<Rightarrow> bytes \<Rightarrow> bytes \<Rightarrow> err + bytes" where
  "WrapKey E key wrappingKey = bind_err (newAESKeyWrap wrappingKey) (\<lambda>w. Wrap E w key)"

definition UnwrapKey :: "prims \<Rightarrow> bytes \<Rightarrow> bytes \<Rightarrow> err + bytes" where
  "UnwrapKey E encryptedKey wrappingKey =
     bind_err (newAESKeyWrap wrappingKey) (\<lambda>w. Unwrap E w encryptedKey)"

section \<open>Steps\<close>

lemma unwrap_indices_rev: "unwrap_indices n = rev (wrap_indices n)"
  by (simp only: unwrap_indices_def wrap_indices_def rev_concat rev_map map_map comp_def)

lemma wrap_indices_range: "ji \<in> set (wrap_indices n) \<Longrightarrow> 1 \<le> snd ji \<and> snd ji \<le> n"
  by (auto simp: wrap_indices_def)

lemma length_xor_counter [simp]: "length (xor_counter a t) = 8"
  by (simp add: xor_counter_def)

lemma xor_counter_involution:
  assumes "length a = 8"
  shows "xor_counter (xor_counter a t) t = a"
proof (rule nth_equalityI)
  show "length (xor_counter (xor_counter a t) t) = length a" using assms by simp
next
  fix m assume "m < length (xor_counter (xor_counter a t) t)"
  then have "m < 8" by simp
  then show "xor_counter (xor_counter a t) t ! m = a ! m"
    by (simp add: xor_counter_def xor.assoc)
qed

definition kw_state_ok :: "nat \<Rightarrow> bytes \<times> bytes \<Rightarrow> bool" where
  "kw_state_ok n ar \<longleftrightarrow> length (fst ar) = 8 \<and> length (snd ar) = 8 * n"

lemma length_slice [simp]: "i \<le> j \<Longrightarrow> j \<le> length r \<Longrightarrow> length (slice r i j) = j - i"
  by (simp add: slice_def)

lemma slice_write_slice:
  "i \<le> length r \<Longrightarrow> length new = j - i \<Longrightarrow> slice (write_slice r i j new) i j = new"
  by (simp add: slice_def write_slice_def)

lemma write_slice_write_slice:
  "i \<le> j \<Longrightarrow> j \<le> length r \<Longrightarrow> length new = j - i \<Longrightarrow>
   write_slice (write_slice r i j new) i j new' = write_slice r i j new'"
  by (simp add: write_slice_def)

lemma write_slice_slice:
  assumes "i \<le> j" "j \<le> length r"
  shows "write_slice r i j (slice r i j) = r"
proof -
  have "take (j - i) (drop i r) @ drop j r = drop i r"
    using assms by (metis append_take_drop_id drop_drop le_add_diff_inverse2)
  then show ?thesis by (simp add: write_slice_def slice_def)
qed

lemma length_write_slice:
  "i \<le> j \<Longrightarrow> j \<le> length r \<Longrightarrow> length new = j - i \<Longrightarrow> length (write_slice r i j new) = length r"
  by (simp add: write_slice_def)


lemma block_bounds:
  fixes i n :: nat
  assumes "1 \<le> i" "i \<le> n"
  shows "(i - 1) * 8 \<le> i * 8" "i * 8 \<le> 8 * n" "i * 8 - (i - 1) * 8 = 8"
  using assms by (auto simp: diff_mult_distrib)

lemma unwrap_wrap_step:
  assumes E: "block_cipher_ok E" "aes_key_ok block"
    and i: "1 \<le> snd ji" "snd ji \<le> n" and ok: "kw_state_ok n ar"
  shows "kw_state_ok n (wrap_step E block n ji ar) \<and>
    unwrap_step E block n ji (wrap_step E block n ji ar) = ar"
proof -
  define i where "i = snd ji"
  obtain a r where ar: "ar = (a, r)" by (cases ar)
  have b: "(i - 1) * 8 \<le> i * 8" "i * 8 \<le> length r" "i * 8 - (i - 1) * 8 = 8" "length a = 8"
    using i ok block_bounds [of i n] by (auto simp: i_def ar kw_state_ok_def)
  have lr: "length r = 8 * n" using ok by (simp add: ar kw_state_ok_def)
  define pt where "pt = a @ slice r ((i - 1) * 8) (i * 8)"
  define buf where "buf = aes_encrypt E block pt"
  have pt: "length pt = 16" using b by (simp add: pt_def)
  have buf: "length buf = 16" "aes_decrypt E block buf = pt"
    using block_cipher_okD [OF E pt] by (simp_all add: buf_def)
  have w: "wrap_step E block n ji ar =
      (xor_counter (take 8 buf) (step_counter n ji), write_slice r ((i - 1) * 8) (i * 8) (drop 8 buf))"
    by (simp add: wrap_step_def ar buf_def pt_def i_def Let_def)
  have s: "slice (write_slice r ((i - 1) * 8) (i * 8) (drop 8 buf)) ((i - 1) * 8) (i * 8) = drop 8 buf"
    using b buf by (intro slice_write_slice) auto
  have "unwrap_step E block n ji (wrap_step E block n ji ar) =
      (take 8 pt, write_slice r ((i - 1) * 8) (i * 8) (drop 8 pt))"
    using b buf s by (simp add: w unwrap_step_def xor_counter_involution write_slice_write_slice Let_def flip: i_def)
  moreover have "take 8 pt = a" "drop 8 pt = slice r ((i - 1) * 8) (i * 8)"
    using b by (simp_all add: pt_def)
  ultimately have "unwrap_step E block n ji (wrap_step E block n ji ar) = ar"
    using b by (simp add: ar write_slice_slice)
  moreover have "kw_state_ok n (wrap_step E block n ji ar)"
    unfolding w kw_state_ok_def using lr b buf by (simp add: length_write_slice)
  ultimately show ?thesis by simp
qed

lemma wrap_unwrap_step:
  assumes E: "block_cipher_ok E" "aes_key_ok block"
    and i: "1 \<le> snd ji" "snd ji \<le> n" and ok: "kw_state_ok n ar"
  shows "kw_state_ok n (unwrap_step E block n ji ar) \<and>
    wrap_step E block n ji (unwrap_step E block n ji ar) = ar"
proof -
  define i where "i = snd ji"
  obtain a r where ar: "ar = (a, r)" by (cases ar)
  have b: "(i - 1) * 8 \<le> i * 8" "i * 8 \<le> length r" "i * 8 - (i - 1) * 8 = 8" "length a = 8"
    using i ok block_bounds [of i n] by (auto simp: i_def ar kw_state_ok_def)
  have lr: "length r = 8 * n" using ok by (simp add: ar kw_state_ok_def)
  define ct where "ct = xor_counter a (step_counter n ji) @ slice r ((i - 1) * 8) (i * 8)"
  define buf where "buf = aes_decrypt E block ct"
  have ct: "length ct = 16" using b by (simp add: ct_def)
  have buf: "length buf = 16" "aes_encrypt E block buf = ct"
    using block_cipher_okD [OF E ct] by (simp_all add: buf_def)
  have u: "unwrap_step E block n ji ar =
      (take 8 buf, write_slice r ((i - 1) * 8) (i * 8) (drop 8 buf))"
    by (simp add: unwrap_step_def ar buf_def ct_def i_def Let_def)
  have s: "slice (write_slice r ((i - 1) * 8) (i * 8) (drop 8 buf)) ((i - 1) * 8) (i * 8) = drop 8 buf"
    using b buf by (intro slice_write_slice) auto
  have "wrap_step E block n ji (unwrap_step E block n ji ar) =
      (xor_counter (take 8 ct) (step_counter n ji),
       write_slice r ((i - 1) * 8) (i * 8) (drop 8 ct))"
    using b buf s by (simp add: u wrap_step_def write_slice_write_slice Let_def flip: i_def)
  moreover have "take 8 ct = xor_counter a (step_counter n ji)"
    "drop 8 ct = slice r ((i - 1) * 8) (i * 8)"
    by (simp_all add: ct_def)
  ultimately have "wrap_step E block n ji (unwrap_step E block n ji ar) = ar"
    using b by (simp add: ar write_slice_slice xor_counter_involution)
  moreover have "kw_state_ok n (unwrap_step E block n ji ar)"
    unfolding u kw_state_ok_def using lr b buf by (simp add: length_write_slice)
  ultimately show ?thesis by simp
qed

section \<open>The loops\<close>

lemma unwrap_wrap_loop:
  assumes E: "block_cipher_ok E" "aes_key_ok block" and ok: "kw_state_ok n ar"
  shows "kw_state_ok n (fold (wrap_step E block n) (wrap_indices n) ar) \<and>
    fold (unwrap_step E block n) (unwrap_indices n)
      (fold (wrap_step E block n) (wrap_indices n) ar) = ar"
  unfolding unwrap_indices_rev
  by (rule fold_rev_inverse [where P = "kw_state_ok n"], rule unwrap_wrap_step [OF E])
    (use ok in \<open>auto dest: wrap_indices_range\<close>)

lemma wrap_unwrap_loop:
  assumes E: "block_cipher_ok E" "aes_key_ok block" and ok: "kw_state_ok n ar"
  shows "kw_state_ok n (fold (unwrap_step E block n) (unwrap_indices n) ar) \<and>
    fold (wrap_step E block n) (wrap_indices n)
      (fold (unwrap_step E block n) (unwrap_indices n) ar) = ar"
proof -
  have "kw_state_ok n (fold (unwrap_step E block n) (unwrap_indices n) ar) \<and>
    fold (wrap_step E block n) (rev (unwrap_indices n))
      (fold (unwrap_step E block n) (unwrap_indices n) ar) = ar"
    by (rule fold_rev_inverse [where P = "kw_state_ok n"], rule wrap_unwrap_step [OF E])
      (use ok in \<open>auto simp: unwrap_indices_rev dest: wrap_indices_range\<close>)
  then show ?thesis by (simp add: unwrap_indices_rev)
qed

lemma kw_state_ok_start: "length key mod 8 = 0 \<Longrightarrow> kw_state_ok (length key div 8) (aeskwIV, key)"
  by (auto simp: kw_state_ok_def aeskwIV_def)

lemma Wrap_length:
  assumes "block_cipher_ok E" "aes_key_ok block" "Wrap E block key = Inr w"
  shows "length w = length key + 8" "16 \<le> length key" "length key mod 8 = 0"
proof -
  show k: "16 \<le> length key" "length key mod 8 = 0"
    using assms(3) by (auto simp: Wrap_def split: if_splits)
  show "length w = length key + 8"
    using unwrap_wrap_loop [OF assms(1,2) kw_state_ok_start [OF k(2)]] assms(3) k
    by (auto simp: Wrap_def kw_state_ok_def Let_def split: if_splits)
qed

lemma Unwrap_Wrap:
  assumes E: "block_cipher_ok E" "aes_key_ok block" and w: "Wrap E block key = Inr w"
  shows "Unwrap E block w = Inr key"
proof -
  define n where "n = length key div 8"
  define ar where "ar = fold (wrap_step E block n) (wrap_indices n) (aeskwIV, key)"
  note len = Wrap_length [OF E w]
  have loop: "kw_state_ok n ar" "fold (unwrap_step E block n) (unwrap_indices n) ar = (aeskwIV, key)"
    using unwrap_wrap_loop [OF E kw_state_ok_start [OF len(3)]] by (simp_all add: n_def ar_def)
  have "w = fst ar @ snd ar"
    using w by (auto simp: Wrap_def n_def ar_def Let_def split: if_splits)
  with loop(1) have "take 8 w = fst ar" "drop 8 w = snd ar" by (simp_all add: kw_state_ok_def)
  moreover have "length w div 8 - 1 = n" using len by (simp add: n_def)
  ultimately show ?thesis
    using loop(2) len by (simp add: Unwrap_def Let_def)
qed

lemma Wrap_Unwrap:
  assumes E: "block_cipher_ok E" "aes_key_ok block" and u: "Unwrap E block w = Inr key"
  shows "Wrap E block key = Inr w"
proof -
  define n where "n = length w div 8 - 1"
  define ar where "ar = fold (unwrap_step E block n) (unwrap_indices n) (take 8 w, drop 8 w)"
  have len: "24 \<le> length w" "length w mod 8 = 0" and res: "fst ar = aeskwIV" "snd ar = key"
    using u by (auto simp: Unwrap_def n_def ar_def Let_def split: if_splits)
  have st: "kw_state_ok n (take 8 w, drop 8 w)"
    using len by (auto simp: kw_state_ok_def n_def)
  note loop = wrap_unwrap_loop [OF E st]
  have key: "length key = 8 * n" using loop res by (auto simp: kw_state_ok_def ar_def)
  moreover have "2 \<le> n" using len by (simp add: n_def)
  ultimately have g: "\<not> (length key < 16 \<or> length key mod 8 \<noteq> 0)" "length key div 8 = n" by simp_all
  have "ar = (aeskwIV, key)" using res by (cases ar) simp
  with loop have "fold (wrap_step E block n) (wrap_indices n) (aeskwIV, key) = (take 8 w, drop 8 w)"
    by (simp add: ar_def)
  with g show ?thesis by (simp add: Wrap_def)
qed

section \<open>Properties\<close>

text \<open>
  C9: unwrapping what was wrapped under the same key gives the key back. A wrapped key is 8 bytes
  longer than the key, and \<open>WrapKey\<close> succeeds exactly on keys of at least 16 bytes whose length is
  a multiple of 8, under a wrapping key AES accepts.
\<close>

theorem WrapKey_roundtrip:
  assumes "block_cipher_ok E"
  shows "(is_ok (WrapKey E key wk) \<longleftrightarrow> aes_key_ok wk \<and> 16 \<le> length key \<and> length key mod 8 = 0) \<and>
    (\<forall>w. WrapKey E key wk = Inr w \<longrightarrow> UnwrapKey E w wk = Inr key \<and> length w = length key + 8)"
proof -
  have "is_ok (WrapKey E key wk) \<longleftrightarrow> aes_key_ok wk \<and> 16 \<le> length key \<and> length key mod 8 = 0"
    by (auto simp: WrapKey_def newAESKeyWrap_def Wrap_def Let_def)
  moreover have "UnwrapKey E w wk = Inr key \<and> length w = length key + 8"
    if "WrapKey E key wk = Inr w" for w
    using that Unwrap_Wrap [OF assms] Wrap_length(1) [OF assms]
    by (auto simp: WrapKey_def UnwrapKey_def newAESKeyWrap_def split: if_splits)
  ultimately show ?thesis by blast
qed

theorem WrapKey_roundtrip_witness:
  "UnwrapKey toy_prims
     (case WrapKey toy_prims (replicate 32 4) (replicate 32 1) of Inr w \<Rightarrow> w | Inl _ \<Rightarrow> [])
     (replicate 32 1) = Inr (replicate 32 4)"
proof -
  note t = WrapKey_roundtrip [OF toy_prims_ok(1), of "replicate 32 4" "replicate 32 1"]
  have "is_ok (WrapKey toy_prims (replicate 32 4) (replicate 32 1))"
    using t by (simp add: aes_key_ok_def)
  then show ?thesis using t by (cases "WrapKey toy_prims (replicate 32 4) (replicate 32 1)") auto
qed

lemma UnwrapKey_iff:
  assumes "block_cipher_ok E"
  shows "UnwrapKey E w wk = Inr key \<longleftrightarrow> WrapKey E key wk = Inr w"
proof (cases "aes_key_ok wk")
  case True
  have "Unwrap E wk w = Inr key \<longleftrightarrow> Wrap E wk key = Inr w"
    using Wrap_Unwrap [OF assms True] Unwrap_Wrap [OF assms True] by blast
  with True show ?thesis by (simp add: WrapKey_def UnwrapKey_def newAESKeyWrap_def)
qed (simp add: WrapKey_def UnwrapKey_def newAESKeyWrap_def)

text \<open>
  C32: the integrity check is exact. Under one wrapping key \<open>UnwrapKey\<close> accepts exactly the
  wrappings: it returns a key for a value if and only if \<open>WrapKey\<close> makes that value of that key.
  So a value that is the wrapping of no key is always refused, a genuine wrapping never is, and two
  different wrapped values never unwrap to the same key.
\<close>

theorem UnwrapKey_only_wrapped:
  assumes "block_cipher_ok E"
  shows "(UnwrapKey E w wk = Inr key \<longleftrightarrow> WrapKey E key wk = Inr w) \<and>
    (is_ok (UnwrapKey E w wk) \<longleftrightarrow> (\<exists>key. WrapKey E key wk = Inr w)) \<and>
    (\<forall>w'. UnwrapKey E w wk = Inr key \<and> UnwrapKey E w' wk = Inr key \<longrightarrow> w' = w)"
proof (intro conjI allI impI)
  show "UnwrapKey E w wk = Inr key \<longleftrightarrow> WrapKey E key wk = Inr w"
    by (rule UnwrapKey_iff [OF assms])
  show "is_ok (UnwrapKey E w wk) \<longleftrightarrow> (\<exists>key. WrapKey E key wk = Inr w)"
    by (simp add: UnwrapKey_iff [OF assms, symmetric] is_ok_iff)
  show "w' = w" if "UnwrapKey E w wk = Inr key \<and> UnwrapKey E w' wk = Inr key" for w'
    using that by (auto simp: UnwrapKey_iff [OF assms])
qed

theorem UnwrapKey_only_wrapped_witness:
  "\<exists>w. UnwrapKey toy_prims w (replicate 16 1) = Inr (replicate 16 4) \<and>
     WrapKey toy_prims (replicate 16 4) (replicate 16 1) = Inr w \<and>
     \<not> is_ok (UnwrapKey toy_prims (w @ [0]) (replicate 16 1))"
proof -
  obtain w where "Wrap toy_prims (replicate 16 1) (replicate 16 4) = Inr w"
    by (simp add: Wrap_def Let_def)
  then have w: "WrapKey toy_prims (replicate 16 4) (replicate 16 1) = Inr w"
    by (simp add: WrapKey_def newAESKeyWrap_def aes_key_ok_def)
  moreover from this have "length w = 24"
    using Wrap_length(1) [OF toy_prims_ok(1), of "replicate 16 1" "replicate 16 4" w]
    by (simp add: WrapKey_def newAESKeyWrap_def aes_key_ok_def)
  then have "\<not> is_ok (UnwrapKey toy_prims (w @ [0]) (replicate 16 1))"
    by (simp add: UnwrapKey_def newAESKeyWrap_def aes_key_ok_def Unwrap_def)
  ultimately show ?thesis using UnwrapKey_only_wrapped [OF toy_prims_ok(1)] by blast
qed

end
