(* ===== verification/Hybrid.thy ===== *)
theory Hybrid
  imports KeyWrap
begin

text \<open>
  \<open>internal/crypto/hybrid.go\<close>: the X-Wing hybrid KEM (ML-KEM-768 and X25519 under one SHA3-256
  combiner), and the wrapping of a session key for the holder of a hybrid public key. The two
  random choices of an encapsulation, ML-KEM's and the ephemeral X25519 key, are the draws at
  index \<open>k\<close> and \<open>k + 1\<close>.
\<close>

definition seedLen :: nat where "seedLen = 32"
definition mlkemSeedLen :: nat where "mlkemSeedLen = 64"
definition x25519KeyLen :: nat where "x25519KeyLen = 32"
definition mlkemCiphertextLen :: nat where "mlkemCiphertextLen = 1088"
definition hybridCiphertextLen :: nat where "hybridCiphertextLen = mlkemCiphertextLen + x25519KeyLen"
definition mlkemPublicKeyLen :: nat where "mlkemPublicKeyLen = 1184"
definition x25519PublicKeyLen :: nat where "x25519PublicKeyLen = 32"
definition hybridPublicKeyLen :: nat where
  "hybridPublicKeyLen = mlkemPublicKeyLen + x25519PublicKeyLen"
definition PublicKeyLen :: nat where "PublicKeyLen = hybridPublicKeyLen"
definition PrivateKeyLen :: nat where "PrivateKeyLen = x25519KeyLen"

lemmas hybrid_lens = seedLen_def mlkemSeedLen_def x25519KeyLen_def mlkemCiphertextLen_def
  hybridCiphertextLen_def mlkemPublicKeyLen_def x25519PublicKeyLen_def hybridPublicKeyLen_def
  PublicKeyLen_def PrivateKeyLen_def

definition combinerLabel :: string where
  "combinerLabel = [CHR 0x5C, CHR ''.'', CHR ''/'', CHR ''/'', CHR ''^'', CHR 0x5C]"

definition combineHybridSecrets :: "prims \<Rightarrow> bytes \<Rightarrow> bytes \<Rightarrow> bytes \<Rightarrow> bytes \<Rightarrow> bytes" where
  "combineHybridSecrets E mlkemShared x25519Shared x25519Ciphertext x25519PublicKey =
     sha3_256 E (mlkemShared @ x25519Shared @ x25519Ciphertext @ x25519PublicKey @
       str_bytes combinerLabel)"

definition expandHybridSeed :: "prims \<Rightarrow> bytes \<Rightarrow> bytes \<times> bytes" where
  "expandHybridSeed E seed =
     (let expanded = shake_256 E (mlkemSeedLen + x25519KeyLen) seed
      in (take mlkemSeedLen expanded, drop mlkemSeedLen expanded))"

text \<open>\<open>ecdh.X25519().NewPublicKey\<close>, \<open>NewPrivateKey\<close> and \<open>mlkem.New...Key768\<close> refuse by length.\<close>

definition x25519_new_key :: "bytes \<Rightarrow> err + bytes" where
  "x25519_new_key b = (if length b = 32 then Inr b else Inl (ErrNew ''crypto/ecdh: invalid key size''))"

definition x25519_exchange :: "prims \<Rightarrow> bytes \<Rightarrow> bytes \<Rightarrow> err + bytes" where
  "x25519_exchange E priv pub =
     (case x25519_ecdh E priv pub of
       None \<Rightarrow> Inl (ErrNew ''crypto/ecdh: bad X25519 remote ECDH input: low order point'')
     | Some s \<Rightarrow> Inr s)"

definition Encapsulate :: "prims \<Rightarrow> rand \<Rightarrow> nat \<Rightarrow> bytes \<Rightarrow> err + (bytes \<times> bytes)" where
  "Encapsulate E R k publicKey =
     (if length publicKey \<noteq> hybridPublicKeyLen
      then Inl (ErrNew ''crypto: hybrid public key has the wrong length'')
      else
        let mlkemPublicKey = take mlkemPublicKeyLen publicKey;
            x25519PublicKey = drop mlkemPublicKeyLen publicKey
        in if \<not> mlkem_key_valid E mlkemPublicKey
           then Inl (ErrWrap ''crypto: load ML-KEM public key'' (ErrExt ''mlkem''))
           else
             bind_err (R k 32) (\<lambda>coins.
             let (mlkemShared, mlkemCiphertext) = mlkem_encapsulate E mlkemPublicKey coins
             in bind_err (wrap_err ''crypto: load X25519 public key'' (x25519_new_key x25519PublicKey)) (\<lambda>recipientKey.
                bind_err (wrap_err ''crypto: generate ephemeral X25519 key'' (R (k + 1) x25519KeyLen)) (\<lambda>ephemeralKey.
                bind_err (wrap_err ''crypto: X25519 exchange'' (x25519_exchange E ephemeralKey recipientKey)) (\<lambda>x25519Shared.
                let x25519Ciphertext = x25519_public E ephemeralKey;
                    shared = combineHybridSecrets E mlkemShared x25519Shared x25519Ciphertext x25519PublicKey
                in Inr (mlkemCiphertext @ x25519Ciphertext, shared))))))"

definition Decapsulate :: "prims \<Rightarrow> bytes \<Rightarrow> bytes \<Rightarrow> err + bytes" where
  "Decapsulate E ciphertext privateKey =
     (if length privateKey \<noteq> seedLen
      then Inl (ErrNew ''crypto: hybrid seed has the wrong length'')
      else if length ciphertext \<noteq> hybridCiphertextLen
      then Inl (ErrNew ''crypto: hybrid ciphertext has the wrong length'')
      else
        let (mlkemSeed, x25519Secret) = expandHybridSeed E privateKey;
            mlkemCiphertext = take mlkemCiphertextLen ciphertext;
            x25519Ciphertext = drop mlkemCiphertextLen ciphertext
        in if length mlkemSeed \<noteq> 64 then Inl (ErrWrap ''crypto: load ML-KEM key'' (ErrExt ''mlkem''))
           else if length mlkemCiphertext \<noteq> 1088
           then Inl (ErrWrap ''crypto: ML-KEM decapsulate'' (ErrExt ''mlkem''))
           else
             let mlkemShared = mlkem_decapsulate E mlkemSeed mlkemCiphertext
             in bind_err (wrap_err ''crypto: load X25519 key'' (x25519_new_key x25519Secret)) (\<lambda>ownKey.
                bind_err (wrap_err ''crypto: load X25519 ciphertext'' (x25519_new_key x25519Ciphertext)) (\<lambda>ephemeralKey.
                bind_err (wrap_err ''crypto: X25519 exchange'' (x25519_exchange E ownKey ephemeralKey)) (\<lambda>x25519Shared.
                Inr (combineHybridSecrets E mlkemShared x25519Shared x25519Ciphertext
                       (x25519_public E ownKey))))))"

record HybridEncryptedKey =
  hk_HybridCiphertext :: bytes
  hk_EncryptedKey :: bytes

definition WrapSessionKey :: "prims \<Rightarrow> rand \<Rightarrow> nat \<Rightarrow> bytes \<Rightarrow> bytes \<Rightarrow> err + HybridEncryptedKey" where
  "WrapSessionKey E R k sessionKey recipientPublicKey =
     wrap_err ''crypto: hybrid encryption''
       (bind_err (Encapsulate E R k recipientPublicKey) (\<lambda>(ciphertext, sharedSecret).
        bind_err (newAESKeyWrap sharedSecret) (\<lambda>wrapper.
        bind_err (Wrap E wrapper sessionKey) (\<lambda>encryptedKey.
        Inr \<lparr>hk_HybridCiphertext = ciphertext, hk_EncryptedKey = encryptedKey\<rparr>))))"

definition UnwrapSessionKey :: "prims \<Rightarrow> HybridEncryptedKey \<Rightarrow> bytes \<Rightarrow> err + bytes" where
  "UnwrapSessionKey E encryptedKey recipientPrivateKey =
     wrap_err ''crypto: hybrid decryption''
       (bind_err (Decapsulate E (hk_HybridCiphertext encryptedKey) recipientPrivateKey) (\<lambda>sharedSecret.
        bind_err (newAESKeyWrap sharedSecret) (\<lambda>wrapper.
        Unwrap E wrapper (hk_EncryptedKey encryptedKey))))"

definition DecryptKeysHybrid :: "prims \<Rightarrow> HybridEncryptedKey \<Rightarrow> bytes \<Rightarrow> err + bytes" where
  "DecryptKeysHybrid E encryptedKey recipientPrivateKey = UnwrapSessionKey E encryptedKey recipientPrivateKey"

definition EncryptKeysHybrid :: "prims \<Rightarrow> rand \<Rightarrow> nat \<Rightarrow> bytes \<Rightarrow> bytes \<Rightarrow> err + HybridEncryptedKey" where
  "EncryptKeysHybrid E R k sessionKey recipientPublicKey = WrapSessionKey E R k sessionKey recipientPublicKey"

section \<open>Key pairs\<close>

text \<open>
  The public key that belongs to a 32-byte root seed: the two component keys the seed expands to,
  ML-KEM's first, as the Mail API publishes them.
\<close>

definition hybrid_public_key :: "prims \<Rightarrow> bytes \<Rightarrow> bytes" where
  "hybrid_public_key E seed =
     (let (mlkemSeed, x25519Secret) = expandHybridSeed E seed
      in mlkem_public E mlkemSeed @ x25519_public E x25519Secret)"

lemma expandHybridSeed_lengths:
  assumes "hash_ok E" "expandHybridSeed E seed = (ms, xs)"
  shows "length ms = 64" "length xs = 32"
  using assms hash_okD(2) [OF assms(1), of 96 seed]
  by (auto simp: expandHybridSeed_def hybrid_lens Let_def)

lemma length_hybrid_public_key:
  assumes "kem_ok E" "hash_ok E"
  shows "length (hybrid_public_key E seed) = hybridPublicKeyLen"
proof -
  obtain ms xs where e: "expandHybridSeed E seed = (ms, xs)" by (cases "expandHybridSeed E seed")
  from expandHybridSeed_lengths [OF assms(2) e] show ?thesis
    using kem_ok_mlkem(1) [OF assms(1)] kem_ok_x25519(1) [OF assms(1)]
    by (simp add: hybrid_public_key_def e hybrid_lens)
qed

lemma Decapsulate_Encapsulate:
  assumes E: "kem_ok E" "hash_ok E" and seed: "length seed = 32"
    and enc: "Encapsulate E R k (hybrid_public_key E seed) = Inr (ct, shared)"
  shows "Decapsulate E ct seed = Inr shared"
proof -
  obtain ms xs where e: "expandHybridSeed E seed = (ms, xs)" by (cases "expandHybridSeed E seed")
  note el = expandHybridSeed_lengths [OF E(2) e]
  have pk: "take 1184 (hybrid_public_key E seed) = mlkem_public E ms"
    "drop 1184 (hybrid_public_key E seed) = x25519_public E xs"
    using kem_ok_mlkem(1) [OF E(1) el(1)] by (simp_all add: hybrid_public_key_def e)
  from enc obtain coins where coins: "R k 32 = Inr coins"
    by (auto simp: Encapsulate_def Let_def split: if_splits)
  obtain ms_shared ms_ct where
    m: "mlkem_encapsulate E (mlkem_public E ms) coins = (ms_shared, ms_ct)"
    by (cases "mlkem_encapsulate E (mlkem_public E ms) coins")
  from enc obtain eph xsh where
    x: "x25519_ecdh E eph (x25519_public E xs) = Some xsh" and
    ct: "ct = ms_ct @ x25519_public E eph" and
    sh: "shared = combineHybridSecrets E ms_shared xsh (x25519_public E eph) (x25519_public E xs)"
    by (auto simp: Encapsulate_def hybrid_lens pk coins m x25519_new_key_def x25519_exchange_def Let_def
        split: if_splits option.splits)
  have mk: "length ms_ct = 1088" "mlkem_decapsulate E ms ms_ct = ms_shared"
    using kem_ok_mlkem(2) [OF E(1) el(1) m] by simp_all
  have "x25519_ecdh E xs (x25519_public E eph) = Some xsh"
    using x kem_ok_x25519(2) [OF E(1)] by metis
  then show ?thesis
    using mk el seed kem_ok_x25519(1) [OF E(1)]
    by (simp add: Decapsulate_def hybrid_lens ct sh e x25519_new_key_def x25519_exchange_def Let_def)
qed

lemma DecryptKeysHybrid_EncryptKeysHybrid:
  assumes E: "block_cipher_ok E" "kem_ok E" "hash_ok E" and seed: "length seed = 32"
    and enc: "EncryptKeysHybrid E R k key (hybrid_public_key E seed) = Inr hk"
  shows "DecryptKeysHybrid E hk seed = Inr key"
proof -
  from enc obtain ct shared w where
    encap: "Encapsulate E R k (hybrid_public_key E seed) = Inr (ct, shared)" and
    w: "aes_key_ok shared" "Wrap E shared key = Inr w" and
    hk: "hk = \<lparr>hk_HybridCiphertext = ct, hk_EncryptedKey = w\<rparr>"
    by (auto simp: EncryptKeysHybrid_def WrapSessionKey_def newAESKeyWrap_def split: if_splits)
  show ?thesis
    using Decapsulate_Encapsulate [OF E(2,3) seed encap] Unwrap_Wrap [OF E(1) w] w(1)
    by (simp add: DecryptKeysHybrid_def UnwrapSessionKey_def newAESKeyWrap_def hk)
qed

end
