(* ===== verification/GoStrings.thy ===== *)
theory GoStrings
  imports Prelude
begin

text \<open>
  What the program uses of Go's \<open>strings\<close> package, on byte strings.

  Go's white space is Unicode's. A UTF-8 lead byte never occurs inside another character's
  encoding, so looking for one of the encodings of a white-space character at a byte position
  finds exactly the white space Go's rune-by-rune scan finds, on valid and invalid UTF-8 alike.

  Letter case is exact for ASCII. What Go does beyond ASCII rests on the tables of its \<open>unicode\<close>
  package, which are a parameter (\<open>unicode\<close>): \<open>uni_lower\<close> is \<open>strings.Map(unicode.ToLower, s)\<close>
  and \<open>uni_fold\<close> the rune-by-rune comparison \<open>strings.EqualFold\<close> falls back to.
\<close>

section \<open>Prefixes, suffixes and cutting\<close>

definition has_prefix :: "string \<Rightarrow> string \<Rightarrow> bool" where
  "has_prefix s p = (take (length p) s = p)"

definition has_suffix :: "string \<Rightarrow> string \<Rightarrow> bool" where
  "has_suffix s p = (length p \<le> length s \<and> drop (length s - length p) s = p)"

definition trim_prefix :: "string \<Rightarrow> string \<Rightarrow> string" where
  "trim_prefix s p = (if has_prefix s p then drop (length p) s else s)"

definition trim_suffix :: "string \<Rightarrow> string \<Rightarrow> string" where
  "trim_suffix s p = (if has_suffix s p then take (length s - length p) s else s)"

text \<open>\<open>strings.Cut\<close> at a one-byte separator: what is before it, what is after, whether it was there.\<close>

definition cut_at :: "char \<Rightarrow> string \<Rightarrow> string \<times> string \<times> bool" where
  "cut_at c s =
     (if c \<in> set s then (takeWhile (\<lambda>x. x \<noteq> c) s, tl (dropWhile (\<lambda>x. x \<noteq> c) s), True)
      else (s, [], False))"

lemma has_prefix_append [simp]: "has_prefix (p @ s) p"
  by (simp add: has_prefix_def)

lemma has_prefix_iff: "has_prefix s p \<longleftrightarrow> (\<exists>r. s = p @ r)"
proof
  assume "has_prefix s p"
  then have "s = p @ drop (length p) s"
    by (metis append_take_drop_id has_prefix_def)
  then show "\<exists>r. s = p @ r" ..
next
  assume "\<exists>r. s = p @ r"
  then show "has_prefix s p" by auto
qed

lemma has_suffix_append [simp]: "has_suffix (s @ p) p"
  by (simp add: has_suffix_def)

lemma trim_prefix_append [simp]: "trim_prefix (p @ s) p = s"
  by (simp add: trim_prefix_def)

lemma trim_suffix_append [simp]: "trim_suffix (s @ p) p = s"
  by (simp add: trim_suffix_def)

lemma cut_at_append:
  assumes "c \<notin> set a"
  shows "cut_at c (a @ c # b) = (a, b, True)"
proof -
  have "takeWhile (\<lambda>x. x \<noteq> c) (a @ c # b) = a"
    and "dropWhile (\<lambda>x. x \<noteq> c) (a @ c # b) = c # b"
    using assms by (induction a) auto
  then show ?thesis by (simp add: cut_at_def)
qed

lemma cut_at_found:
  assumes "cut_at c s = (a, b, True)"
  shows "s = a @ c # b \<and> c \<notin> set a"
proof -
  from assms have c: "c \<in> set s" and a: "a = takeWhile (\<lambda>x. x \<noteq> c) s"
    and b: "b = tl (dropWhile (\<lambda>x. x \<noteq> c) s)"
    by (auto simp: cut_at_def split: if_splits)
  from c have ne: "dropWhile (\<lambda>x. x \<noteq> c) s \<noteq> []" by (simp add: dropWhile_eq_Nil_conv)
  then have "hd (dropWhile (\<lambda>x. x \<noteq> c) s) = c"
    using hd_dropWhile [of "\<lambda>x. x \<noteq> c" s] by simp
  with ne b have "dropWhile (\<lambda>x. x \<noteq> c) s = c # b"
    by (metis list.collapse)
  with a have "s = a @ c # b"
    by (metis takeWhile_dropWhile_id)
  moreover have "c \<notin> set a" using a by (auto dest: set_takeWhileD)
  ultimately show ?thesis by simp
qed

section \<open>White space\<close>

text \<open>The UTF-8 encodings of the characters \<open>unicode.IsSpace\<close> accepts.\<close>

definition utf8_spaces :: "string list" where
  "utf8_spaces =
     [[CHR 0x09], [CHR 0x0A], [CHR 0x0B], [CHR 0x0C], [CHR 0x0D], [CHR 0x20],
      [CHR 0xC2, CHR 0x85], [CHR 0xC2, CHR 0xA0], [CHR 0xE1, CHR 0x9A, CHR 0x80],
      [CHR 0xE2, CHR 0x80, CHR 0x80], [CHR 0xE2, CHR 0x80, CHR 0x81],
      [CHR 0xE2, CHR 0x80, CHR 0x82], [CHR 0xE2, CHR 0x80, CHR 0x83],
      [CHR 0xE2, CHR 0x80, CHR 0x84], [CHR 0xE2, CHR 0x80, CHR 0x85],
      [CHR 0xE2, CHR 0x80, CHR 0x86], [CHR 0xE2, CHR 0x80, CHR 0x87],
      [CHR 0xE2, CHR 0x80, CHR 0x88], [CHR 0xE2, CHR 0x80, CHR 0x89],
      [CHR 0xE2, CHR 0x80, CHR 0x8A], [CHR 0xE2, CHR 0x80, CHR 0xA8],
      [CHR 0xE2, CHR 0x80, CHR 0xA9], [CHR 0xE2, CHR 0x80, CHR 0xAF],
      [CHR 0xE2, CHR 0x81, CHR 0x9F], [CHR 0xE3, CHR 0x80, CHR 0x80]]"

text \<open>The length of the white-space character a string starts with, 0 when it starts with none.\<close>

definition space_width :: "string \<Rightarrow> nat" where
  "space_width s =
     (case find (has_prefix s) utf8_spaces of Some w \<Rightarrow> length w | None \<Rightarrow> 0)"

definition space_width_end :: "string \<Rightarrow> nat" where
  "space_width_end s =
     (case find (has_suffix s) utf8_spaces of Some w \<Rightarrow> length w | None \<Rightarrow> 0)"

lemma utf8_spaces_nonempty: "w \<in> set utf8_spaces \<Longrightarrow> w \<noteq> []"
  by (auto simp: utf8_spaces_def)

lemma find_Some_in_set: "find P xs = Some x \<Longrightarrow> x \<in> set xs \<and> P x"
  by (induction xs) (auto split: if_splits)

lemma space_width_le: "space_width s \<le> length s"
proof (cases "find (has_prefix s) utf8_spaces")
  case None
  then show ?thesis by (simp add: space_width_def)
next
  case (Some w)
  then have "has_prefix s w" by (blast dest: find_Some_in_set)
  then obtain r where "s = w @ r" by (auto simp: has_prefix_iff)
  with Some show ?thesis by (simp add: space_width_def)
qed

lemma space_width_end_le: "space_width_end s \<le> length s"
proof (cases "find (has_suffix s) utf8_spaces")
  case None
  then show ?thesis by (simp add: space_width_end_def)
next
  case (Some w)
  then have "has_suffix s w" by (blast dest: find_Some_in_set)
  with Some show ?thesis by (simp add: space_width_end_def has_suffix_def)
qed

function trim_left_space :: "string \<Rightarrow> string" where
  "trim_left_space s =
     (if space_width s = 0 then s else trim_left_space (drop (space_width s) s))"
  by pat_completeness auto
termination
proof (relation "measure length")
  fix s :: string
  assume nz: "space_width s \<noteq> 0"
  have "space_width s \<le> length s" by (rule space_width_le)
  with nz show "(drop (space_width s) s, s) \<in> measure length" by simp
qed simp

function trim_right_space :: "string \<Rightarrow> string" where
  "trim_right_space s =
     (if space_width_end s = 0 then s
      else trim_right_space (take (length s - space_width_end s) s))"
  by pat_completeness auto
termination
proof (relation "measure length")
  fix s :: string
  assume nz: "space_width_end s \<noteq> 0"
  have "space_width_end s \<le> length s" by (rule space_width_end_le)
  with nz show "(take (length s - space_width_end s) s, s) \<in> measure length" by simp
qed simp

declare trim_left_space.simps [simp del] trim_right_space.simps [simp del]

definition trim_space :: "string \<Rightarrow> string" where
  "trim_space s = trim_right_space (trim_left_space s)"

lemma trim_left_space_id: "space_width s = 0 \<Longrightarrow> trim_left_space s = s"
  by (simp add: trim_left_space.simps)

lemma trim_right_space_id: "space_width_end s = 0 \<Longrightarrow> trim_right_space s = s"
  by (simp add: trim_right_space.simps)

lemma space_width_Cons_first:
  assumes "\<forall>w \<in> set utf8_spaces. hd w \<noteq> c"
  shows "space_width (c # s) = 0"
proof -
  have "\<not> has_prefix (c # s) w" if "w \<in> set utf8_spaces" for w
    using assms that utf8_spaces_nonempty [OF that] by (cases w) (auto simp: has_prefix_def)
  then have "find (has_prefix (c # s)) utf8_spaces = None"
    by (simp add: find_None_iff)
  then show ?thesis by (simp add: space_width_def)
qed

lemma space_width_end_last:
  assumes "\<forall>w \<in> set utf8_spaces. last w \<noteq> c"
  shows "space_width_end (s @ [c]) = 0"
proof -
  have "\<not> has_suffix (s @ [c]) w" if w: "w \<in> set utf8_spaces" for w
  proof
    assume "has_suffix (s @ [c]) w"
    then obtain r where r: "s @ [c] = r @ w"
      by (metis append_take_drop_id has_suffix_def)
    have "last (r @ w) = last w" using utf8_spaces_nonempty [OF w] by simp
    with r have "last w = c" by (metis last_snoc)
    with assms w show False by blast
  qed
  then have "find (has_suffix (s @ [c])) utf8_spaces = None"
    by (simp add: find_None_iff)
  then show ?thesis by (simp add: space_width_end_def)
qed

text \<open>The printable, non-blank ASCII bytes are never trimmed.\<close>

definition graphic_char :: "char \<Rightarrow> bool" where
  "graphic_char c = (33 \<le> (of_char c :: nat) \<and> (of_char c :: nat) \<le> 126)"

lemma graphic_not_space:
  assumes "graphic_char c"
  shows "\<forall>w \<in> set utf8_spaces. hd w \<noteq> c \<and> last w \<noteq> c"
proof -
  have "\<forall>w \<in> set utf8_spaces. \<not> graphic_char (hd w) \<and> \<not> graphic_char (last w)"
    by code_simp
  with assms show ?thesis by blast
qed

lemma trim_space_graphic:
  assumes "list_all graphic_char s"
  shows "trim_space s = s"
proof -
  have "space_width s = 0"
  proof (cases s)
    case Nil
    then have "find (has_prefix s) utf8_spaces = None"
      using utf8_spaces_nonempty by (auto simp: find_None_iff has_prefix_def)
    then show ?thesis by (simp add: space_width_def)
  next
    case (Cons c t)
    then show ?thesis
      using assms graphic_not_space [of c] by (simp add: space_width_Cons_first)
  qed
  moreover have "space_width_end s = 0"
  proof (cases s rule: rev_cases)
    case Nil
    then have "find (has_suffix s) utf8_spaces = None"
      using utf8_spaces_nonempty by (auto simp: find_None_iff has_suffix_def)
    then show ?thesis by (simp add: space_width_end_def)
  next
    case (snoc t c)
    then show ?thesis
      using assms graphic_not_space [of c] by (simp add: space_width_end_last)
  qed
  ultimately show ?thesis by (simp add: trim_space_def trim_left_space_id trim_right_space_id)
qed

text \<open>Nor is anything between two printable characters.\<close>

lemma trim_space_framed:
  assumes "graphic_char a" "graphic_char b"
  shows "trim_space (a # s @ [b]) = a # s @ [b]"
proof -
  have "space_width (a # s @ [b]) = 0"
    using graphic_not_space [OF assms(1)] by (intro space_width_Cons_first) blast
  moreover have "space_width_end ((a # s) @ [b]) = 0"
    using graphic_not_space [OF assms(2)] by (intro space_width_end_last) blast
  ultimately show ?thesis by (simp add: trim_space_def trim_left_space_id trim_right_space_id)
qed

text \<open>
  \<open>strings.Fields\<close>: the maximal runs of bytes that are not white space. The first argument is
  the field being collected.
\<close>

function go_fields_from :: "string \<Rightarrow> string \<Rightarrow> string list" where
  "go_fields_from cur s =
     (if s = [] then (if cur = [] then [] else [cur])
      else if space_width s = 0 then go_fields_from (cur @ [hd s]) (tl s)
      else (if cur = [] then [] else [cur]) @ go_fields_from [] (drop (space_width s) s))"
  by pat_completeness auto
termination
proof (relation "measure (\<lambda>(cur, s). length s)")
  fix s :: string
  assume "s \<noteq> []" and nz: "space_width s \<noteq> 0"
  then show "(([], drop (space_width s) s), (cur, s)) \<in> measure (\<lambda>(cur, s). length s)" for cur
    using space_width_le [of s] by (cases s) auto
qed auto

declare go_fields_from.simps [simp del]

definition go_fields :: "string \<Rightarrow> string list" where
  "go_fields s = go_fields_from [] s"

text \<open>\<open>strings.Join\<close>.\<close>

fun join :: "string list \<Rightarrow> string \<Rightarrow> string" where
  "join [] sep = []"
| "join [x] sep = x"
| "join (x # y # xs) sep = x @ sep @ join (y # xs) sep"

lemma fields_from_Nil: "go_fields_from cur [] = (if cur = [] then [] else [cur])"
  by (simp add: go_fields_from.simps [of cur "[]"])

lemma go_fields_nonempty: "f \<in> set (go_fields_from cur s) \<Longrightarrow> f \<noteq> []"
proof (induction cur s rule: go_fields_from.induct)
  case (1 cur s)
  show ?case
  proof (cases "s = []")
    case True
    with "1.prems" show ?thesis by (simp add: fields_from_Nil split: if_splits)
  next
    case False
    then show ?thesis using 1
      by (cases "space_width s = 0") (auto simp: go_fields_from.simps [of cur s] split: if_splits)
  qed
qed

section \<open>Letter case\<close>

record unicode =
  uni_lower :: "string \<Rightarrow> string"
  uni_fold :: "string \<Rightarrow> string \<Rightarrow> bool"

definition ascii_char :: "char \<Rightarrow> bool" where
  "ascii_char c = ((of_char c :: nat) < 128)"

definition lower_char :: "char \<Rightarrow> char" where
  "lower_char c =
     (let n = (of_char c :: nat) in if 65 \<le> n \<and> n \<le> 90 then char_of (n + 32) else c)"

definition to_lower :: "unicode \<Rightarrow> string \<Rightarrow> string" where
  "to_lower U s = (if list_all ascii_char s then map lower_char s else uni_lower U s)"

fun equal_fold :: "unicode \<Rightarrow> string \<Rightarrow> string \<Rightarrow> bool" where
  "equal_fold U [] t = (t = [])"
| "equal_fold U (a # s) [] = False"
| "equal_fold U (a # s) (b # t) =
     (if ascii_char a \<and> ascii_char b then lower_char a = lower_char b \<and> equal_fold U s t
      else uni_fold U (a # s) (b # t))"

text \<open>A documented fact of the Unicode tables: every string folds to itself.\<close>

definition fold_reflexive :: "unicode \<Rightarrow> bool" where
  "fold_reflexive U = (\<forall>s. uni_fold U s s)"

lemma equal_fold_refl: "fold_reflexive U \<Longrightarrow> equal_fold U s s"
proof (induction s)
  case (Cons a s)
  then have "uni_fold U (a # s) (a # s)" unfolding fold_reflexive_def by blast
  with Cons show ?case by simp
qed simp

lemma equal_fold_ascii:
  "list_all ascii_char s \<Longrightarrow> list_all ascii_char t \<Longrightarrow>
   equal_fold U s t \<longleftrightarrow> to_lower U s = to_lower U t"
proof (induction U s t rule: equal_fold.induct)
  case (1 U t)
  then show ?case by (cases t) (auto simp: to_lower_def)
qed (auto simp: to_lower_def)

text \<open>The tables of a program whose strings are all ASCII: an instance for closed examples.\<close>

definition ascii_unicode :: unicode where
  "ascii_unicode = \<lparr>uni_lower = map lower_char, uni_fold = (\<lambda>s t. map lower_char s = map lower_char t)\<rparr>"

lemma fold_reflexive_ascii [simp]: "fold_reflexive ascii_unicode"
  by (simp add: fold_reflexive_def ascii_unicode_def)

section \<open>Numbers\<close>

text \<open>
  \<open>strconv.Itoa\<close> and \<open>strconv.Atoi\<close>. Go's \<open>int\<close> is 64 bits wide on the platforms the bridge
  ships for: \<open>wrap64\<close> is the wrap-around of its arithmetic and \<open>atoi\<close> refuses what does not fit.
\<close>

definition digit_char :: "nat \<Rightarrow> char" where
  "digit_char n = char_of (48 + n)"

fun nat_str :: "nat \<Rightarrow> string" where
  "nat_str n = (if n < 10 then [digit_char n] else nat_str (n div 10) @ [digit_char (n mod 10)])"

declare nat_str.simps [simp del]

definition itoa :: "int \<Rightarrow> string" where
  "itoa i = (if i < 0 then CHR ''-'' # nat_str (nat (- i)) else nat_str (nat i))"

definition wrap64 :: "int \<Rightarrow> int" where
  "wrap64 i = (i + 2 ^ 63) mod 2 ^ 64 - 2 ^ 63"

definition is_digit :: "char \<Rightarrow> bool" where
  "is_digit c = (48 \<le> (of_char c :: nat) \<and> (of_char c :: nat) \<le> 57)"

definition digits_value :: "string \<Rightarrow> nat" where
  "digits_value s = foldl (\<lambda>v c. v * 10 + (of_char c - 48)) 0 s"

definition atoi :: "string \<Rightarrow> err + int" where
  "atoi s =
     (let (neg, ds) = (case s of
            [] \<Rightarrow> (False, [])
          | c # r \<Rightarrow> if c = CHR ''-'' then (True, r) else if c = CHR ''+'' then (False, r) else (False, s));
          v = (if neg then - int (digits_value ds) else int (digits_value ds))
      in if ds = [] \<or> \<not> list_all is_digit ds then Inl (ErrNew ''strconv.Atoi: invalid syntax'')
         else if v < - (2 ^ 63) \<or> 2 ^ 63 \<le> v then Inl (ErrNew ''strconv.Atoi: value out of range'')
         else Inr v)"

lemma digit_char_value:
  assumes "n < 10"
  shows "is_digit (digit_char n)" "of_char (digit_char n) - 48 = n"
  using assms by (simp_all add: is_digit_def digit_char_def)

lemma nat_str_digits: "list_all is_digit (nat_str n) \<and> nat_str n \<noteq> [] \<and> digits_value (nat_str n) = n"
proof (induction n rule: nat_str.induct)
  case (1 n)
  show ?case
  proof (cases "n < 10")
    case True
    then show ?thesis
      using digit_char_value [OF True] by (simp add: nat_str.simps [of n] digits_value_def)
  next
    case False
    have m: "n mod 10 < 10" by simp
    from 1 [OF False] digit_char_value [OF m] show ?thesis
      using False by (simp add: nat_str.simps [of n] digits_value_def)
  qed
qed

lemma not_sign_if_digit: "is_digit c \<Longrightarrow> c \<noteq> CHR ''-'' \<and> c \<noteq> CHR ''+''"
  by (auto simp: is_digit_def)

lemma atoi_itoa:
  assumes "- (2 ^ 63) \<le> i" "i < 2 ^ 63"
  shows "atoi (itoa i) = Inr i"
proof (cases "i < 0")
  case True
  then show ?thesis
    using nat_str_digits [of "nat (- i)"] assms by (simp add: atoi_def itoa_def)
next
  case False
  obtain c r where n: "nat_str (nat i) = c # r"
    using nat_str_digits [of "nat i"] by (cases "nat_str (nat i)") auto
  then have "is_digit c" using nat_str_digits [of "nat i"] by simp
  with not_sign_if_digit [OF this] nat_str_digits [of "nat i"] show ?thesis
    using False assms by (simp add: atoi_def itoa_def n)
qed

lemma wrap64_id: "- (2 ^ 63) \<le> i \<Longrightarrow> i < 2 ^ 63 \<Longrightarrow> wrap64 i = i"
  by (simp add: wrap64_def)

lemma wrap64_range: "- (2 ^ 63) \<le> wrap64 i \<and> wrap64 i < 2 ^ 63"
  using pos_mod_bound [of "2 ^ 64" "i + 2 ^ 63"] pos_mod_sign [of "2 ^ 64" "i + 2 ^ 63"]
  by (simp add: wrap64_def)

end
