(* ===== verification/Symmetric.thy ===== *)
theory Symmetric
  imports Primitives GoStrings
begin

text \<open>
  \<open>internal/crypto/symmetric.go\<close> and \<open>internal/crypto/email.go\<close>: AES-GCM with the IV at the end
  of the payload, and the sealing of an email's three parts under one key. Each \<open>rand.Read\<close> of
  the code is one outcome of the \<open>rand\<close> argument; \<open>EncryptSymmetrically\<close> takes the index of the
  draw it makes.
\<close>

definition ivLen :: nat where
  "ivLen = 12"

definition newAESGCM :: "bytes \<Rightarrow> err + bytes" where
  "newAESGCM key =
     (if aes_key_ok key then Inr key
      else Inl (ErrWrap ''crypto: build cipher'' (ErrNew ''crypto/aes: invalid key size'')))"

definition aesGCM_Seal :: "prims \<Rightarrow> rand \<Rightarrow> nat \<Rightarrow> bytes \<Rightarrow> bytes \<Rightarrow> bytes \<Rightarrow> err + bytes" where
  "aesGCM_Seal E R k key plaintext aux =
     bind_err (wrap_err ''crypto: generate IV'' (R k ivLen))
       (\<lambda>iv. Inr (gcm_seal E key iv plaintext aux @ iv))"

definition aesGCM_Open :: "prims \<Rightarrow> bytes \<Rightarrow> bytes \<Rightarrow> bytes \<Rightarrow> err + bytes" where
  "aesGCM_Open E key encrypted aux =
     (if length encrypted < ivLen
      then Inl (ErrNew ''crypto: encrypted payload is shorter than the IV'')
      else
        let split = length encrypted - ivLen;
            ciphertext = take split encrypted; iv = drop split encrypted
        in case gcm_open E key iv ciphertext aux of
             None \<Rightarrow> Inl (ErrWrap ''crypto: decrypt symmetrically''
                        (ErrNew ''cipher: message authentication failed''))
           | Some plaintext \<Rightarrow> Inr plaintext)"

definition EncryptSymmetrically :: "prims \<Rightarrow> rand \<Rightarrow> nat \<Rightarrow> bytes \<Rightarrow> bytes \<Rightarrow> bytes \<Rightarrow> err + bytes" where
  "EncryptSymmetrically E R k key plaintext aux =
     bind_err (newAESGCM key) (\<lambda>c. aesGCM_Seal E R k c plaintext aux)"

definition DecryptSymmetrically :: "prims \<Rightarrow> bytes \<Rightarrow> bytes \<Rightarrow> bytes \<Rightarrow> err + bytes" where
  "DecryptSymmetrically E key encrypted aux =
     bind_err (newAESGCM key) (\<lambda>c. aesGCM_Open E c encrypted aux)"

section \<open>Emails\<close>

record EncryptedEmail =
  ee_Text :: bytes
  ee_Preview :: bytes
  ee_AttachmentsSessionKey :: bytes

record Email =
  pl_Text :: string
  pl_Preview :: string
  pl_AttachmentsSessionKey :: bytes

definition EncryptEmail :: "prims \<Rightarrow> rand \<Rightarrow> nat \<Rightarrow> Email \<Rightarrow> bytes \<Rightarrow> bytes \<Rightarrow> err + EncryptedEmail" where
  "EncryptEmail E R k email key aux =
     bind_err (wrap_err ''crypto: encrypt body''
       (EncryptSymmetrically E R k key (str_bytes (pl_Text email)) aux)) (\<lambda>text.
     bind_err (wrap_err ''crypto: encrypt preview''
       (EncryptSymmetrically E R (k + 1) key (str_bytes (pl_Preview email)) aux)) (\<lambda>preview.
     if length (pl_AttachmentsSessionKey email) > 0 then
       bind_err (wrap_err ''crypto: encrypt attachments session key''
         (EncryptSymmetrically E R (k + 2) key (pl_AttachmentsSessionKey email) aux))
         (\<lambda>attachmentsKey.
            Inr \<lparr>ee_Text = text, ee_Preview = preview, ee_AttachmentsSessionKey = attachmentsKey\<rparr>)
     else Inr \<lparr>ee_Text = text, ee_Preview = preview, ee_AttachmentsSessionKey = []\<rparr>))"

definition decrypt_part :: "prims \<Rightarrow> bytes \<Rightarrow> bytes \<Rightarrow> bytes \<Rightarrow> string \<Rightarrow> err + bytes" where
  "decrypt_part E key part aux what =
     (if length part > 0 then wrap_err what (DecryptSymmetrically E key part aux) else Inr [])"

definition DecryptEmail :: "prims \<Rightarrow> EncryptedEmail \<Rightarrow> bytes \<Rightarrow> bytes \<Rightarrow> err + Email" where
  "DecryptEmail E encrypted key aux =
     bind_err (decrypt_part E key (ee_Text encrypted) aux ''crypto: decrypt body'') (\<lambda>text.
     bind_err (decrypt_part E key (ee_Preview encrypted) aux ''crypto: decrypt preview'') (\<lambda>preview.
     bind_err (decrypt_part E key (ee_AttachmentsSessionKey encrypted) aux
       ''crypto: decrypt attachments session key'') (\<lambda>sessionKey.
     Inr \<lparr>pl_Text = bytes_str text, pl_Preview = bytes_str preview,
          pl_AttachmentsSessionKey = sessionKey\<rparr>)))"

section \<open>Lemmas\<close>

lemma EncryptSymmetrically_sealed:
  assumes E: "gcm_ok E" and R: "rand_ok R" and s: "EncryptSymmetrically E R k key p aux = Inr c"
  shows "length c = length p + 28" "DecryptSymmetrically E key c aux = Inr p" "aes_key_ok key"
proof -
  from s obtain iv where iv: "R k 12 = Inr iv" and c: "c = gcm_seal E key iv p aux @ iv"
    and key: "aes_key_ok key"
    by (auto simp: EncryptSymmetrically_def newAESGCM_def aesGCM_Seal_def ivLen_def split: if_splits)
  have l: "length iv = 12" by (rule rand_okD [OF R iv])
  note g = gcm_okD [OF E key l]
  show "aes_key_ok key" by (rule key)
  show "length c = length p + 28" using c l g(1) by simp
  show "DecryptSymmetrically E key c aux = Inr p"
    using c l g key by (simp add: DecryptSymmetrically_def newAESGCM_def aesGCM_Open_def ivLen_def)
qed

lemma decrypt_part_sealed:
  assumes "gcm_ok E" "rand_ok R" "EncryptSymmetrically E R k key p aux = Inr c"
  shows "decrypt_part E key c aux what = Inr p"
  using EncryptSymmetrically_sealed(1,2) [OF assms] by (simp add: decrypt_part_def)

lemma decrypt_part_empty [simp]: "decrypt_part E key [] aux what = Inr []"
  by (simp add: decrypt_part_def)

lemma EncryptEmail_roundtrip:
  assumes E: "gcm_ok E" and R: "rand_ok R" and e: "EncryptEmail E R k email key aux = Inr enc"
  shows "DecryptEmail E enc key aux = Inr email"
proof (cases "pl_AttachmentsSessionKey email = []")
  case True
  then show ?thesis
    using e by (auto simp: EncryptEmail_def DecryptEmail_def decrypt_part_sealed [OF E R])
next
  case False
  then show ?thesis
    using e by (auto simp: EncryptEmail_def DecryptEmail_def decrypt_part_sealed [OF E R])
qed

lemma EncryptEmail_parts_nonempty:
  assumes "gcm_ok E" "rand_ok R" "EncryptEmail E R k email key aux = Inr enc"
  shows "ee_Text enc \<noteq> []" "ee_Preview enc \<noteq> []"
  using assms(3) EncryptSymmetrically_sealed(1) [OF assms(1,2)]
  by (auto simp: EncryptEmail_def split: if_splits) fastforce+

end
