(* ===== verification/Base64.thy ===== *)
theory Base64
  imports GoStrings
begin

text \<open>
  Go's \<open>base64.StdEncoding\<close>, which carries every key and ciphertext of the program as text: the
  encoder, the decoder with the checks \<open>DecodeString\<close> makes (length, alphabet, padding, nothing
  after the padding; line breaks are skipped), the length \<open>EncodedLen\<close> announces, and the round
  trip between them.
\<close>

definition b64_alphabet :: string where
  "b64_alphabet = ''ABCDEFGHIJKLMNOPQRSTUVWXYZabcdefghijklmnopqrstuvwxyz0123456789+/''"

definition b64_char :: "nat \<Rightarrow> char" where
  "b64_char n = b64_alphabet ! n"

definition b64_value :: "char \<Rightarrow> nat option" where
  "b64_value c = find (\<lambda>n. b64_alphabet ! n = c) [0..<64]"

fun b64_encode :: "bytes \<Rightarrow> string" where
  "b64_encode [] = []"
| "b64_encode [a] =
     [b64_char (unat a div 4), b64_char (unat a mod 4 * 16), CHR ''='', CHR ''='']"
| "b64_encode [a, b] =
     [b64_char (unat a div 4), b64_char (unat a mod 4 * 16 + unat b div 16),
      b64_char (unat b mod 16 * 4), CHR ''='']"
| "b64_encode (a # b # c # rest) =
     b64_char (unat a div 4) # b64_char (unat a mod 4 * 16 + unat b div 16) #
     b64_char (unat b mod 16 * 4 + unat c div 64) # b64_char (unat c mod 64) # b64_encode rest"

definition b64_byte :: "nat \<Rightarrow> byte" where
  "b64_byte n = of_nat n"

fun b64_decode_quads :: "string \<Rightarrow> bytes option" where
  "b64_decode_quads [] = Some []"
| "b64_decode_quads (a # b # c # d # rest) =
     (case (b64_value a, b64_value b) of
       (Some x, Some y) \<Rightarrow>
         (if c = CHR ''='' then
            (if d = CHR ''='' \<and> rest = [] then Some [b64_byte (x * 4 + y div 16)] else None)
          else
            (case b64_value c of
              None \<Rightarrow> None
            | Some z \<Rightarrow>
                (if d = CHR ''='' then
                   (if rest = [] then
                      Some [b64_byte (x * 4 + y div 16), b64_byte (y mod 16 * 16 + z div 4)]
                    else None)
                 else
                   (case b64_value d of
                     None \<Rightarrow> None
                   | Some w \<Rightarrow>
                       map_option
                         (\<lambda>bs. b64_byte (x * 4 + y div 16) # b64_byte (y mod 16 * 16 + z div 4) #
                               b64_byte (z mod 4 * 64 + w) # bs)
                         (b64_decode_quads rest)))))
     | _ \<Rightarrow> None)"
| "b64_decode_quads _ = None"

definition b64_decode :: "string \<Rightarrow> err + bytes" where
  "b64_decode s =
     (case b64_decode_quads (filter (\<lambda>c. c \<noteq> CHR 0x0D \<and> c \<noteq> CHR 0x0A) s) of
       None \<Rightarrow> Inl (ErrNew ''illegal base64 data'')
     | Some bs \<Rightarrow> Inr bs)"

text \<open>\<open>StdEncoding.EncodedLen\<close>.\<close>

definition b64_encoded_len :: "nat \<Rightarrow> nat" where
  "b64_encoded_len n = (n + 2) div 3 * 4"

section \<open>The alphabet\<close>

lemma b64_char_roundtrip_all: "\<forall>n \<in> set [0..<64]. b64_value (b64_char n) = Some n"
  by code_simp

lemma b64_value_char [simp]: "n < 64 \<Longrightarrow> b64_value (b64_char n) = Some n"
  using b64_char_roundtrip_all by simp

lemma b64_char_plain_all:
  "\<forall>n \<in> set [0..<64]. b64_char n \<notin> {CHR ''='', CHR 0x0A, CHR 0x0D, CHR '' '', CHR 0x22}"
  by code_simp

lemma b64_char_plain [simp]:
  "n < 64 \<Longrightarrow> b64_char n \<noteq> CHR ''='' \<and> b64_char n \<noteq> CHR 0x0A \<and> b64_char n \<noteq> CHR 0x0D"
  using b64_char_plain_all by simp

lemma unat_byte_less [simp]: "unat (b :: byte) < 256"
  using unsigned_less [of b] by simp

lemma b64_sextets [simp]:
  fixes a b :: byte
  shows "unat a div 4 < 64" "unat a mod 4 * 16 < 64" "unat a mod 4 * 16 + unat b div 16 < 64"
    "unat a mod 16 * 4 < 64" "unat a mod 16 * 4 + unat b div 64 < 64" "unat a mod 64 < 64"
  using unat_byte_less [of a] unat_byte_less [of b] by (simp_all add: div_less_iff_less_mult, linarith+)

section \<open>Round trip and lengths\<close>

lemma length_b64_encode [simp]: "length (b64_encode bs) = b64_encoded_len (length bs)"
proof (induction bs rule: b64_encode.induct)
  case (4 a b c rest)
  have "(length (a # b # c # rest) + 2) div 3 = Suc ((length rest + 2) div 3)" by simp
  with 4 show ?case by (simp add: b64_encoded_len_def del: One_nat_def)
qed (simp_all add: b64_encoded_len_def)

lemma b64_encode_no_newline: "c \<in> set (b64_encode bs) \<Longrightarrow> c \<noteq> CHR 0x0A \<and> c \<noteq> CHR 0x0D"
  by (induction bs rule: b64_encode.induct) auto

lemma b64_byte_unat [simp]: "b64_byte (unat a) = a"
  by (simp add: b64_byte_def)

lemma b64_high_bits [simp]:
  fixes b :: byte
  shows "unat b div 16 div 16 = 0" "unat b div 16 mod 16 = unat b div 16"
    "unat b div 64 div 4 = 0" "unat b div 64 mod 4 = unat b div 64"
proof -
  have "unat b div 16 < 16" and "unat b div 64 < 4"
    using unat_byte_less [of b] by linarith+
  then show "unat b div 16 div 16 = 0" "unat b div 16 mod 16 = unat b div 16"
    "unat b div 64 div 4 = 0" "unat b div 64 mod 4 = unat b div 64"
    by simp_all
qed

lemma b64_decode_quads_encode: "b64_decode_quads (b64_encode bs) = Some bs"
  by (induction bs rule: b64_encode.induct) simp_all

lemma b64_decode_encode [simp]: "b64_decode (b64_encode bs) = Inr bs"
proof -
  have "filter (\<lambda>c. c \<noteq> CHR 0x0D \<and> c \<noteq> CHR 0x0A) (b64_encode bs) = b64_encode bs"
    by (rule filter_True) (auto dest: b64_encode_no_newline)
  then show ?thesis by (simp add: b64_decode_def b64_decode_quads_encode)
qed

lemma b64_encode_eq_Nil [simp]: "b64_encode bs = [] \<longleftrightarrow> bs = []"
  by (induction bs rule: b64_encode.induct) auto

end
