(* ===== verification/Envelope.thy ===== *)
theory Envelope
  imports Hybrid Symmetric Base64
begin

text \<open>
  \<open>internal/crypto/envelope.go\<close>: the wire format of an encrypted email. An envelope is sealed once
  under a random session key, which is wrapped for every recipient; a reader finds the key wrapped
  for their address, unwraps it with their private key and opens the three parts.

  The random draws of \<open>BuildEnvelope\<close> are numbered in the order the code makes them: 0 the session
  key, 1 the attachments session key (drawn only when the email brings none), 2 to 4 the IVs of the
  three parts, then two for every recipient (the ML-KEM coins and the ephemeral X25519 key). The
  JSON decoder is a parameter: bytes in, an envelope or an error out.
\<close>

definition EncryptedEmailPrefix :: string where
  "EncryptedEmailPrefix = ''INTERNXT-ENCRYPTED-EMAIL-v1''"

definition envelopeVersion :: string where
  "envelopeVersion = ''v3''"

definition sessionKeyLen :: nat where
  "sessionKeyLen = 32"

record Recipient =
  rc_Address :: string
  rc_PublicKey :: bytes

record WrappedKey =
  wk_EncryptedForEmail :: string
  wk_EncryptedKey :: string
  wk_HybridCiphertext :: string

record Envelope =
  env_Version :: string
  env_EncryptedText :: string
  env_EncryptedPreview :: string
  env_EncryptedAttachmentsSessionKey :: string
  env_WrappedKeys :: "WrappedKey list"

section \<open>Reading\<close>

definition IsEncryptedBody :: "string \<Rightarrow> bool" where
  "IsEncryptedBody textBody \<longleftrightarrow>
     has_prefix textBody (EncryptedEmailPrefix @ [CHR 0x0A]) \<or>
     has_prefix textBody (EncryptedEmailPrefix @ [CHR 0x0D, CHR 0x0A])"

definition ParseEnvelope :: "(bytes \<Rightarrow> err + Envelope) \<Rightarrow> string \<Rightarrow> err + Envelope" where
  "ParseEnvelope json_unmarshal textBody =
     (if \<not> IsEncryptedBody textBody
      then Inl (ErrNew ''crypto: body does not carry an encrypted envelope'')
      else
        let payload = trim_prefix textBody EncryptedEmailPrefix;
            payload = trim_prefix payload [CHR 0x0D, CHR 0x0A];
            payload = trim_prefix payload [CHR 0x0A]
        in bind_err (wrap_err ''crypto: decode envelope'' (b64_decode (trim_space payload))) (\<lambda>decoded.
           wrap_err ''crypto: parse envelope'' (json_unmarshal decoded)))"

fun findKeyFor :: "unicode \<Rightarrow> WrappedKey list \<Rightarrow> string \<Rightarrow> err + WrappedKey" where
  "findKeyFor U [] address = Inl (ErrWrap address (ErrSentinel ErrNoWrappedKey))"
| "findKeyFor U (wrapped # wrappedKeys) address =
     (if equal_fold U (wk_EncryptedForEmail wrapped) address then Inr wrapped
      else findKeyFor U wrappedKeys address)"

definition decodeWrappedKey :: "WrappedKey \<Rightarrow> err + HybridEncryptedKey" where
  "decodeWrappedKey wrapped =
     bind_err (wrap_err ''crypto: decode hybrid ciphertext'' (b64_decode (wk_HybridCiphertext wrapped))) (\<lambda>ciphertext.
     bind_err (wrap_err ''crypto: decode wrapped key'' (b64_decode (wk_EncryptedKey wrapped))) (\<lambda>encryptedKey.
     Inr \<lparr>hk_HybridCiphertext = ciphertext, hk_EncryptedKey = encryptedKey\<rparr>))"

definition sessionKeyFor :: "prims \<Rightarrow> unicode \<Rightarrow> WrappedKey list \<Rightarrow> bytes \<Rightarrow> string \<Rightarrow> err + bytes" where
  "sessionKeyFor E U wrappedKeys privateKey address =
     bind_err (findKeyFor U wrappedKeys address) (\<lambda>wrapped.
     bind_err (decodeWrappedKey wrapped) (\<lambda>encryptedKey.
     DecryptKeysHybrid E encryptedKey privateKey))"

definition decodeOptional :: "string \<Rightarrow> err + bytes" where
  "decodeOptional value = (if value = [] then Inr [] else b64_decode value)"

definition decodeEnvelopeCiphertexts :: "Envelope \<Rightarrow> err + EncryptedEmail" where
  "decodeEnvelopeCiphertexts envelope =
     bind_err (wrap_err ''crypto: decode body'' (decodeOptional (env_EncryptedText envelope))) (\<lambda>text.
     bind_err (wrap_err ''crypto: decode preview'' (decodeOptional (env_EncryptedPreview envelope))) (\<lambda>preview.
     bind_err (wrap_err ''crypto: decode attachments session key''
       (decodeOptional (env_EncryptedAttachmentsSessionKey envelope))) (\<lambda>key.
     Inr \<lparr>ee_Text = text, ee_Preview = preview, ee_AttachmentsSessionKey = key\<rparr>)))"

definition DecryptEnvelope :: "prims \<Rightarrow> unicode \<Rightarrow> Envelope \<Rightarrow> bytes \<Rightarrow> string \<Rightarrow> err + Email" where
  "DecryptEnvelope E U envelope privateKey address =
     bind_err (sessionKeyFor E U (env_WrappedKeys envelope) privateKey address) (\<lambda>sessionKey.
     bind_err (decodeEnvelopeCiphertexts envelope) (\<lambda>encrypted.
     DecryptEmail E encrypted sessionKey []))"

definition DecryptPreview :: "prims \<Rightarrow> unicode \<Rightarrow> WrappedKey list \<Rightarrow> string \<Rightarrow> bytes \<Rightarrow> string \<Rightarrow> err + string" where
  "DecryptPreview E U wrappedKeys encryptedPreview privateKey address =
     (if encryptedPreview = [] then Inr []
      else
        bind_err (sessionKeyFor E U wrappedKeys privateKey address) (\<lambda>sessionKey.
        bind_err (wrap_err ''crypto: decode preview'' (decodeOptional encryptedPreview)) (\<lambda>ciphertext.
        bind_err (wrap_err ''crypto: decrypt preview'' (DecryptSymmetrically E sessionKey ciphertext [])) (\<lambda>preview.
        Inr (bytes_str preview)))))"

section \<open>Building\<close>

definition randomKey :: "rand \<Rightarrow> nat \<Rightarrow> err + bytes" where
  "randomKey R k = R k sessionKeyLen"

definition NewSessionKey :: "rand \<Rightarrow> nat \<Rightarrow> err + bytes" where
  "NewSessionKey R k = wrap_err ''crypto: generate session key'' (randomKey R k)"

text \<open>The loop of \<open>BuildEnvelope\<close> over the recipients; \<open>k\<close> is the index of the next draw.\<close>

fun seal_session_key :: "prims \<Rightarrow> rand \<Rightarrow> nat \<Rightarrow> bytes \<Rightarrow> Recipient list \<Rightarrow> err + WrappedKey list" where
  "seal_session_key E R k sessionKey [] = Inr []"
| "seal_session_key E R k sessionKey (recipient # recipients) =
     bind_err (wrap_err ''crypto: seal session key''
       (EncryptKeysHybrid E R k sessionKey (rc_PublicKey recipient))) (\<lambda>encryptedKey.
     bind_err (seal_session_key E R (k + 2) sessionKey recipients) (\<lambda>wrappedKeys.
     Inr (\<lparr>wk_EncryptedForEmail = rc_Address recipient,
           wk_EncryptedKey = b64_encode (hk_EncryptedKey encryptedKey),
           wk_HybridCiphertext = b64_encode (hk_HybridCiphertext encryptedKey)\<rparr> # wrappedKeys)))"

definition with_attachments_key :: "rand \<Rightarrow> Email \<Rightarrow> err + Email" where
  "with_attachments_key R email =
     (if length (pl_AttachmentsSessionKey email) = 0
      then bind_err (wrap_err ''crypto: generate attachments session key'' (randomKey R 1))
             (\<lambda>attachmentsSessionKey. Inr (email\<lparr>pl_AttachmentsSessionKey := attachmentsSessionKey\<rparr>))
      else Inr email)"

definition BuildEnvelope :: "prims \<Rightarrow> rand \<Rightarrow> Email \<Rightarrow> Recipient list \<Rightarrow> err + Envelope" where
  "BuildEnvelope E R email recipients =
     (if length recipients = 0
      then Inl (ErrNew ''crypto: an envelope needs at least one recipient'')
      else
        bind_err (wrap_err ''crypto: generate session key'' (randomKey R 0)) (\<lambda>sessionKey.
        bind_err (with_attachments_key R email) (\<lambda>email.
        bind_err (EncryptEmail E R 2 email sessionKey []) (\<lambda>encrypted.
        bind_err (seal_session_key E R 5 sessionKey recipients) (\<lambda>wrappedKeys.
        Inr \<lparr>env_Version = envelopeVersion,
             env_EncryptedText = b64_encode (ee_Text encrypted),
             env_EncryptedPreview = b64_encode (ee_Preview encrypted),
             env_EncryptedAttachmentsSessionKey = b64_encode (ee_AttachmentsSessionKey encrypted),
             env_WrappedKeys = wrappedKeys\<rparr>)))))"

section \<open>Lemmas\<close>

lemma decodeOptional_b64_encode [simp]: "decodeOptional (b64_encode bs) = Inr bs"
  by (simp add: decodeOptional_def)

lemma sessionKeyFor_sealed:
  assumes E: "block_cipher_ok E" "kem_ok E" "hash_ok E" and seed: "length seed = 32"
    and s: "seal_session_key E R k key recipients = Inr wks"
    and f: "find (\<lambda>r. equal_fold U (rc_Address r) address) recipients = Some r"
    and pk: "rc_PublicKey r = hybrid_public_key E seed"
  shows "sessionKeyFor E U wks seed address = Inr key"
  using s f
proof (induction recipients arbitrary: k wks)
  case (Cons rc recipients)
  from Cons.prems(1) obtain hk wks' where
    hk: "EncryptKeysHybrid E R k key (rc_PublicKey rc) = Inr hk" and
    s': "seal_session_key E R (k + 2) key recipients = Inr wks'" and
    wks: "wks = \<lparr>wk_EncryptedForEmail = rc_Address rc,
           wk_EncryptedKey = b64_encode (hk_EncryptedKey hk),
           wk_HybridCiphertext = b64_encode (hk_HybridCiphertext hk)\<rparr> # wks'"
    by auto
  show ?case
  proof (cases "equal_fold U (rc_Address rc) address")
    case True
    with Cons.prems(2) have "rc = r" by simp
    with hk pk have "DecryptKeysHybrid E hk seed = Inr key"
      using DecryptKeysHybrid_EncryptKeysHybrid [OF E seed] by metis
    with True show ?thesis
      by (cases hk) (simp add: sessionKeyFor_def decodeWrappedKey_def wks)
  next
    case False
    with Cons.prems(2) Cons.IH [OF s'] show ?thesis by (simp add: sessionKeyFor_def wks)
  qed
qed simp

lemma seal_session_key_addresses:
  "seal_session_key E R k key recipients = Inr wks \<Longrightarrow>
     map wk_EncryptedForEmail wks = map rc_Address recipients"
  by (induction E R k key recipients arbitrary: wks rule: seal_session_key.induct) auto

lemma findKeyFor_Inl_iff:
  "findKeyFor U wks address = Inl e \<longleftrightarrow>
     (\<forall>w \<in> set wks. \<not> equal_fold U (wk_EncryptedForEmail w) address) \<and>
     e = ErrWrap address (ErrSentinel ErrNoWrappedKey)"
  by (induction wks) auto

text \<open>The two written forms of an encrypted body are read back to their payload.\<close>

lemma b64_encode_graphic: "list_all graphic_char (b64_encode bs)"
proof -
  have all: "\<forall>n \<in> set [0..<64]. graphic_char (b64_char n)" and eq: "graphic_char (CHR ''='')"
    by code_simp+
  have "n < 64 \<Longrightarrow> graphic_char (b64_char n)" for n using all by simp
  with eq show ?thesis by (induction bs rule: b64_encode.induct) simp_all
qed

lemma ParseEnvelope_written:
  assumes "nl = [CHR 0x0A] \<or> nl = [CHR 0x0D, CHR 0x0A]"
  shows "ParseEnvelope json_unmarshal (EncryptedEmailPrefix @ nl @ b64_encode bs) =
    wrap_err ''crypto: parse envelope'' (json_unmarshal bs)"
proof -
  have p: "trim_prefix (b64_encode bs) [CHR 0x0A] = b64_encode bs"
    "trim_prefix (CHR 0x0A # b64_encode bs) [CHR 0x0D, CHR 0x0A] = CHR 0x0A # b64_encode bs"
    using b64_encode_no_newline [of _ bs]
    by (cases "b64_encode bs"; auto simp: trim_prefix_def has_prefix_def)+
  have "trim_space (b64_encode bs) = b64_encode bs"
    by (rule trim_space_graphic) (rule b64_encode_graphic)
  moreover have "IsEncryptedBody (EncryptedEmailPrefix @ nl @ b64_encode bs)"
    using assms by (auto simp: IsEncryptedBody_def has_prefix_def)
  moreover have "trim_prefix (trim_prefix (nl @ b64_encode bs) [CHR 0x0D, CHR 0x0A]) [CHR 0x0A] = b64_encode bs"
    using assms p trim_prefix_append [of "[CHR 0x0D, CHR 0x0A]" "b64_encode bs"]
      trim_prefix_append [of "[CHR 0x0A]" "b64_encode bs"] by auto
  ultimately show ?thesis by (simp add: ParseEnvelope_def)
qed

lemma with_attachments_key_Inr:
  "with_attachments_key R email = Inr email' \<Longrightarrow>
     \<exists>key. email' = email\<lparr>pl_AttachmentsSessionKey := key\<rparr> \<and>
       (pl_AttachmentsSessionKey email \<noteq> [] \<longrightarrow> key = pl_AttachmentsSessionKey email)"
  by (cases email) (auto simp: with_attachments_key_def split: if_splits)

lemma BuildEnvelope_decrypts:
  assumes E: "block_cipher_ok E" "gcm_ok E" "kem_ok E" "hash_ok E" "rand_ok R"
    and b: "BuildEnvelope E R email recipients = Inr envelope"
    and f: "find (\<lambda>r. equal_fold U (rc_Address r) address) recipients = Some r"
    and k: "length seed = 32" "rc_PublicKey r = hybrid_public_key E seed"
  shows "\<exists>email'. with_attachments_key R email = Inr email' \<and>
    DecryptEnvelope E U envelope seed address = Inr email'"
proof -
  from b obtain sk email' enc wks where
    ask: "with_attachments_key R email = Inr email'" and
    enc: "EncryptEmail E R 2 email' sk [] = Inr enc" and
    wks: "seal_session_key E R 5 sk recipients = Inr wks" and
    env: "envelope = \<lparr>env_Version = envelopeVersion,
             env_EncryptedText = b64_encode (ee_Text enc),
             env_EncryptedPreview = b64_encode (ee_Preview enc),
             env_EncryptedAttachmentsSessionKey = b64_encode (ee_AttachmentsSessionKey enc),
             env_WrappedKeys = wks\<rparr>"
    by (auto simp: BuildEnvelope_def split: if_splits)
  have "sessionKeyFor E U wks seed address = Inr sk"
    by (rule sessionKeyFor_sealed [OF E(1,3,4) k(1) wks f k(2)])
  then have "DecryptEnvelope E U envelope seed address = Inr email'"
    using EncryptEmail_roundtrip [OF E(2,5) enc]
    by (cases enc) (simp add: DecryptEnvelope_def decodeEnvelopeCiphertexts_def env)
  with ask show ?thesis by blast
qed

lemma with_attachments_key_cases:
  "with_attachments_key R email = Inr email' \<Longrightarrow>
     \<exists>key. email' = email\<lparr>pl_AttachmentsSessionKey := key\<rparr> \<and>
       (if pl_AttachmentsSessionKey email = [] then randomKey R 1 = Inr key else key = pl_AttachmentsSessionKey email)"
  by (cases email) (auto simp: with_attachments_key_def split: if_splits)

lemma randomKey_length: "rand_ok R \<Longrightarrow> randomKey R k = Inr key \<Longrightarrow> length key = 32"
  by (auto simp: randomKey_def sessionKeyLen_def rand_ok_def)

section \<open>What a recipient can open\<close>

text \<open>
  C2: whoever holds the private key of the first recipient whose address matches opens the envelope
  that BuildEnvelope made, and gets exactly the sealed email: body, preview, and the attachments
  session key, the email's own or, when it brought none, the freshly drawn one.
\<close>

theorem BuildEnvelope_opens:
  assumes E: "block_cipher_ok E" "gcm_ok E" "kem_ok E" "hash_ok E" "rand_ok R"
    and b: "BuildEnvelope E R email recipients = Inr envelope"
    and f: "find (\<lambda>r. equal_fold U (rc_Address r) address) recipients = Some r"
    and k: "length seed = 32" "rc_PublicKey r = hybrid_public_key E seed"
  shows "\<exists>key. DecryptEnvelope E U envelope seed address = Inr (email\<lparr>pl_AttachmentsSessionKey := key\<rparr>) \<and>
    (if pl_AttachmentsSessionKey email = [] then randomKey R 1 = Inr key \<and> length key = 32
     else key = pl_AttachmentsSessionKey email)"
  using BuildEnvelope_decrypts [OF assms] with_attachments_key_cases [of R email]
    randomKey_length [OF E(5), of 1] by fastforce

definition toy_recipients :: "Recipient list" where
  "toy_recipients =
     [\<lparr>rc_Address = ''bob@inxt.eu'', rc_PublicKey = hybrid_public_key toy_prims (replicate 32 8)\<rparr>,
      \<lparr>rc_Address = ''ana@inxt.eu'', rc_PublicKey = hybrid_public_key toy_prims (replicate 32 2)\<rparr>]"

definition toy_email :: Email where
  "toy_email = \<lparr>pl_Text = ''hello'', pl_Preview = ''hell'', pl_AttachmentsSessionKey = []\<rparr>"

lemma toy_hybrid_public_key: "hybrid_public_key toy_prims seed = replicate 1184 0 @ replicate 32 9"
  by (simp add: hybrid_public_key_def toy_prims_def split: prod.split)

lemma toy_EncryptKeysHybrid:
  assumes R: "\<And>i n. R i n = Inr (replicate n (f i))"
  shows "is_ok (EncryptKeysHybrid toy_prims R k (replicate 32 b) (hybrid_public_key toy_prims seed))"
proof -
  have "is_ok (Wrap toy_prims (replicate 32 1) (replicate 32 b))"
    by (simp add: Wrap_def Let_def)
  then show ?thesis
    unfolding toy_hybrid_public_key
    by (auto simp: EncryptKeysHybrid_def WrapSessionKey_def Encapsulate_def hybrid_lens toy_prims_def
        R x25519_new_key_def x25519_exchange_def combineHybridSecrets_def
        newAESKeyWrap_def aes_key_ok_def Let_def is_ok_def split: sum.splits)
qed

lemma toy_seal_session_key:
  assumes R: "\<And>i n. R i n = Inr (replicate n (f i))"
  shows "list_all (\<lambda>r. rc_PublicKey r = hybrid_public_key toy_prims (seed r)) recipients \<Longrightarrow>
    is_ok (seal_session_key toy_prims R k (replicate 32 b) recipients)"
proof (induction recipients arbitrary: k)
  case (Cons r recipients)
  then obtain wks where "seal_session_key toy_prims R (k + 2) (replicate 32 b) recipients = Inr wks"
    by (auto simp: is_ok_iff)
  moreover obtain h where "EncryptKeysHybrid toy_prims R k (replicate 32 b) (hybrid_public_key toy_prims (seed r)) = Inr h"
    using toy_EncryptKeysHybrid [of R f k b "seed r", OF R] by (auto simp: is_ok_iff)
  ultimately show ?case using Cons.prems by simp
qed simp

lemma toy_BuildEnvelope:
  assumes R: "\<And>i n. R i n = Inr (replicate n (f i))"
    and r: "recipients \<noteq> []" "list_all (\<lambda>r. rc_PublicKey r = hybrid_public_key toy_prims (seed r)) recipients"
    and e: "pl_AttachmentsSessionKey email = []"
  shows "is_ok (BuildEnvelope toy_prims R email recipients)"
proof -
  obtain wks where "seal_session_key toy_prims R 5 (replicate 32 (f 0)) recipients = Inr wks"
    using toy_seal_session_key [of R f seed recipients 5 "f 0", OF R r(2)] by (auto simp: is_ok_iff)
  then show ?thesis
    using r(1) e by (simp add: BuildEnvelope_def randomKey_def sessionKeyLen_def R
        with_attachments_key_def EncryptEmail_def EncryptSymmetrically_def newAESGCM_def aes_key_ok_def
        aesGCM_Seal_def)
qed

theorem BuildEnvelope_opens_witness:
  "\<exists>envelope key. BuildEnvelope toy_prims toy_rand toy_email toy_recipients = Inr envelope \<and>
     DecryptEnvelope toy_prims ascii_unicode envelope (replicate 32 2) ''Ana@inxt.eu'' =
       Inr (toy_email\<lparr>pl_AttachmentsSessionKey := key\<rparr>)"
proof -
  obtain envelope where b: "BuildEnvelope toy_prims toy_rand toy_email toy_recipients = Inr envelope"
    using toy_BuildEnvelope [of toy_rand of_nat toy_recipients
        "\<lambda>r. if rc_Address r = ''bob@inxt.eu'' then replicate 32 8 else replicate 32 2" toy_email]
    by (auto simp: is_ok_iff toy_rand_def toy_recipients_def toy_email_def)
  have e: "\<not> equal_fold ascii_unicode ''bob@inxt.eu'' ''Ana@inxt.eu''"
    "equal_fold ascii_unicode ''ana@inxt.eu'' ''Ana@inxt.eu''" by code_simp+
  have f: "find (\<lambda>r. equal_fold ascii_unicode (rc_Address r) ''Ana@inxt.eu'') toy_recipients =
    Some \<lparr>rc_Address = ''ana@inxt.eu'', rc_PublicKey = hybrid_public_key toy_prims (replicate 32 2)\<rparr>"
    using e by (simp only: toy_recipients_def find.simps Recipient.simps if_True if_False simp_thms)
  from BuildEnvelope_opens [OF toy_prims_ok(1,2,3,4) toy_rand_ok b f, of "replicate 32 2"] b
  show ?thesis by auto
qed

text \<open>
  A body is taken for an encrypted one exactly when its first line is the prefix, ended by LF
  or CRLF. Such a body followed by the base64 of a payload is parsed as the JSON decoder reads that
  payload, with either line end, and every other body is refused.
\<close>

theorem ParseEnvelope_payload:
  "ParseEnvelope json_unmarshal (EncryptedEmailPrefix @ [CHR 0x0A] @ b64_encode payload) =
     wrap_err ''crypto: parse envelope'' (json_unmarshal payload) \<and>
   ParseEnvelope json_unmarshal (EncryptedEmailPrefix @ [CHR 0x0D, CHR 0x0A] @ b64_encode payload) =
     wrap_err ''crypto: parse envelope'' (json_unmarshal payload) \<and>
   (IsEncryptedBody body \<longleftrightarrow> (\<exists>nl rest. nl \<in> {[CHR 0x0A], [CHR 0x0D, CHR 0x0A]} \<and>
      body = EncryptedEmailPrefix @ nl @ rest)) \<and>
   {b. is_ok (ParseEnvelope json_unmarshal b)} \<subseteq> {b. IsEncryptedBody b}"
proof -
  have "IsEncryptedBody body \<longleftrightarrow> (\<exists>nl rest. nl \<in> {[CHR 0x0A], [CHR 0x0D, CHR 0x0A]} \<and>
      body = EncryptedEmailPrefix @ nl @ rest)"
    by (auto simp: IsEncryptedBody_def has_prefix_iff)
  moreover have "{b. is_ok (ParseEnvelope json_unmarshal b)} \<subseteq> {b. IsEncryptedBody b}"
    by (auto simp: ParseEnvelope_def split: if_splits)
  ultimately show ?thesis using ParseEnvelope_written by blast
qed

end
