(* ===== verification/Dto.thy ===== *)
theory Dto
  imports Prelude Complex_Main
begin

text \<open>
  \<open>internal/api/types.gen.go\<close> and \<open>internal/api/types.go\<close>: the request and response bodies of the
  Mail API the program uses. A pointer field is an \<open>option\<close> (nil is None); a nil slice and an
  empty slice are both the empty list where the program cannot tell them apart, and an \<open>option\<close> of
  a list where it marshals one that may be nil (\<open>addresses_of\<close>). A string enumeration is the string
  it is on the wire, since the decoder lets any string through. A \<open>float32\<close> is the rational it
  denotes: JSON carries no infinities and no NaN.
\<close>

type_synonym float32 = rat

text \<open>
  What \<open>encoding/json\<close> decodes into an \<open>interface{}\<close>, a number being the rational it denotes. An object is
  the list of its members, and a \<open>map[string]interface{}\<close> is one.
\<close>

datatype json =
    JsonNull
  | JsonBool bool
  | JsonNumber rat
  | JsonString string
  | JsonArray "json list"
  | JsonObject "(string \<times> json) list"

type_synonym json_object = "(string \<times> json) list"

section \<open>Mailboxes\<close>

type_synonym Mailbox = string

definition MailboxInbox :: Mailbox where "MailboxInbox = ''inbox''"
definition MailboxDrafts :: Mailbox where "MailboxDrafts = ''drafts''"
definition MailboxSent :: Mailbox where "MailboxSent = ''sent''"
definition MailboxTrash :: Mailbox where "MailboxTrash = ''trash''"
definition MailboxSpam :: Mailbox where "MailboxSpam = ''spam''"
definition MailboxArchive :: Mailbox where "MailboxArchive = ''archive''"

lemmas mailbox_defs = MailboxInbox_def MailboxDrafts_def MailboxSent_def MailboxTrash_def
  MailboxSpam_def MailboxArchive_def

definition MailboxResponseDtoType_Valid :: "Mailbox \<Rightarrow> bool" where
  "MailboxResponseDtoType_Valid e \<longleftrightarrow>
     e = MailboxArchive \<or> e = MailboxDrafts \<or> e = MailboxInbox \<or> e = MailboxSent \<or>
     e = MailboxSpam \<or> e = MailboxTrash"

type_synonym DeliveryMode = string

definition DeliveryModeEXTERNAL :: DeliveryMode where "DeliveryModeEXTERNAL = ''EXTERNAL''"
definition DeliveryModeINTERNXT :: DeliveryMode where "DeliveryModeINTERNXT = ''INTERNXT''"

definition DeliveryMode_Valid :: "DeliveryMode \<Rightarrow> bool" where
  "DeliveryMode_Valid e \<longleftrightarrow> e = DeliveryModeEXTERNAL \<or> e = DeliveryModeINTERNXT"

record MailboxResponseDto =
  mb_Id :: string
  mb_Name :: string
  mb_ParentId :: "json_object option"
  mb_TotalEmails :: float32
  mb_Type :: "Mailbox option"
  mb_UnreadEmails :: float32

record ListEmailsOptions =
  lo_Mailbox :: Mailbox
  lo_Limit :: int
  lo_Position :: int
  lo_AnchorID :: string
  lo_Unread :: "bool option"

section \<open>Emails\<close>

record EmailAddressDto =
  ad_Email :: string
  ad_Name :: "string option"

record EmailAttachmentDto =
  at_BlobId :: string
  at_Name :: string
  at_Size :: float32
  at_Type :: string

record EncryptedWrappedKeyDto =
  ewk_EncryptedForEmail :: string
  ewk_EncryptedKey :: string
  ewk_HybridCiphertext :: string

record EncryptedSummaryDto =
  es_EncryptedPreview :: string
  es_WrappedKeys :: "EncryptedWrappedKeyDto list"

record EmailSummaryResponseDto =
  su_Encryption :: "EncryptedSummaryDto option"
  su_From :: "EmailAddressDto list"
  su_HasAttachment :: bool
  su_Id :: string
  su_IsDraft :: bool
  su_IsFlagged :: bool
  su_IsRead :: bool
  su_LastReceivedAt :: "string option"
  su_MailboxIds :: "string list"
  su_Participants :: "EmailAddressDto list option"
  su_Preview :: string
  su_ReceivedAt :: string
  su_Size :: float32
  su_Subject :: string
  su_ThreadId :: string
  su_ThreadSize :: "float32 option"
  su_To :: "EmailAddressDto list"

record EmailListResponseDto =
  li_Emails :: "EmailSummaryResponseDto list"
  li_HasMoreMails :: bool
  li_NextAnchor :: "string option"
  li_Total :: float32

record EmailResponseDto =
  em_Attachments :: "EmailAttachmentDto list"
  em_Bcc :: "EmailAddressDto list"
  em_Cc :: "EmailAddressDto list"
  em_Encryption :: "EncryptedSummaryDto option"
  em_From :: "EmailAddressDto list"
  em_HasAttachment :: bool
  em_HtmlBody :: "string option"
  em_Id :: string
  em_IsDraft :: bool
  em_IsFlagged :: bool
  em_IsRead :: bool
  em_LastReceivedAt :: "string option"
  em_MailboxIds :: "string list"
  em_Participants :: "EmailAddressDto list option"
  em_Preview :: string
  em_ReceivedAt :: string
  em_ReplyTo :: "EmailAddressDto list"
  em_SentAt :: "string option"
  em_Size :: float32
  em_Subject :: string
  em_TextBody :: "string option"
  em_ThreadId :: string
  em_ThreadSize :: "float32 option"
  em_To :: "EmailAddressDto list"

section \<open>Requests\<close>

record AttachmentRefDto =
  ar_BlobId :: string
  ar_Name :: string
  ar_Size :: float32
  ar_Type :: string

record EncryptionBlockDto =
  eb_EncryptedAttachmentsSessionKey :: string
  eb_EncryptedPreview :: string
  eb_EncryptedText :: string
  eb_Version :: string
  eb_WrappedKeys :: "EncryptedWrappedKeyDto list"

text \<open>
  A slice of Go that may be nil, which marshals as \<open>null\<close> where an empty one is \<open>[]\<close>: None is nil. So the
  recipients of a request are an option, and a pointer to them, which a request may leave out, an option of it.
\<close>

definition addresses_of :: "EmailAddressDto list option \<Rightarrow> EmailAddressDto list" where
  "addresses_of xs = (case xs of None \<Rightarrow> [] | Some addresses \<Rightarrow> addresses)"

lemma addresses_of_simps [simp]: "addresses_of None = []" "addresses_of (Some addresses) = addresses"
  by (simp_all add: addresses_of_def)

record SendEmailRequestDto =
  se_Attachments :: "AttachmentRefDto list option"
  se_Bcc :: "EmailAddressDto list option"
  se_Cc :: "EmailAddressDto list option"
  se_DeliveryMode :: "DeliveryMode option"
  se_DraftId :: "string option"
  se_Encryption :: "EncryptionBlockDto option"
  se_HtmlBody :: "string option"
  se_InReplyToEmailId :: "string option"
  se_Subject :: string
  se_TextBody :: "string option"
  se_To :: "EmailAddressDto list option"

record ReplyEmailRequestDto =
  re_Attachments :: "AttachmentRefDto list option"
  re_Bcc :: "EmailAddressDto list option"
  re_Cc :: "EmailAddressDto list option"
  re_DeliveryMode :: "DeliveryMode option"
  re_DraftId :: "string option"
  re_Encryption :: "EncryptionBlockDto option"
  re_HtmlBody :: "string option"
  re_ReplyAll :: "bool option"
  re_Subject :: "string option"
  re_TextBody :: "string option"
  re_To :: "EmailAddressDto list option option"

record DraftEmailRequestDto =
  dr_Attachments :: "AttachmentRefDto list option"
  dr_Bcc :: "EmailAddressDto list option"
  dr_Cc :: "EmailAddressDto list option"
  dr_Encryption :: "EncryptionBlockDto option"
  dr_HtmlBody :: "string option"
  dr_Subject :: "string option"
  dr_TextBody :: "string option"
  dr_To :: "EmailAddressDto list option"

record UpdateEmailRequestDto =
  up_IsFlagged :: "bool option"
  up_IsRead :: "bool option"
  up_Mailbox :: "Mailbox option"

record LookupRecipientKeysRequestDto =
  lr_Addresses :: "string list"

record RecipientKeyDto =
  rk_Address :: string
  rk_PublicKey :: "string option"

record LookupRecipientKeysResponseDto =
  lk_Recipients :: "RecipientKeyDto list"

record EmailCreatedResponseDto =
  ec_Id :: string

record UploadAttachmentResponseDto =
  ua_BlobId :: string
  ua_Name :: string
  ua_Size :: float32
  ua_Type :: string

section \<open>Zero values\<close>

definition zero_email :: EmailResponseDto where
  "zero_email = \<lparr>em_Attachments = [], em_Bcc = [], em_Cc = [], em_Encryption = None, em_From = [],
     em_HasAttachment = False, em_HtmlBody = None, em_Id = [], em_IsDraft = False,
     em_IsFlagged = False, em_IsRead = False, em_LastReceivedAt = None, em_MailboxIds = [],
     em_Participants = None, em_Preview = [], em_ReceivedAt = [], em_ReplyTo = [],
     em_SentAt = None, em_Size = 0, em_Subject = [], em_TextBody = None, em_ThreadId = [],
     em_ThreadSize = None, em_To = []\<rparr>"

definition zero_summary :: EmailSummaryResponseDto where
  "zero_summary = \<lparr>su_Encryption = None, su_From = [], su_HasAttachment = False, su_Id = [],
     su_IsDraft = False, su_IsFlagged = False, su_IsRead = False, su_LastReceivedAt = None,
     su_MailboxIds = [], su_Participants = None, su_Preview = [], su_ReceivedAt = [], su_Size = 0,
     su_Subject = [], su_ThreadId = [], su_ThreadSize = None, su_To = []\<rparr>"

section \<open>Rounding to \<open>float32\<close>\<close>

text \<open>
  \<open>float32(n)\<close> for a non-negative integer: exact below \<open>2^24\<close>, otherwise rounded to a multiple of
  the unit in the last place, ties to an even multiple. The first argument of \<open>float32_shift\<close> is
  the number of low bits a 24-bit significand drops.
\<close>

fun float32_shift :: "nat \<Rightarrow> nat \<Rightarrow> nat" where
  "float32_shift fuel n =
     (case fuel of 0 \<Rightarrow> 0
      | Suc f \<Rightarrow> if n < 2 ^ 24 then 0 else Suc (float32_shift f (n div 2)))"

definition round_half_even :: "nat \<Rightarrow> nat \<Rightarrow> nat" where
  "round_half_even n unit =
     (let q = n div unit; r = n mod unit
      in if 2 * r < unit \<or> (2 * r = unit \<and> even q) then q * unit else (q + 1) * unit)"

definition float32_of_nat :: "nat \<Rightarrow> float32" where
  "float32_of_nat n = of_nat (round_half_even n (2 ^ float32_shift 64 n))"

lemma float32_of_nat_exact: "n < 2 ^ 24 \<Longrightarrow> float32_of_nat n = of_nat n"
  by (simp add: float32_of_nat_def round_half_even_def)

end
