(* ===== verification/Api.thy ===== *)
theory Api
  imports Dto GoStrings
begin

text \<open>
  \<open>internal/api\<close>: the client of the Mail API. A request goes through \<open>doRaw\<close>, which makes at most
  \<open>maxAttempts\<close> attempts and waits between them; every endpoint method is one call of \<open>do\<close> or
  \<open>doRaw\<close>.

  The transport is the record \<open>http_env\<close>: what \<open>http.NewRequest\<close>, \<open>http.Client.Do\<close>, the jitter and
  the context give at each attempt. \<open>doRaw\<close> returns its result together with the trace of what
  it did, the requests sent and the waits between them. The JSON encoder of the request bodies and
  the decoders of the responses are parameters.
\<close>

section \<open>Errors\<close>

definition maxBodyInError :: nat where
  "maxBodyInError = 512"

definition sentinelFor :: "int \<Rightarrow> sentinel option" where
  "sentinelFor statusCode =
     (if statusCode = 401 \<or> statusCode = 403 then Some ErrUnauthorized
      else if statusCode = 404 then Some ApiErrNotFound
      else if statusCode = 429 then Some ErrRateLimited
      else if 500 \<le> statusCode then Some ErrServer
      else None)"

definition isRetryableStatus :: "int \<Rightarrow> bool" where
  "isRetryableStatus statusCode \<longleftrightarrow>
     statusCode = 429 \<or> statusCode = 502 \<or> statusCode = 503 \<or> statusCode = 504"

definition isIdempotent :: "string \<Rightarrow> bool" where
  "isIdempotent m \<longleftrightarrow>
     m = ''GET'' \<or> m = ''HEAD'' \<or> m = ''PUT'' \<or> m = ''DELETE'' \<or> m = ''OPTIONS''"

definition Error_Error :: "api_error \<Rightarrow> string" where
  "Error_Error e =
     (let msg = ''api: '' @ Method e @ '' '' @ URL e @ '': '' @ itoa (StatusCode e)
      in if Body e \<noteq> [] then msg @ '': '' @ Body e else msg)"

definition Error_Unwrap :: "api_error \<Rightarrow> sentinel option" where
  "Error_Unwrap e = Err e"

definition truncate_body :: "string \<Rightarrow> nat \<Rightarrow> string" where
  "truncate_body s n = (if length s \<le> n then s else take n s @ ''...'')"

section \<open>Headers\<close>

text \<open>
  \<open>http.Header\<close>: the values under their canonical keys. \<open>Set\<close> replaces, \<open>Get\<close> of an absent key is
  the empty string.
\<close>

type_synonym http_header = "(string \<times> string) list"

definition header_get :: "http_header \<Rightarrow> string \<Rightarrow> string" where
  "header_get h k = (case map_of h k of Some v \<Rightarrow> v | None \<Rightarrow> [])"

definition header_set :: "string \<Rightarrow> string \<Rightarrow> http_header \<Rightarrow> http_header" where
  "header_set k v h = (k, v) # filter (\<lambda>e. fst e \<noteq> k) h"

record service =
  sv_baseURL :: string
  sv_client :: string

definition clientVersion :: string where
  "clientVersion = ''v1.0.0''"

definition headers :: "service \<Rightarrow> http_header" where
  "headers s =
     header_set ''Internxt-Version'' clientVersion
       (header_set ''Internxt-Client'' (sv_client s)
         (header_set ''Accept'' ''application/json, text/plain, */*'' []))"

definition injectHeaders :: "http_header \<Rightarrow> string \<Rightarrow> bytes option \<Rightarrow> string \<Rightarrow> http_header" where
  "injectHeaders header token payload contentType =
     (let header = (if token \<noteq> [] then header_set ''Authorization'' (''Bearer '' @ token) header else header)
      in if payload = None then header
         else
           let contentType = (if contentType = [] then ''application/json; charset=utf-8'' else contentType)
           in header_set ''Content-Type'' contentType header)"

definition api_New :: "string \<Rightarrow> err + service" where
  "api_New mailAPI =
     (if mailAPI = [] then Inl (ErrNew ''api: MAIL_API_URL is not set'')
      else Inr \<lparr>sv_baseURL = trim_suffix mailAPI ''/'', sv_client = ''mail-web''\<rparr>)"

section \<open>Waiting between attempts\<close>

text \<open>Durations are nanoseconds in an \<open>int64\<close>.\<close>

definition maxAttempts :: nat where "maxAttempts = 3"
definition baseBackoff :: int where "baseBackoff = 200 * 1000000"
definition maxBackoff :: int where "maxBackoff = 5 * 1000000000"

definition retryAfter_of :: "http_header \<Rightarrow> int" where
  "retryAfter_of h =
     (let v = header_get h ''Retry-After''
      in if v = [] then 0
         else case atoi v of
             Inl e \<Rightarrow> 0
           | Inr secs \<Rightarrow> if secs < 0 then 0 else wrap64 (secs * 1000000000))"

text \<open>\<open>jitter n\<close> is what \<open>rand.Int63n(n)\<close> returns.\<close>

definition backoffFor :: "(int \<Rightarrow> int) \<Rightarrow> nat \<Rightarrow> err option \<Rightarrow> int" where
  "backoffFor jitter attempt lastErr =
     (let d = min (wrap64 (baseBackoff * wrap64 (2 ^ (attempt - 2)))) maxBackoff;
          exponential = d + jitter (d div 2 + 1)
      in case Option.bind lastErr errors_as_api of
           None \<Rightarrow> exponential
         | Some apiErr \<Rightarrow>
             if retryAfter apiErr > 0 then min (retryAfter apiErr) maxBackoff else exponential)"

section \<open>Requests\<close>

record http_request =
  rq_Method :: string
  rq_URL :: string
  rq_Header :: http_header
  rq_Body :: "bytes option"

record http_response =
  rs_StatusCode :: int
  rs_Header :: http_header
  rs_Body :: "err + bytes"

record http_env =
  he_NewRequest :: "string \<Rightarrow> string \<Rightarrow> err option"
  he_Do :: "nat \<Rightarrow> http_request \<Rightarrow> err + http_response"
  he_jitter :: "nat \<Rightarrow> int \<Rightarrow> int"
  he_sleep :: "nat \<Rightarrow> int \<Rightarrow> err option"
  he_ctx_done :: "nat \<Rightarrow> bool"

datatype http_event = Sent http_request | Slept int

text \<open>The bodies the endpoint methods pass, a \<open>[]byte\<close> as it is and a DTO to be encoded.\<close>

datatype request_body =
    RawBody bytes
  | UpdateBody UpdateEmailRequestDto
  | LookupBody LookupRecipientKeysRequestDto
  | SendBody SendEmailRequestDto
  | ReplyBody ReplyEmailRequestDto
  | DraftBody DraftEmailRequestDto

record request =
  re_svc :: service
  re_method :: string
  re_path :: string
  re_query :: "(string \<times> string) list"
  re_token :: string
  re_body :: "request_body option"
  re_contentType :: string

text \<open>A request with the fields the composite literals leave out.\<close>

definition plain_request :: "service \<Rightarrow> string \<Rightarrow> string \<Rightarrow> string \<Rightarrow> request" where
  "plain_request svc m path token =
     \<lparr>re_svc = svc, re_method = m, re_path = path, re_query = [], re_token = token,
      re_body = None, re_contentType = []\<rparr>"

definition attempt :: "http_env \<Rightarrow> nat \<Rightarrow> request \<Rightarrow> string \<Rightarrow> bytes option \<Rightarrow>
    (err + bytes) \<times> int \<times> http_event list" where
  "attempt env i req endpoint payload =
     (case he_NewRequest env (re_method req) endpoint of
       Some e \<Rightarrow> (Inl (ErrWrap ''api: build request'' e), 0, [])
     | None \<Rightarrow>
         let httpReq = \<lparr>rq_Method = re_method req, rq_URL = endpoint,
               rq_Header = injectHeaders (headers (re_svc req)) (re_token req) payload (re_contentType req),
               rq_Body = payload\<rparr>
         in case he_Do env i httpReq of
              Inl e \<Rightarrow> (Inl (ErrWrap ''api: request failed'' e), 0, [Sent httpReq])
            | Inr resp \<Rightarrow>
                (case rs_Body resp of
                  Inl e \<Rightarrow> (Inl (ErrWrap ''api: read body'' e), rs_StatusCode resp, [Sent httpReq])
                | Inr body \<Rightarrow>
                    if 300 \<le> rs_StatusCode resp
                    then (Inl (ErrApi \<lparr>StatusCode = rs_StatusCode resp, Method = re_method req,
                                 URL = endpoint, Body = truncate_body (bytes_str body) maxBodyInError,
                                 Err = sentinelFor (rs_StatusCode resp),
                                 retryAfter = retryAfter_of (rs_Header resp)\<rparr>),
                          rs_StatusCode resp, [Sent httpReq])
                    else (Inr body, rs_StatusCode resp, [Sent httpReq])))"

text \<open>The loop of \<open>doRaw\<close> from attempt \<open>i\<close> on, with the error of the attempt before it.\<close>

function attempts_from :: "http_env \<Rightarrow> request \<Rightarrow> string \<Rightarrow> bytes option \<Rightarrow> nat \<Rightarrow> err option \<Rightarrow>
    (err + bytes) \<times> http_event list" where
  "attempts_from env req endpoint payload i lastErr =
     (if maxAttempts < i then (case lastErr of Some e \<Rightarrow> (Inl e, []) | None \<Rightarrow> (Inr [], []))
      else
        let d = backoffFor (he_jitter env i) i lastErr;
            waited = (if 1 < i then [Slept d] else [])
        in case (if 1 < i then he_sleep env i d else None) of
             Some e \<Rightarrow> (Inl e, waited)
           | None \<Rightarrow>
               (case attempt env i req endpoint payload of
                 (Inr body, status, evs) \<Rightarrow> (Inr body, waited @ evs)
               | (Inl e, status, evs) \<Rightarrow>
                   let retryable = (isIdempotent (re_method req) \<and> (status = 0 \<or> isRetryableStatus status))
                   in if \<not> retryable \<or> i = maxAttempts \<or> he_ctx_done env i
                      then (Inl e, waited @ evs)
                      else
                        let (r, later) = attempts_from env req endpoint payload (Suc i) (Some e)
                        in (r, waited @ evs @ later)))"
  by pat_completeness auto
termination
  by (relation "measure (\<lambda>(env, req, endpoint, payload, i, lastErr). Suc maxAttempts - i)") auto

declare attempts_from.simps [simp del]

section \<open>URLs\<close>

definition hex_digit :: "nat \<Rightarrow> char" where
  "hex_digit n = ''0123456789ABCDEF'' ! n"

definition percent :: "char \<Rightarrow> string" where
  "percent c = [CHR ''%'', hex_digit (of_char c div 16), hex_digit (of_char c mod 16)]"

definition unreserved :: "char \<Rightarrow> bool" where
  "unreserved c \<longleftrightarrow>
     (let n = (of_char c :: nat) in
       (65 \<le> n \<and> n \<le> 90) \<or> (97 \<le> n \<and> n \<le> 122) \<or> (48 \<le> n \<and> n \<le> 57)) \<or>
     c \<in> set ''-_.~''"

text \<open>\<open>url.PathEscape\<close> and \<open>url.QueryEscape\<close>.\<close>

definition path_escape :: "string \<Rightarrow> string" where
  "path_escape s =
     concat (map (\<lambda>c. if unreserved c \<or> c \<in> set ''$&+=:@'' then [c] else percent c) s)"

definition query_escape :: "string \<Rightarrow> string" where
  "query_escape s =
     concat (map (\<lambda>c. if unreserved c then [c] else if c = CHR '' '' then ''+'' else percent c) s)"

definition escapeID :: "string \<Rightarrow> string" where
  "escapeID ident = path_escape ident"

text \<open>\<open>url.Values.Encode\<close> of single-valued keys, given in the sorted order it writes them in.\<close>

definition encode_values :: "(string \<times> string) list \<Rightarrow> string" where
  "encode_values q = join (map (\<lambda>(k, v). query_escape k @ ''='' @ query_escape v) q) ''&''"

definition query :: "ListEmailsOptions \<Rightarrow> (string \<times> string) list" where
  "query q =
     (if lo_AnchorID q \<noteq> [] then [(''anchorId'', lo_AnchorID q)] else []) @
     (if lo_Limit q > 0 then [(''limit'', itoa (lo_Limit q))] else []) @
     (if lo_Mailbox q \<noteq> [] then [(''mailbox'', lo_Mailbox q)] else []) @
     (if lo_Position q > 0 then [(''position'', itoa (lo_Position q))] else []) @
     (case lo_Unread q of None \<Rightarrow> [] | Some b \<Rightarrow> [(''unread'', if b then ''true'' else ''false'')])"

section \<open>Performing a request\<close>

definition encode_payload :: "(request_body \<Rightarrow> err + bytes) \<Rightarrow> request_body option \<Rightarrow> err + bytes option" where
  "encode_payload json_marshal body =
     (case body of
       None \<Rightarrow> Inr None
     | Some (RawBody raw) \<Rightarrow> Inr (Some raw)
     | Some b \<Rightarrow> bind_err (wrap_err ''api: encode request'' (json_marshal b)) (\<lambda>payload. Inr (Some payload)))"

definition doRaw :: "(request_body \<Rightarrow> err + bytes) \<Rightarrow> http_env \<Rightarrow> request \<Rightarrow>
    (err + bytes) \<times> http_event list" where
  "doRaw json_marshal env req =
     (case encode_payload json_marshal (re_body req) of
       Inl e \<Rightarrow> (Inl e, [])
     | Inr payload \<Rightarrow>
         let endpoint = sv_baseURL (re_svc req) @ re_path req;
             endpoint = (if re_query req \<noteq> [] then endpoint @ ''?'' @ encode_values (re_query req) else endpoint)
         in attempts_from env req endpoint payload 1 None)"

text \<open>
  \<open>do\<close> with the zero value of \<open>out\<close> and its decoder; with a nil \<open>out\<close> (\<open>do_nil\<close>) the response body
  is not looked at.
\<close>

definition do_json :: "(request_body \<Rightarrow> err + bytes) \<Rightarrow> 'a \<Rightarrow> (bytes \<Rightarrow> err + 'a) \<Rightarrow> http_env \<Rightarrow> request \<Rightarrow>
    (err + 'a) \<times> http_event list" where
  "do_json json_marshal zero json_unmarshal env req =
     (let (raw, evs) = doRaw json_marshal env req
      in (bind_err raw (\<lambda>raw.
            if length raw = 0 then Inr zero
            else wrap_err ''api: decode response'' (json_unmarshal raw)), evs))"

definition do_nil :: "(request_body \<Rightarrow> err + bytes) \<Rightarrow> http_env \<Rightarrow> request \<Rightarrow> (err + unit) \<times> http_event list" where
  "do_nil json_marshal env req =
     (let (raw, evs) = doRaw json_marshal env req in (bind_err raw (\<lambda>_. Inr ()), evs))"

section \<open>The endpoints\<close>

text \<open>The encoder of the request bodies and the decoders of the response types.\<close>

record codec =
  cd_marshal :: "request_body \<Rightarrow> err + bytes"
  cd_list :: "bytes \<Rightarrow> err + EmailListResponseDto"
  cd_mailboxes :: "bytes \<Rightarrow> err + MailboxResponseDto list"
  cd_thread :: "bytes \<Rightarrow> err + EmailResponseDto list"
  cd_keys :: "bytes \<Rightarrow> err + LookupRecipientKeysResponseDto"
  cd_created :: "bytes \<Rightarrow> err + EmailCreatedResponseDto"
  cd_email :: "bytes \<Rightarrow> err + EmailResponseDto"
  cd_upload :: "bytes \<Rightarrow> err + UploadAttachmentResponseDto"

definition emailPath :: string where "emailPath = ''/email''"
definition emailMailboxesPath :: string where "emailMailboxesPath = emailPath @ ''/mailboxes''"
definition emailThreadsPath :: string where "emailThreadsPath = emailPath @ ''/threads/''"
definition emailSendPath :: string where "emailSendPath = emailPath @ ''/send''"
definition emailKeysLookupPath :: string where "emailKeysLookupPath = emailPath @ ''/keys/lookup''"
definition emailDraftsPath :: string where "emailDraftsPath = emailPath @ ''/drafts''"
definition attachmentUploadPath :: string where "attachmentUploadPath = emailPath @ ''/attachment''"

definition api_GetUserFolder :: "codec \<Rightarrow> service \<Rightarrow> http_env \<Rightarrow> string \<Rightarrow> ListEmailsOptions \<Rightarrow>
    (err + EmailListResponseDto) \<times> http_event list" where
  "api_GetUserFolder C svc env token opts =
     do_json (cd_marshal C) \<lparr>li_Emails = [], li_HasMoreMails = False, li_NextAnchor = None, li_Total = 0\<rparr>
       (cd_list C) env ((plain_request svc ''GET'' emailPath token)\<lparr>re_query := query opts\<rparr>)"

definition api_GetMailboxes :: "codec \<Rightarrow> service \<Rightarrow> http_env \<Rightarrow> string \<Rightarrow>
    (err + MailboxResponseDto list) \<times> http_event list" where
  "api_GetMailboxes C svc env token =
     do_json (cd_marshal C) [] (cd_mailboxes C) env (plain_request svc ''GET'' emailMailboxesPath token)"

definition api_UpdateEmail :: "codec \<Rightarrow> service \<Rightarrow> http_env \<Rightarrow> string \<Rightarrow> string \<Rightarrow> UpdateEmailRequestDto \<Rightarrow>
    (err + unit) \<times> http_event list" where
  "api_UpdateEmail C svc env token emailID update =
     do_nil (cd_marshal C) env
       ((plain_request svc ''PATCH'' (emailPath @ ''/'' @ escapeID emailID) token)
         \<lparr>re_body := Some (UpdateBody update)\<rparr>)"

definition api_DeleteEmail :: "codec \<Rightarrow> service \<Rightarrow> http_env \<Rightarrow> string \<Rightarrow> string \<Rightarrow>
    (err + unit) \<times> http_event list" where
  "api_DeleteEmail C svc env token emailID =
     do_nil (cd_marshal C) env (plain_request svc ''DELETE'' (emailPath @ ''/'' @ escapeID emailID) token)"

definition api_GetThread :: "codec \<Rightarrow> service \<Rightarrow> http_env \<Rightarrow> string \<Rightarrow> string \<Rightarrow>
    (err + EmailResponseDto list) \<times> http_event list" where
  "api_GetThread C svc env token threadID =
     do_json (cd_marshal C) [] (cd_thread C) env
       (plain_request svc ''GET'' (emailThreadsPath @ escapeID threadID) token)"

definition api_LookupRecipientKeys :: "codec \<Rightarrow> service \<Rightarrow> http_env \<Rightarrow> string \<Rightarrow> string list \<Rightarrow>
    (err + RecipientKeyDto list) \<times> http_event list" where
  "api_LookupRecipientKeys C svc env token addresses =
     (let (res, evs) = do_json (cd_marshal C) \<lparr>lk_Recipients = []\<rparr> (cd_keys C) env
            ((plain_request svc ''POST'' emailKeysLookupPath token)
              \<lparr>re_body := Some (LookupBody \<lparr>lr_Addresses = addresses\<rparr>)\<rparr>)
      in (bind_err res (\<lambda>res. Inr (lk_Recipients res)), evs))"

definition api_SendEmail :: "codec \<Rightarrow> service \<Rightarrow> http_env \<Rightarrow> string \<Rightarrow> SendEmailRequestDto \<Rightarrow>
    (err + EmailCreatedResponseDto) \<times> http_event list" where
  "api_SendEmail C svc env token email =
     do_json (cd_marshal C) \<lparr>ec_Id = []\<rparr> (cd_created C) env
       ((plain_request svc ''POST'' emailSendPath token)\<lparr>re_body := Some (SendBody email)\<rparr>)"

definition api_ReplyEmail :: "codec \<Rightarrow> service \<Rightarrow> http_env \<Rightarrow> string \<Rightarrow> string \<Rightarrow> ReplyEmailRequestDto \<Rightarrow>
    (err + EmailCreatedResponseDto) \<times> http_event list" where
  "api_ReplyEmail C svc env token emailID reply =
     do_json (cd_marshal C) \<lparr>ec_Id = []\<rparr> (cd_created C) env
       ((plain_request svc ''POST'' (emailPath @ ''/'' @ escapeID emailID @ ''/reply'') token)
         \<lparr>re_body := Some (ReplyBody reply)\<rparr>)"

definition api_SaveDraft :: "codec \<Rightarrow> service \<Rightarrow> http_env \<Rightarrow> string \<Rightarrow> DraftEmailRequestDto \<Rightarrow>
    (err + EmailResponseDto) \<times> http_event list" where
  "api_SaveDraft C svc env token draft =
     do_json (cd_marshal C) zero_email (cd_email C) env
       ((plain_request svc ''POST'' emailDraftsPath token)\<lparr>re_body := Some (DraftBody draft)\<rparr>)"

definition api_DiscardDraft :: "codec \<Rightarrow> service \<Rightarrow> http_env \<Rightarrow> string \<Rightarrow> string \<Rightarrow>
    (err + unit) \<times> http_event list" where
  "api_DiscardDraft C svc env token draftID =
     do_nil (cd_marshal C) env (plain_request svc ''DELETE'' (emailDraftsPath @ ''/'' @ escapeID draftID) token)"

definition api_DownloadAttachment :: "codec \<Rightarrow> service \<Rightarrow> http_env \<Rightarrow> string \<Rightarrow> string \<Rightarrow> string \<Rightarrow>
    (err + bytes) \<times> http_event list" where
  "api_DownloadAttachment C svc env token emailID blobID =
     doRaw (cd_marshal C) env
       (plain_request svc ''GET''
         (emailPath @ ''/'' @ escapeID emailID @ ''/attachment/'' @ escapeID blobID) token)"

section \<open>Uploading an attachment\<close>

definition MaxAttachmentBytes :: nat where
  "MaxAttachmentBytes = 25 * 1024 * 1024"

definition attachmentField :: string where
  "attachmentField = ''attachments''"

definition escapeQuotes :: "string \<Rightarrow> string" where
  "escapeQuotes v =
     concat (map (\<lambda>c. if c = CHR 0x5C \<or> c = CHR 0x22 then [CHR 0x5C, c] else [c]) v)"

text \<open>
  \<open>fmt\<close>'s \<open>%q\<close>, which is \<open>strconv.Quote\<close>. How a run of non-ASCII characters is written depends on
  the Unicode tables (printable characters stand for themselves) and is a parameter.
\<close>

definition lower_hex :: "nat \<Rightarrow> char" where
  "lower_hex n = ''0123456789abcdef'' ! n"

definition quote_ascii :: "char \<Rightarrow> string" where
  "quote_ascii c =
     (let n = (of_char c :: nat) in
      if c = CHR 0x22 \<or> c = CHR 0x5C then [CHR 0x5C, c]
      else if 32 \<le> n \<and> n < 127 then [c]
      else if n = 7 then [CHR 0x5C, CHR ''a''] else if n = 8 then [CHR 0x5C, CHR ''b'']
      else if n = 12 then [CHR 0x5C, CHR ''f''] else if n = 10 then [CHR 0x5C, CHR ''n'']
      else if n = 13 then [CHR 0x5C, CHR ''r''] else if n = 9 then [CHR 0x5C, CHR ''t'']
      else if n = 11 then [CHR 0x5C, CHR ''v'']
      else [CHR 0x5C, CHR ''x'', lower_hex (n div 16), lower_hex (n mod 16)])"

function quote_body :: "(string \<Rightarrow> string) \<Rightarrow> string \<Rightarrow> string" where
  "quote_body Q [] = []"
| "quote_body Q (c # s) =
     (if ascii_char c then quote_ascii c @ quote_body Q s
      else Q (takeWhile (\<lambda>x. \<not> ascii_char x) (c # s)) @
           quote_body Q (dropWhile (\<lambda>x. \<not> ascii_char x) (c # s)))"
  by pat_completeness auto
termination
  by (relation "measure (\<lambda>(Q, s). length s)") (auto simp: le_imp_less_Suc length_dropWhile_le)

definition go_quote :: "(string \<Rightarrow> string) \<Rightarrow> string \<Rightarrow> string" where
  "go_quote Q s = [CHR 0x22] @ quote_body Q s @ [CHR 0x22]"

definition crlf :: string where
  "crlf = [CHR 0x0D, CHR 0x0A]"

text \<open>\<open>boundary\<close> is the random boundary \<open>multipart.NewWriter\<close> draws.\<close>

definition attachmentForm :: "(string \<Rightarrow> string) \<Rightarrow> string \<Rightarrow> string \<Rightarrow> string \<Rightarrow> bytes \<Rightarrow> bytes \<times> string" where
  "attachmentForm Q boundary name contentType content =
     (let contentType = (if contentType = [] then ''application/octet-stream'' else contentType);
          disposition = ''form-data; name='' @ go_quote Q attachmentField @ ''; filename='' @
            go_quote Q (escapeQuotes name)
      in (str_bytes (''--'' @ boundary @ crlf @
            ''Content-Disposition: '' @ disposition @ crlf @
            ''Content-Type: '' @ contentType @ crlf @ crlf) @
          content @
          str_bytes (crlf @ ''--'' @ boundary @ ''--'' @ crlf),
          ''multipart/form-data; boundary='' @ boundary))"

definition api_UploadAttachment :: "codec \<Rightarrow> (string \<Rightarrow> string) \<Rightarrow> string \<Rightarrow> service \<Rightarrow> http_env \<Rightarrow>
    string \<Rightarrow> string \<Rightarrow> string \<Rightarrow> bytes \<Rightarrow> (err + UploadAttachmentResponseDto) \<times> http_event list" where
  "api_UploadAttachment C Q boundary svc env token name contentType content =
     (if MaxAttachmentBytes < length content
      then (Inl (ErrNew ''api: attachment is over the limit''), [])
      else
        let (body, formContentType) = attachmentForm Q boundary name contentType content
        in do_json (cd_marshal C) \<lparr>ua_BlobId = [], ua_Name = [], ua_Size = 0, ua_Type = []\<rparr>
             (cd_upload C) env
             ((plain_request svc ''POST'' attachmentUploadPath token)
               \<lparr>re_body := Some (RawBody body), re_contentType := formContentType\<rparr>))"

end
