(* ===== verification/Stateful.thy ===== *)
theory Stateful
  imports Prelude
begin

text \<open>
  Fallible operations on a state. An operation of an object the code mutates (a client, a store, a
  connector) is a function from the state to a result and the new state; \<open>bind_st\<close> is the early
  return on an error, which keeps the effects made so far.
\<close>

type_synonym ('s, 'a) op = "'s \<Rightarrow> (err + 'a) \<times> 's"

fun bind_st :: "(err + 'a) \<times> 's \<Rightarrow> ('a \<Rightarrow> 's \<Rightarrow> (err + 'b) \<times> 's) \<Rightarrow> (err + 'b) \<times> 's" where
  "bind_st (Inl e, s) f = (Inl e, s)"
| "bind_st (Inr x, s) f = f x s"

fun wrap_st :: "string \<Rightarrow> (err + 'a) \<times> 's \<Rightarrow> (err + 'a) \<times> 's" where
  "wrap_st m (Inl e, s) = (Inl (ErrWrap m e), s)"
| "wrap_st m (Inr x, s) = (Inr x, s)"

lemma bind_st_Inr_iff [simp]:
  "bind_st p f = (Inr y, s') \<longleftrightarrow> (\<exists>x s. p = (Inr x, s) \<and> f x s = (Inr y, s'))"
  by (cases "(p, f)" rule: bind_st.cases) auto

lemma wrap_st_Inr_iff [simp]: "wrap_st m p = (Inr x, s) \<longleftrightarrow> p = (Inr x, s)"
  by (cases "(m, p)" rule: wrap_st.cases) auto

lemma snd_wrap_st [simp]: "snd (wrap_st m p) = snd p"
  by (cases "(m, p)" rule: wrap_st.cases) auto

lemma fst_wrap_st [simp]: "fst (wrap_st m p) = wrap_err m (fst p)"
  by (cases "(m, p)" rule: wrap_st.cases) auto

lemma snd_bind_st: "snd (bind_st p f) = (case fst p of Inl e \<Rightarrow> snd p | Inr x \<Rightarrow> snd (f x (snd p)))"
  by (cases "(p, f)" rule: bind_st.cases) auto

lemma fst_bind_st: "fst (bind_st p f) = (case fst p of Inl e \<Rightarrow> Inl e | Inr x \<Rightarrow> fst (f x (snd p)))"
  by (cases "(p, f)" rule: bind_st.cases) auto

text \<open>An invariant of every step is an invariant of the composition.\<close>

lemma bind_st_invariant:
  assumes "P (snd p)" and "\<And>x s. p = (Inr x, s) \<Longrightarrow> P s \<Longrightarrow> P (snd (f x s))"
  shows "P (snd (bind_st p f))"
  using assms by (cases "(p, f)" rule: bind_st.cases) auto

end
