(* ===== verification/Client.thy ===== *)
theory Client
  imports Api Stateful
begin

text \<open>
  The interface \<open>commands.Client\<close> (\<open>internal/mail/commands/commands.go\<close>): the part of the API
  client the commands use, as a record of operations on the client's state. The real client is
  \<open>api_client\<close>, whose state is the list of transports the next calls meet and the trace of what was
  sent; \<open>recording\<close> wraps any client and logs the calls made to it, which is how the properties
  speak of what a command asks the service to do.
\<close>

record 's client =
  cl_GetUserFolder :: "string \<Rightarrow> ListEmailsOptions \<Rightarrow> ('s, EmailListResponseDto) op"
  cl_GetMailboxes :: "string \<Rightarrow> ('s, MailboxResponseDto list) op"
  cl_GetThread :: "string \<Rightarrow> string \<Rightarrow> ('s, EmailResponseDto list) op"
  cl_UpdateEmail :: "string \<Rightarrow> string \<Rightarrow> UpdateEmailRequestDto \<Rightarrow> ('s, unit) op"
  cl_DeleteEmail :: "string \<Rightarrow> string \<Rightarrow> ('s, unit) op"
  cl_LookupRecipientKeys :: "string \<Rightarrow> string list \<Rightarrow> ('s, RecipientKeyDto list) op"
  cl_SendEmail :: "string \<Rightarrow> SendEmailRequestDto \<Rightarrow> ('s, EmailCreatedResponseDto) op"
  cl_ReplyEmail :: "string \<Rightarrow> string \<Rightarrow> ReplyEmailRequestDto \<Rightarrow> ('s, EmailCreatedResponseDto) op"
  cl_SaveDraft :: "string \<Rightarrow> DraftEmailRequestDto \<Rightarrow> ('s, EmailResponseDto) op"
  cl_DiscardDraft :: "string \<Rightarrow> string \<Rightarrow> ('s, unit) op"
  cl_DownloadAttachment :: "string \<Rightarrow> string \<Rightarrow> string \<Rightarrow> ('s, bytes) op"
  cl_UploadAttachment :: "string \<Rightarrow> string \<Rightarrow> string \<Rightarrow> bytes \<Rightarrow> ('s, UploadAttachmentResponseDto) op"

section \<open>The API client\<close>

text \<open>
  The state: the transport each coming call meets, and the trace so far. A call takes one transport
  and appends what it sent.
\<close>

record api_state =
  as_envs :: "http_env list"
  as_trace :: "http_event list"

definition no_network :: http_env where
  "no_network = \<lparr>he_NewRequest = (\<lambda>m u. None), he_Do = (\<lambda>i q. Inl (ErrExt ''network down'')),
     he_jitter = (\<lambda>i n. 0), he_sleep = (\<lambda>i d. None), he_ctx_done = (\<lambda>i. True)\<rparr>"

definition api_call :: "(http_env \<Rightarrow> (err + 'a) \<times> http_event list) \<Rightarrow> (api_state, 'a) op" where
  "api_call f s =
     (let (env, rest) = (case as_envs s of [] \<Rightarrow> (no_network, []) | env # rest \<Rightarrow> (env, rest));
          (r, evs) = f env
      in (r, \<lparr>as_envs = rest, as_trace = as_trace s @ evs\<rparr>))"

definition api_client :: "codec \<Rightarrow> (string \<Rightarrow> string) \<Rightarrow> string \<Rightarrow> service \<Rightarrow> api_state client" where
  "api_client C Q boundary svc =
     \<lparr>cl_GetUserFolder = (\<lambda>token opts. api_call (\<lambda>env. api_GetUserFolder C svc env token opts)),
      cl_GetMailboxes = (\<lambda>token. api_call (\<lambda>env. api_GetMailboxes C svc env token)),
      cl_GetThread = (\<lambda>token t. api_call (\<lambda>env. api_GetThread C svc env token t)),
      cl_UpdateEmail = (\<lambda>token i u. api_call (\<lambda>env. api_UpdateEmail C svc env token i u)),
      cl_DeleteEmail = (\<lambda>token i. api_call (\<lambda>env. api_DeleteEmail C svc env token i)),
      cl_LookupRecipientKeys = (\<lambda>token a. api_call (\<lambda>env. api_LookupRecipientKeys C svc env token a)),
      cl_SendEmail = (\<lambda>token e. api_call (\<lambda>env. api_SendEmail C svc env token e)),
      cl_ReplyEmail = (\<lambda>token i e. api_call (\<lambda>env. api_ReplyEmail C svc env token i e)),
      cl_SaveDraft = (\<lambda>token d. api_call (\<lambda>env. api_SaveDraft C svc env token d)),
      cl_DiscardDraft = (\<lambda>token d. api_call (\<lambda>env. api_DiscardDraft C svc env token d)),
      cl_DownloadAttachment = (\<lambda>token i b. api_call (\<lambda>env. api_DownloadAttachment C svc env token i b)),
      cl_UploadAttachment = (\<lambda>token n t c. api_call (\<lambda>env. api_UploadAttachment C Q boundary svc env token n t c))\<rparr>"

section \<open>Logging the calls\<close>

datatype call =
    CallList string ListEmailsOptions
  | CallMailboxes string
  | CallThread string string
  | CallUpdate string string UpdateEmailRequestDto
  | CallDelete string string
  | CallLookup string "string list"
  | CallSend string SendEmailRequestDto
  | CallReply string string ReplyEmailRequestDto
  | CallSaveDraft string DraftEmailRequestDto
  | CallDiscard string string
  | CallDownload string string string
  | CallUpload string string string bytes

definition logged :: "call \<Rightarrow> ('s, 'a) op \<Rightarrow> ('s \<times> call list, 'a) op" where
  "logged c f sl = (case f (fst sl) of (r, s') \<Rightarrow> (r, (s', snd sl @ [c])))"

definition recording :: "'s client \<Rightarrow> ('s \<times> call list) client" where
  "recording C =
     \<lparr>cl_GetUserFolder = (\<lambda>t x. logged (CallList t x) (cl_GetUserFolder C t x)),
      cl_GetMailboxes = (\<lambda>t. logged (CallMailboxes t) (cl_GetMailboxes C t)),
      cl_GetThread = (\<lambda>t x. logged (CallThread t x) (cl_GetThread C t x)),
      cl_UpdateEmail = (\<lambda>t x u. logged (CallUpdate t x u) (cl_UpdateEmail C t x u)),
      cl_DeleteEmail = (\<lambda>t x. logged (CallDelete t x) (cl_DeleteEmail C t x)),
      cl_LookupRecipientKeys = (\<lambda>t x. logged (CallLookup t x) (cl_LookupRecipientKeys C t x)),
      cl_SendEmail = (\<lambda>t x. logged (CallSend t x) (cl_SendEmail C t x)),
      cl_ReplyEmail = (\<lambda>t i x. logged (CallReply t i x) (cl_ReplyEmail C t i x)),
      cl_SaveDraft = (\<lambda>t x. logged (CallSaveDraft t x) (cl_SaveDraft C t x)),
      cl_DiscardDraft = (\<lambda>t x. logged (CallDiscard t x) (cl_DiscardDraft C t x)),
      cl_DownloadAttachment = (\<lambda>t i b. logged (CallDownload t i b) (cl_DownloadAttachment C t i b)),
      cl_UploadAttachment = (\<lambda>t n y x. logged (CallUpload t n y x) (cl_UploadAttachment C t n y x))\<rparr>"

lemma recording_simps [simp]:
  "cl_GetUserFolder (recording C) t opts = logged (CallList t opts) (cl_GetUserFolder C t opts)"
  "cl_GetMailboxes (recording C) t = logged (CallMailboxes t) (cl_GetMailboxes C t)"
  "cl_GetThread (recording C) t x = logged (CallThread t x) (cl_GetThread C t x)"
  "cl_UpdateEmail (recording C) t x u = logged (CallUpdate t x u) (cl_UpdateEmail C t x u)"
  "cl_DeleteEmail (recording C) t x = logged (CallDelete t x) (cl_DeleteEmail C t x)"
  "cl_LookupRecipientKeys (recording C) t a = logged (CallLookup t a) (cl_LookupRecipientKeys C t a)"
  "cl_SendEmail (recording C) t e = logged (CallSend t e) (cl_SendEmail C t e)"
  "cl_ReplyEmail (recording C) t i r = logged (CallReply t i r) (cl_ReplyEmail C t i r)"
  "cl_SaveDraft (recording C) t d = logged (CallSaveDraft t d) (cl_SaveDraft C t d)"
  "cl_DiscardDraft (recording C) t x = logged (CallDiscard t x) (cl_DiscardDraft C t x)"
  "cl_DownloadAttachment (recording C) t i b = logged (CallDownload t i b) (cl_DownloadAttachment C t i b)"
  "cl_UploadAttachment (recording C) t n y bs = logged (CallUpload t n y bs) (cl_UploadAttachment C t n y bs)"
  by (simp_all add: recording_def)

lemma fst_logged [simp]: "fst (logged c f sl) = fst (f (fst sl))"
  by (simp add: logged_def split: prod.split)

lemma snd_logged [simp]: "snd (logged c f sl) = (snd (f (fst sl)), snd sl @ [c])"
  by (simp add: logged_def split: prod.split)

lemma logged_eq_iff:
  "logged c f sl = (r, sl') \<longleftrightarrow> (\<exists>s'. f (fst sl) = (r, s') \<and> sl' = (s', snd sl @ [c]))"
  by (auto simp: logged_def split: prod.splits)

end
