(* ===== verification/Commands.thy ===== *)
theory Commands
  imports Client Envelope
begin

text \<open>
  \<open>internal/mail/commands\<close>: one function per mail operation, over any client. The primitives, the
  Unicode tables and the JSON decoder of the envelope are gathered in \<open>deps\<close>. A function that
  returns a usable value together with an error (\<open>decryptBody\<close>, \<open>decryptPreview\<close>) is modelled by a
  pair. A callback that only reports errors becomes the list of the errors reported.
\<close>

record deps =
  dp_prims :: prims
  dp_unicode :: unicode
  dp_envelope :: "bytes \<Rightarrow> err + Envelope"

record Account =
  ac_Address :: string
  ac_PrivateKey :: bytes
  ac_PublicKey :: bytes

definition no_account :: Account where
  "no_account = \<lparr>ac_Address = [], ac_PrivateKey = [], ac_PublicKey = []\<rparr>"

section \<open>Decrypting what was read\<close>

definition ready :: "Account \<Rightarrow> bool" where
  "ready a \<longleftrightarrow> ac_Address a \<noteq> [] \<and> length (ac_PrivateKey a) > 0"

definition deref :: "string option \<Rightarrow> string" where
  "deref v = (case v of None \<Rightarrow> [] | Some s \<Rightarrow> s)"

definition decryptBody :: "deps \<Rightarrow> EmailResponseDto \<Rightarrow> Account \<Rightarrow> EmailResponseDto \<times> err option" where
  "decryptBody D email account =
     (let text = deref (em_TextBody email)
      in if \<not> IsEncryptedBody text then (email, None)
         else if \<not> ready account then (email, Some (ErrNew ''decrypt body: no account keys available''))
         else case ParseEnvelope (dp_envelope D) text of
             Inl e \<Rightarrow> (email, Some (ErrWrap ''decrypt body'' e))
           | Inr envelope \<Rightarrow>
               (case DecryptEnvelope (dp_prims D) (dp_unicode D) envelope (ac_PrivateKey account) (ac_Address account) of
                 Inl e \<Rightarrow> (email, Some (ErrWrap ''decrypt body'' e))
               | Inr decrypted \<Rightarrow>
                   let email = email\<lparr>em_TextBody := None, em_HtmlBody := Some (pl_Text decrypted)\<rparr>;
                       email = (if pl_Preview decrypted \<noteq> []
                                then email\<lparr>em_Preview := pl_Preview decrypted,
                                           em_TextBody := Some (pl_Preview decrypted)\<rparr>
                                else email)
                   in (email, None)))"

definition wrappedKeys :: "EncryptedWrappedKeyDto list \<Rightarrow> WrappedKey list" where
  "wrappedKeys keys =
     map (\<lambda>key. \<lparr>wk_EncryptedForEmail = ewk_EncryptedForEmail key, wk_EncryptedKey = ewk_EncryptedKey key,
                 wk_HybridCiphertext = ewk_HybridCiphertext key\<rparr>) keys"

definition decryptPreview :: "deps \<Rightarrow> EmailSummaryResponseDto \<Rightarrow> Account \<Rightarrow>
    EmailSummaryResponseDto \<times> err option" where
  "decryptPreview D summary account =
     (case su_Encryption summary of
       None \<Rightarrow> (summary, None)
     | Some enc \<Rightarrow>
         if es_EncryptedPreview enc = [] then (summary, None)
         else if \<not> ready account then (summary, Some (ErrNew ''decrypt preview: no account keys available''))
         else case DecryptPreview (dp_prims D) (dp_unicode D) (wrappedKeys (es_WrappedKeys enc))
                     (es_EncryptedPreview enc) (ac_PrivateKey account) (ac_Address account) of
             Inl e \<Rightarrow> (summary, Some (ErrWrap ''decrypt preview'' e))
           | Inr preview \<Rightarrow> (summary\<lparr>su_Preview := preview\<rparr>, None))"

section \<open>Reading\<close>

text \<open>On an error the returned email is still the one to serve, when there is one.\<close>

definition PickFromThread :: "deps \<Rightarrow> EmailResponseDto list \<Rightarrow> string \<Rightarrow> Account \<Rightarrow>
    EmailResponseDto \<times> err option" where
  "PickFromThread D thread emailID account =
     (case find (\<lambda>email. em_Id email = emailID) thread of
       Some email \<Rightarrow> decryptBody D email account
     | None \<Rightarrow>
         if length thread = 1 then decryptBody D (thread ! 0) account
         else (zero_email, Some (ErrWrap ''get email'' (ErrSentinel ErrEmailNotFound))))"

definition GetEmail :: "deps \<Rightarrow> 's client \<Rightarrow> string \<Rightarrow> string \<Rightarrow> Account \<Rightarrow> 's \<Rightarrow>
    (EmailResponseDto \<times> err option) \<times> 's" where
  "GetEmail D C token emailID account s =
     (case cl_GetThread C token emailID s of
       (Inl e, s) \<Rightarrow> ((zero_email, Some (ErrWrap ''get email'' e)), s)
     | (Inr thread, s) \<Rightarrow> (PickFromThread D thread emailID account, s))"

definition GetThread :: "'s client \<Rightarrow> string \<Rightarrow> string \<Rightarrow> ('s, EmailResponseDto list) op" where
  "GetThread C token emailID s = wrap_st ''get thread'' (cl_GetThread C token emailID s)"

definition ListMailboxes :: "'s client \<Rightarrow> string \<Rightarrow> ('s, MailboxResponseDto list) op" where
  "ListMailboxes C token s = wrap_st ''list mailboxes'' (cl_GetMailboxes C token s)"

definition ListEmails :: "'s client \<Rightarrow> string \<Rightarrow> ListEmailsOptions \<Rightarrow> ('s, EmailListResponseDto) op" where
  "ListEmails C token opts s = wrap_st ''list emails'' (cl_GetUserFolder C token opts s)"

text \<open>One page's summaries, with the errors their previews gave.\<close>

definition decrypt_page :: "deps \<Rightarrow> Account \<Rightarrow> EmailSummaryResponseDto list \<Rightarrow>
    EmailSummaryResponseDto list \<times> err list" where
  "decrypt_page D account emails =
     (map (\<lambda>summary. fst (decryptPreview D summary account)) emails,
      List.map_filter (\<lambda>summary. snd (decryptPreview D summary account)) emails)"

text \<open>
  The loop of \<open>ListAllEmails\<close>, with what it has gathered so far and the preview errors reported. It
  asks for page after page and need not end: the value is \<open>None\<close> when it never does.
\<close>

partial_function (option) list_all_from :: "deps \<Rightarrow> 's client \<Rightarrow> string \<Rightarrow> ListEmailsOptions \<Rightarrow> Account \<Rightarrow>
    EmailSummaryResponseDto list \<Rightarrow> err list \<Rightarrow> 's \<Rightarrow>
    ((err + EmailSummaryResponseDto list) \<times> err list \<times> 's) option" where
  "list_all_from D C token opts account gathered errs s =
     (case ListEmails C token opts s of
       (Inl e, s) \<Rightarrow> Some (Inl e, errs, s)
     | (Inr page, s) \<Rightarrow>
         (let (decrypted, es) = decrypt_page D account (li_Emails page);
              gathered = gathered @ decrypted;
              errs = errs @ es
          in if \<not> li_HasMoreMails page \<or> length (li_Emails page) = 0
             then Some (Inr gathered, errs, s)
             else list_all_from D C token
                    (opts\<lparr>lo_Position := wrap64 (lo_Position opts + int (length (li_Emails page)))\<rparr>)
                    account gathered errs s))"

definition ListAllEmails :: "deps \<Rightarrow> 's client \<Rightarrow> string \<Rightarrow> ListEmailsOptions \<Rightarrow> Account \<Rightarrow> 's \<Rightarrow>
    ((err + EmailSummaryResponseDto list) \<times> err list \<times> 's) option" where
  "ListAllEmails D C token opts account s = list_all_from D C token opts account [] [] s"

section \<open>Changing\<close>

definition no_update :: UpdateEmailRequestDto where
  "no_update = \<lparr>up_IsFlagged = None, up_IsRead = None, up_Mailbox = None\<rparr>"

fun updateEach :: "'s client \<Rightarrow> string \<Rightarrow> string list \<Rightarrow> UpdateEmailRequestDto \<Rightarrow> ('s, unit) op" where
  "updateEach C token [] update s = (Inr (), s)"
| "updateEach C token (emailID # emailIDs) update s =
     bind_st (wrap_st ''update email'' (cl_UpdateEmail C token emailID update s))
       (\<lambda>_. updateEach C token emailIDs update)"

definition updateMailbox :: "Mailbox \<Rightarrow> err + Mailbox" where
  "updateMailbox mailbox =
     (if mailbox \<in> {MailboxInbox, MailboxDrafts, MailboxSent, MailboxTrash, MailboxSpam, MailboxArchive}
      then Inr mailbox else Inl (ErrNew ''cannot move mail to this mailbox''))"

definition MarkRead :: "'s client \<Rightarrow> string \<Rightarrow> string list \<Rightarrow> bool \<Rightarrow> ('s, unit) op" where
  "MarkRead C token emailIDs read = updateEach C token emailIDs (no_update\<lparr>up_IsRead := Some read\<rparr>)"

definition MarkFlagged :: "'s client \<Rightarrow> string \<Rightarrow> string list \<Rightarrow> bool \<Rightarrow> ('s, unit) op" where
  "MarkFlagged C token emailIDs flagged = updateEach C token emailIDs (no_update\<lparr>up_IsFlagged := Some flagged\<rparr>)"

definition Move :: "'s client \<Rightarrow> string \<Rightarrow> string list \<Rightarrow> Mailbox \<Rightarrow> ('s, unit) op" where
  "Move C token emailIDs mailbox s =
     (case updateMailbox mailbox of
       Inl e \<Rightarrow> (Inl e, s)
     | Inr destination \<Rightarrow> updateEach C token emailIDs (no_update\<lparr>up_Mailbox := Some destination\<rparr>) s)"

fun Delete :: "'s client \<Rightarrow> string \<Rightarrow> string list \<Rightarrow> ('s, unit) op" where
  "Delete C token [] s = (Inr (), s)"
| "Delete C token (emailID # emailIDs) s =
     bind_st (wrap_st ''delete email'' (cl_DeleteEmail C token emailID s)) (\<lambda>_. Delete C token emailIDs)"

section \<open>Attachments of a read email\<close>

definition attachmentsSessionKey :: "deps \<Rightarrow> EmailResponseDto \<Rightarrow> Account \<Rightarrow> err + bytes" where
  "attachmentsSessionKey D email account =
     (let text = deref (em_TextBody email)
      in if \<not> IsEncryptedBody text then Inr []
         else if \<not> ready account then Inl (ErrNew ''decrypt attachments: no account keys available'')
         else
           bind_err (wrap_err ''decrypt attachments'' (ParseEnvelope (dp_envelope D) text)) (\<lambda>envelope.
           bind_err (wrap_err ''decrypt attachments''
             (DecryptEnvelope (dp_prims D) (dp_unicode D) envelope (ac_PrivateKey account) (ac_Address account))) (\<lambda>opened.
           Inr (pl_AttachmentsSessionKey opened))))"

text \<open>The loop over the attachments: the blobs by blob id, and the errors reported.\<close>

fun download_each :: "deps \<Rightarrow> 's client \<Rightarrow> string \<Rightarrow> string \<Rightarrow> bytes \<Rightarrow> EmailAttachmentDto list \<Rightarrow>
    (string \<rightharpoonup> bytes) \<Rightarrow> err list \<Rightarrow> 's \<Rightarrow> (string \<rightharpoonup> bytes) \<times> err list \<times> 's" where
  "download_each D C token emailID sessionKey [] blobs errs s = (blobs, errs, s)"
| "download_each D C token emailID sessionKey (a # as) blobs errs s =
     (case cl_DownloadAttachment C token emailID (at_BlobId a) s of
       (Inl e, s) \<Rightarrow> download_each D C token emailID sessionKey as blobs (errs @ [ErrWrap ''download attachment'' e]) s
     | (Inr content, s) \<Rightarrow>
         if length sessionKey > 0 then
           (case DecryptSymmetrically (dp_prims D) sessionKey content [] of
             Inl e \<Rightarrow> download_each D C token emailID sessionKey as blobs (errs @ [ErrWrap ''decrypt attachment'' e]) s
           | Inr plain \<Rightarrow> download_each D C token emailID sessionKey as (blobs(at_BlobId a \<mapsto> plain)) errs s)
         else download_each D C token emailID sessionKey as (blobs(at_BlobId a \<mapsto> content)) errs s)"

definition DownloadAttachments :: "deps \<Rightarrow> 's client \<Rightarrow> string \<Rightarrow> EmailResponseDto \<Rightarrow> Account \<Rightarrow> 's \<Rightarrow>
    ((err + (string \<rightharpoonup> bytes)) \<times> err list) \<times> 's" where
  "DownloadAttachments D C token email account s =
     (if length (em_Attachments email) = 0 then ((Inr Map.empty, []), s)
      else case attachmentsSessionKey D email account of
          Inl e \<Rightarrow> ((Inl e, []), s)
        | Inr sessionKey \<Rightarrow>
            (case download_each D C token (em_Id email) sessionKey (em_Attachments email) Map.empty [] s of
              (blobs, errs, s) \<Rightarrow> ((Inr blobs, errs), s)))"

section \<open>Composed messages\<close>

record OutgoingAttachment =
  oa_Name :: string
  oa_ContentType :: string
  oa_Content :: bytes

text \<open>
  \<open>To\<close> may be a nil slice, which is marshalled; \<open>Cc\<close> and \<open>Bcc\<close> are only ranged over and measured,
  where nil and empty are the same list.
\<close>

record OutgoingMessage =
  om_Subject :: string
  om_HTMLBody :: string
  om_TextBody :: string
  om_Attachments :: "OutgoingAttachment list"
  om_InReplyToEmailID :: string
  om_To :: "EmailAddressDto list option"
  om_Cc :: "EmailAddressDto list"
  om_Bcc :: "EmailAddressDto list"

definition previewPlaintextLength :: nat where
  "previewPlaintextLength = 256"

definition snippet :: "string \<Rightarrow> string" where
  "snippet text =
     (let collapsed = join (go_fields text) '' ''
      in if length collapsed > previewPlaintextLength then take previewPlaintextLength collapsed else collapsed)"

definition msg_body :: "OutgoingMessage \<Rightarrow> Email" where
  "msg_body m =
     (let text = (if om_HTMLBody m = [] then om_TextBody m else om_HTMLBody m);
          preview = (if om_TextBody m = [] then om_HTMLBody m else om_TextBody m)
      in \<lparr>pl_Text = text, pl_Preview = snippet preview, pl_AttachmentsSessionKey = []\<rparr>)"

text \<open>The loop of \<open>uniqueAddresses\<close> over the groups one after the other; \<open>seen\<close> holds the keys met.\<close>

fun unique_from :: "unicode \<Rightarrow> string set \<Rightarrow> EmailAddressDto list \<Rightarrow> string list" where
  "unique_from U seen [] = []"
| "unique_from U seen (address # addresses) =
     (let key = to_lower U (ad_Email address)
      in if key = [] \<or> key \<in> seen then unique_from U seen addresses
         else ad_Email address # unique_from U (insert key seen) addresses)"

definition uniqueAddresses :: "unicode \<Rightarrow> EmailAddressDto list list \<Rightarrow> string list" where
  "uniqueAddresses U groups = unique_from U {} (concat groups)"

definition optionalAddresses :: "EmailAddressDto list \<Rightarrow> EmailAddressDto list option" where
  "optionalAddresses addresses = (if length addresses = 0 then None else Some addresses)"

definition optionalString :: "string \<Rightarrow> string option" where
  "optionalString v = (if v = [] then None else Some v)"

definition toEncryptionBlock :: "Envelope \<Rightarrow> EncryptionBlockDto" where
  "toEncryptionBlock envelope =
     \<lparr>eb_EncryptedAttachmentsSessionKey = env_EncryptedAttachmentsSessionKey envelope,
      eb_EncryptedPreview = env_EncryptedPreview envelope,
      eb_EncryptedText = env_EncryptedText envelope,
      eb_Version = env_Version envelope,
      eb_WrappedKeys = map (\<lambda>key. \<lparr>ewk_EncryptedForEmail = wk_EncryptedForEmail key,
        ewk_EncryptedKey = wk_EncryptedKey key, ewk_HybridCiphertext = wk_HybridCiphertext key\<rparr>)
        (env_WrappedKeys envelope)\<rparr>"

section \<open>Sending\<close>

fun gather_keys :: "unicode \<Rightarrow> RecipientKeyDto list \<Rightarrow> (string \<rightharpoonup> bytes) \<Rightarrow> err + (string \<rightharpoonup> bytes)" where
  "gather_keys U [] keys = Inr keys"
| "gather_keys U (recipient # recipients) keys =
     (if rk_PublicKey recipient = None \<or> rk_PublicKey recipient = Some [] then gather_keys U recipients keys
      else bind_err (wrap_err ''send email: decode public key'' (b64_decode (the (rk_PublicKey recipient)))) (\<lambda>decoded.
           gather_keys U recipients (keys(to_lower U (rk_Address recipient) \<mapsto> decoded))))"

definition lookupKeys :: "unicode \<Rightarrow> 's client \<Rightarrow> string \<Rightarrow> string list \<Rightarrow> ('s, string \<rightharpoonup> bytes) op" where
  "lookupKeys U C token addresses s =
     bind_st (wrap_st ''send email: look up recipient keys'' (cl_LookupRecipientKeys C token addresses s))
       (\<lambda>recipients s. (gather_keys U recipients Map.empty, s))"

fun sealFor :: "unicode \<Rightarrow> string list \<Rightarrow> (string \<rightharpoonup> bytes) \<Rightarrow> bytes \<Rightarrow> err + (Recipient list \<times> bool)" where
  "sealFor U [] keys serverPublicKey = Inr ([], True)"
| "sealFor U (address # addresses) keys serverPublicKey =
     (case keys (to_lower U address) of
       Some publicKey \<Rightarrow>
         bind_err (sealFor U addresses keys serverPublicKey) (\<lambda>(recipients, allInternxt).
         Inr (\<lparr>rc_Address = address, rc_PublicKey = publicKey\<rparr> # recipients, allInternxt))
     | None \<Rightarrow>
         if length serverPublicKey = 0
         then Inl (ErrNew ''send email: no Internxt key and no server key is configured to seal it with'')
         else
           bind_err (sealFor U addresses keys serverPublicKey) (\<lambda>(recipients, allInternxt).
           Inr (\<lparr>rc_Address = address, rc_PublicKey = serverPublicKey\<rparr> # recipients, False)))"

text \<open>The IV of the attachment uploaded first is draw \<open>k\<close>, the next one's \<open>k + 1\<close>, and so on.\<close>

fun uploadAttachments :: "prims \<Rightarrow> rand \<Rightarrow> nat \<Rightarrow> 's client \<Rightarrow> string \<Rightarrow> OutgoingAttachment list \<Rightarrow> bytes \<Rightarrow>
    ('s, AttachmentRefDto list) op" where
  "uploadAttachments E R k C token [] sessionKey s = (Inr [], s)"
| "uploadAttachments E R k C token (attachment # attachments) sessionKey s =
     (case wrap_err ''send email: seal attachment'' (EncryptSymmetrically E R k sessionKey (oa_Content attachment) []) of
       Inl e \<Rightarrow> (Inl e, s)
     | Inr sealed \<Rightarrow>
         bind_st (wrap_st ''send email: upload attachment''
           (cl_UploadAttachment C token (oa_Name attachment) (oa_ContentType attachment) sealed s)) (\<lambda>uploaded s.
         bind_st (uploadAttachments E R (k + 1) C token attachments sessionKey s) (\<lambda>refs s.
         (Inr (\<lparr>ar_BlobId = ua_BlobId uploaded, ar_Name = oa_Name attachment,
                ar_Size = float32_of_nat (length sealed), ar_Type = oa_ContentType attachment\<rparr> # refs), s))))"

definition submitReply :: "'s client \<Rightarrow> string \<Rightarrow> OutgoingMessage \<Rightarrow> EncryptionBlockDto \<Rightarrow>
    AttachmentRefDto list option \<Rightarrow> DeliveryMode \<Rightarrow> ('s, string) op" where
  "submitReply C token msg block attachments deliveryMode s =
     bind_st (wrap_st ''reply to email'' (cl_ReplyEmail C token (om_InReplyToEmailID msg)
       \<lparr>re_Attachments = attachments, re_Bcc = optionalAddresses (om_Bcc msg),
        re_Cc = optionalAddresses (om_Cc msg), re_DeliveryMode = Some deliveryMode, re_DraftId = None,
        re_Encryption = Some block, re_HtmlBody = None, re_ReplyAll = None,
        re_Subject = Some (om_Subject msg), re_TextBody = None, re_To = Some (om_To msg)\<rparr> s))
       (\<lambda>created s. (Inr (ec_Id created), s))"

definition shift_rand :: "rand \<Rightarrow> nat \<Rightarrow> rand" where
  "shift_rand R k = (\<lambda>i. R (k + i))"

text \<open>
  What is sealed and attached: the body with the session key of the attachments, and their
  references, when the message has any. The draws before the envelope's are the session key and
  one IV per attachment.
\<close>

definition prepare_attachments :: "prims \<Rightarrow> rand \<Rightarrow> 's client \<Rightarrow> string \<Rightarrow> OutgoingMessage \<Rightarrow>
    ('s, Email \<times> AttachmentRefDto list option) op" where
  "prepare_attachments E R C token msg s =
     (if length (om_Attachments msg) > 0 then
        (case wrap_err ''send email'' (NewSessionKey R 0) of
          Inl e \<Rightarrow> (Inl e, s)
        | Inr sessionKey \<Rightarrow>
            bind_st (uploadAttachments E R 1 C token (om_Attachments msg) sessionKey s) (\<lambda>refs s.
            (Inr ((msg_body msg)\<lparr>pl_AttachmentsSessionKey := sessionKey\<rparr>, Some refs), s)))
      else (Inr (msg_body msg, None), s))"

text \<open>The end of \<open>SendEmail\<close>: a reply goes through its own endpoint.\<close>

definition submit :: "'s client \<Rightarrow> string \<Rightarrow> OutgoingMessage \<Rightarrow> EncryptionBlockDto \<Rightarrow>
    AttachmentRefDto list option \<Rightarrow> DeliveryMode \<Rightarrow> ('s, string) op" where
  "submit C token msg block attachments deliveryMode s =
     (if om_InReplyToEmailID msg \<noteq> [] then submitReply C token msg block attachments deliveryMode s
      else
        bind_st (wrap_st ''send email'' (cl_SendEmail C token
          \<lparr>se_Attachments = attachments, se_Bcc = optionalAddresses (om_Bcc msg),
           se_Cc = optionalAddresses (om_Cc msg), se_DeliveryMode = Some deliveryMode,
           se_DraftId = None, se_Encryption = Some block, se_HtmlBody = None,
           se_InReplyToEmailId = None, se_Subject = om_Subject msg, se_TextBody = None,
           se_To = om_To msg\<rparr> s)) (\<lambda>created s. (Inr (ec_Id created), s)))"

definition SendEmail :: "deps \<Rightarrow> rand \<Rightarrow> 's client \<Rightarrow> string \<Rightarrow> OutgoingMessage \<Rightarrow> Account \<Rightarrow> bytes \<Rightarrow>
    ('s, string) op" where
  "SendEmail D R C token msg account serverPublicKey s =
     (let U = dp_unicode D;
          addresses = uniqueAddresses U [addresses_of (om_To msg), om_Cc msg, om_Bcc msg]
      in if length addresses = 0 then (Inl (ErrNew ''send email: no recipients''), s)
         else
           bind_st (lookupKeys U C token addresses s) (\<lambda>keys s.
           case sealFor U addresses keys serverPublicKey of
             Inl e \<Rightarrow> (Inl e, s)
           | Inr (recipients, allInternxt) \<Rightarrow>
               let recipients = (if length (ac_PublicKey account) > 0
                     then recipients @ [\<lparr>rc_Address = ac_Address account, rc_PublicKey = ac_PublicKey account\<rparr>]
                     else recipients)
               in bind_st (prepare_attachments (dp_prims D) R C token msg s) (\<lambda>(body, attachments) s.
                  case wrap_err ''send email: seal message''
                      (BuildEnvelope (dp_prims D) (shift_rand R (1 + length (om_Attachments msg))) body recipients) of
                    Inl e \<Rightarrow> (Inl e, s)
                  | Inr envelope \<Rightarrow>
                      let deliveryMode = (if \<not> allInternxt then DeliveryModeEXTERNAL else DeliveryModeINTERNXT);
                          block = toEncryptionBlock envelope
                      in submit C token msg block attachments deliveryMode s)))"

section \<open>Drafts\<close>

definition SaveDraft :: "deps \<Rightarrow> rand \<Rightarrow> 's client \<Rightarrow> string \<Rightarrow> OutgoingMessage \<Rightarrow> Account \<Rightarrow>
    ('s, EmailResponseDto) op" where
  "SaveDraft D R C token msg account s =
     (if ac_Address account = [] \<or> length (ac_PublicKey account) = 0
      then (Inl (ErrNew ''save draft: no account key to seal the draft with''), s)
      else
        case wrap_err ''save draft: seal message'' (BuildEnvelope (dp_prims D) R (msg_body msg)
            [\<lparr>rc_Address = ac_Address account, rc_PublicKey = ac_PublicKey account\<rparr>]) of
          Inl e \<Rightarrow> (Inl e, s)
        | Inr envelope \<Rightarrow>
            wrap_st ''save draft'' (cl_SaveDraft C token
              \<lparr>dr_Attachments = None, dr_Bcc = optionalAddresses (om_Bcc msg),
               dr_Cc = optionalAddresses (om_Cc msg), dr_Encryption = Some (toEncryptionBlock envelope),
               dr_HtmlBody = None, dr_Subject = optionalString (om_Subject msg), dr_TextBody = None,
               dr_To = optionalAddresses (addresses_of (om_To msg))\<rparr> s))"

fun DiscardDrafts :: "'s client \<Rightarrow> string \<Rightarrow> string list \<Rightarrow> ('s, unit) op" where
  "DiscardDrafts C token [] s = (Inr (), s)"
| "DiscardDrafts C token (draftID # draftIDs) s =
     bind_st (wrap_st ''discard draft'' (cl_DiscardDraft C token draftID s)) (\<lambda>_. DiscardDrafts C token draftIDs)"

end
