(* ===== verification/CommandsProps.thy ===== *)
theory CommandsProps
  imports Commands
begin

text \<open>
  What the mail commands guarantee over every client: that a message is only ever submitted sealed
  and to whom it can be read by, that paging returns the whole folder, and how a run of updates
  stops.
\<close>

section \<open>Recipients\<close>

lemma unique_from_spec:
  "distinct (map (to_lower U) (unique_from U seen as)) \<and>
   set (map (to_lower U) (unique_from U seen as)) =
     to_lower U ` ad_Email ` set as - insert [] seen"
proof (induction as arbitrary: seen)
  case (Cons a as)
  let ?k = "to_lower U (ad_Email a)"
  show ?case
  proof (cases "?k = [] \<or> ?k \<in> seen")
    case True
    with Cons [of seen] show ?thesis by (auto simp: Let_def)
  next
    case False
    with Cons [of "insert ?k seen"] show ?thesis by (auto simp: Let_def)
  qed
qed simp

lemma uniqueAddresses_distinct: "distinct (map (to_lower U) (uniqueAddresses U groups))"
  using unique_from_spec [of U "{}" "concat groups"] by (simp add: uniqueAddresses_def)

lemma sealFor_spec:
  "sealFor U as keys serverPublicKey =
     (if serverPublicKey = [] \<and> list_ex (\<lambda>a. keys (to_lower U a) = None) as
      then Inl (ErrNew ''send email: no Internxt key and no server key is configured to seal it with'')
      else Inr (map (\<lambda>a. \<lparr>rc_Address = a, rc_PublicKey =
          (case keys (to_lower U a) of Some k \<Rightarrow> k | None \<Rightarrow> serverPublicKey)\<rparr>) as,
        list_all (\<lambda>a. keys (to_lower U a) \<noteq> None) as))"
  by (induction as) (auto split: option.splits if_splits)

section \<open>What is submitted\<close>

fun submission :: "call \<Rightarrow>
    (EncryptionBlockDto option \<times> string option \<times> string option \<times> DeliveryMode option) option" where
  "submission (CallSend t d) = Some (se_Encryption d, se_HtmlBody d, se_TextBody d, se_DeliveryMode d)"
| "submission (CallReply t i d) = Some (re_Encryption d, re_HtmlBody d, re_TextBody d, re_DeliveryMode d)"
| "submission c = None"

fun uploads :: "call list \<Rightarrow> bytes list" where
  "uploads [] = []"
| "uploads (CallUpload t n y content # cs) = content # uploads cs"
| "uploads (c # cs) = uploads cs"

lemma uploads_append [simp]: "uploads (cs @ cs') = uploads cs @ uploads cs'"
  by (induction cs rule: uploads.induct) simp_all

lemma uploadAttachments_log:
  assumes E: "gcm_ok E" "rand_ok R"
    and u: "uploadAttachments E R k (recording C) token atts sk (s, l) = (r, (s', l'))"
  shows "\<exists>cs. l' = l @ cs \<and> (\<forall>c \<in> set cs. submission c = None) \<and>
    (is_ok r \<longrightarrow> map (\<lambda>c. DecryptSymmetrically E sk c []) (uploads cs) = map (\<lambda>a. Inr (oa_Content a)) atts)"
  using u
proof (induction atts arbitrary: k s l r s' l')
  case (Cons a atts)
  show ?case
  proof (cases "EncryptSymmetrically E R k sk (oa_Content a) []")
    case (Inl e)
    with Cons.prems show ?thesis by auto
  next
    case (Inr sealed)
    note dec = EncryptSymmetrically_sealed(2) [OF E Inr]
    let ?c = "CallUpload token (oa_Name a) (oa_ContentType a) sealed"
    obtain ur us where up: "cl_UploadAttachment C token (oa_Name a) (oa_ContentType a) sealed s = (ur, us)"
      by (cases "cl_UploadAttachment C token (oa_Name a) (oa_ContentType a) sealed s")
    show ?thesis
    proof (cases ur)
      case (Inl e)
      with Cons.prems Inr up show ?thesis by (auto simp: logged_def)
    next
      case (Inr uploaded)
      obtain rr rs rl where rest: "uploadAttachments E R (k + 1) (recording C) token atts sk (us, l @ [?c]) = (rr, (rs, rl))"
        by (metis prod_cases3)
      from Cons.IH [OF rest] obtain cs where cs: "rl = (l @ [?c]) @ cs" "\<forall>c \<in> set cs. submission c = None"
        "is_ok rr \<longrightarrow> map (\<lambda>c. DecryptSymmetrically E sk c []) (uploads cs) = map (\<lambda>a. Inr (oa_Content a)) atts"
        by blast
      have "l' = rl \<and> (is_ok r \<longrightarrow> is_ok rr)"
        using Cons.prems \<open>EncryptSymmetrically E R k sk (oa_Content a) [] = Inr sealed\<close> up Inr rest
        by (cases rr) (auto simp: logged_def)
      with cs dec show ?thesis by (intro exI [of _ "?c # cs"]) auto
    qed
  qed
qed auto

lemma prepare_attachments_log:
  assumes E: "gcm_ok E" "rand_ok R"
    and p: "prepare_attachments E R (recording C) token msg (s, l) = (r, (s', l'))"
  shows "\<exists>cs. l' = l @ cs \<and> (\<forall>c \<in> set cs. submission c = None) \<and>
    (\<forall>body atts. r = Inr (body, atts) \<longrightarrow>
       (\<exists>key. body = (msg_body msg)\<lparr>pl_AttachmentsSessionKey := key\<rparr> \<and>
          (key = [] \<longrightarrow> om_Attachments msg = []) \<and>
          map (\<lambda>c. DecryptSymmetrically E key c []) (uploads cs) =
            map (\<lambda>a. Inr (oa_Content a)) (om_Attachments msg)))"
proof (cases "om_Attachments msg = []")
  case True
  with p show ?thesis
    by (auto simp: prepare_attachments_def msg_body_def Let_def intro!: exI [of _ "[]"])
next
  case False
  show ?thesis
  proof (cases "NewSessionKey R 0")
    case (Inl e)
    with False p show ?thesis by (auto simp: prepare_attachments_def)
  next
    case (Inr sk)
    have "length sk = 32"
      using Inr rand_okD [OF E(2)] by (auto simp: NewSessionKey_def randomKey_def sessionKeyLen_def)
    obtain ur us ul where up: "uploadAttachments E R 1 (recording C) token (om_Attachments msg) sk (s, l) = (ur, (us, ul))"
      by (metis prod_cases3)
    have "(s', l') = (us, ul)" "\<And>body atts. r = Inr (body, atts) \<Longrightarrow>
        is_ok ur \<and> body = (msg_body msg)\<lparr>pl_AttachmentsSessionKey := sk\<rparr>"
      using p False Inr up by (cases ur; auto simp: prepare_attachments_def)+
    with uploadAttachments_log [OF E up] \<open>length sk = 32\<close> show ?thesis by fastforce
  qed
qed

text \<open>The envelope a block carries, as a reader of the stored message sees it.\<close>

definition envelope_of_block :: "EncryptionBlockDto \<Rightarrow> Envelope" where
  "envelope_of_block b =
     \<lparr>env_Version = eb_Version b, env_EncryptedText = eb_EncryptedText b,
      env_EncryptedPreview = eb_EncryptedPreview b,
      env_EncryptedAttachmentsSessionKey = eb_EncryptedAttachmentsSessionKey b,
      env_WrappedKeys = wrappedKeys (eb_WrappedKeys b)\<rparr>"

lemma envelope_of_toEncryptionBlock [simp]: "envelope_of_block (toEncryptionBlock envelope) = envelope"
proof -
  have "(\<lambda>x. \<lparr>wk_EncryptedForEmail = wk_EncryptedForEmail x, wk_EncryptedKey = wk_EncryptedKey x,
      wk_HybridCiphertext = wk_HybridCiphertext x\<rparr>) = (\<lambda>x :: WrappedKey. x)"
    by (rule ext) (rule WrappedKey.equality; simp)
  then show ?thesis
    by (cases envelope) (simp add: envelope_of_block_def toEncryptionBlock_def wrappedKeys_def comp_def)
qed

definition own_recipient :: "Account \<Rightarrow> Recipient list" where
  "own_recipient account =
     (if length (ac_PublicKey account) > 0
      then [\<lparr>rc_Address = ac_Address account, rc_PublicKey = ac_PublicKey account\<rparr>] else [])"

lemma shift_rand_ok: "rand_ok R \<Longrightarrow> rand_ok (shift_rand R k)"
  by (auto simp: rand_ok_def shift_rand_def)

definition sealed_submission :: "deps \<Rightarrow> OutgoingMessage \<Rightarrow> Account \<Rightarrow> bytes \<Rightarrow> RecipientKeyDto list \<Rightarrow>
    call list \<Rightarrow> EncryptionBlockDto option \<times> string option \<times> string option \<times> DeliveryMode option \<Rightarrow> bool" where
  "sealed_submission D msg account serverPublicKey answer cs sub =
     (\<exists>block keys recipients allInternxt.
        gather_keys (dp_unicode D) answer Map.empty = Inr keys \<and>
        sealFor (dp_unicode D) (uniqueAddresses (dp_unicode D) [addresses_of (om_To msg), om_Cc msg, om_Bcc msg]) keys
          serverPublicKey = Inr (recipients, allInternxt) \<and>
        sub = (Some block, None, None, Some (if allInternxt then DeliveryModeINTERNXT else DeliveryModeEXTERNAL)) \<and>
        (\<forall>seed address rc.
           find (\<lambda>r. equal_fold (dp_unicode D) (rc_Address r) address) (recipients @ own_recipient account) = Some rc \<longrightarrow>
           length seed = 32 \<longrightarrow> rc_PublicKey rc = hybrid_public_key (dp_prims D) seed \<longrightarrow>
           (\<exists>key. DecryptEnvelope (dp_prims D) (dp_unicode D) (envelope_of_block block) seed address =
                Inr ((msg_body msg)\<lparr>pl_AttachmentsSessionKey := key\<rparr>) \<and>
              map (\<lambda>c. DecryptSymmetrically (dp_prims D) key c []) (uploads cs) =
                map (\<lambda>a. Inr (oa_Content a)) (om_Attachments msg))))"

lemma submit_log:
  assumes "submit (recording C) token msg block atts mode (s, l) = (r, (s', l'))"
  shows "\<exists>c. l' = l @ [c] \<and> submission c = Some (Some block, None, None, Some mode)"
proof -
  have "snd (snd (submit (recording C) token msg block atts mode (s, l))) = l'"
    using assms by simp
  then show ?thesis
    by (auto simp: submit_def submitReply_def snd_bind_st split: sum.splits if_splits)
qed

lemma SendEmail_log:
  assumes E: "block_cipher_ok (dp_prims D)" "gcm_ok (dp_prims D)" "kem_ok (dp_prims D)" "hash_ok (dp_prims D)"
      "rand_ok R"
    and s: "SendEmail D R (recording C) token msg account serverPublicKey (s, []) = (r, (s', calls))"
  shows "\<exists>cs. (\<forall>c \<in> set cs. submission c = None) \<and>
    (calls = cs \<and> \<not> is_ok r \<or>
     (\<exists>c sub answer. calls = cs @ [c] \<and> submission c = Some sub \<and>
        fst (cl_LookupRecipientKeys C token
          (uniqueAddresses (dp_unicode D) [addresses_of (om_To msg), om_Cc msg, om_Bcc msg]) s) = Inr answer \<and>
        sealed_submission D msg account serverPublicKey answer cs sub))"
proof -
  define U where "U = dp_unicode D"
  define addresses where "addresses = uniqueAddresses U [addresses_of (om_To msg), om_Cc msg, om_Bcc msg]"
  note defs = SendEmail_def Let_def U_def [symmetric] addresses_def [symmetric]
  let ?lc = "CallLookup token addresses"
  obtain kr ks where lk: "cl_LookupRecipientKeys C token addresses s = (kr, ks)"
    by (cases "cl_LookupRecipientKeys C token addresses s")
  have lr: "lookupKeys U (recording C) token addresses (s, []) =
      (case kr of Inl e \<Rightarrow> (Inl (ErrWrap ''send email: look up recipient keys'' e), (ks, [?lc]))
        | Inr answer \<Rightarrow> (gather_keys U answer Map.empty, (ks, [?lc])))"
    by (cases kr) (simp_all add: lookupKeys_def logged_def lk)
  show ?thesis
  proof (cases "addresses = []")
    case True
    with s show ?thesis by (intro exI [of _ "[]"]) (auto simp: defs)
  next
    case ne: False
    show ?thesis
    proof (cases "\<exists>answer keys recipients allInternxt. kr = Inr answer \<and>
          gather_keys U answer Map.empty = Inr keys \<and>
          sealFor U addresses keys serverPublicKey = Inr (recipients, allInternxt)")
      case False
      have "calls = [?lc] \<and> \<not> is_ok r"
      proof (cases kr)
        case (Inl e)
        with s ne lr show ?thesis by (auto simp: defs)
      next
        case (Inr answer)
        show ?thesis
        proof (cases "gather_keys U answer Map.empty")
          case (Inl e)
          with s ne lr Inr show ?thesis by (auto simp: defs)
        next
          case gk: (Inr keys)
          with False Inr obtain e where "sealFor U addresses keys serverPublicKey = Inl e"
            by (cases "sealFor U addresses keys serverPublicKey") auto
          with s ne lr Inr gk show ?thesis by (auto simp: defs)
        qed
      qed
      then show ?thesis by (intro exI [of _ "[?lc]"]) simp
    next
      case True
      then obtain answer keys recipients allInternxt where
        kr: "kr = Inr answer" and gk: "gather_keys U answer Map.empty = Inr keys" and
        sf: "sealFor U addresses keys serverPublicKey = Inr (recipients, allInternxt)" by blast
      obtain pr ps pl where p: "prepare_attachments (dp_prims D) R (recording C) token msg (ks, [?lc]) = (pr, (ps, pl))"
        by (metis prod_cases3)
      from prepare_attachments_log [OF E(2,5) p] obtain cs where
        pl: "pl = [?lc] @ cs" and nosub: "\<forall>c \<in> set cs. submission c = None" and
        body: "\<And>body atts. pr = Inr (body, atts) \<Longrightarrow>
          \<exists>key. body = (msg_body msg)\<lparr>pl_AttachmentsSessionKey := key\<rparr> \<and>
            (key = [] \<longrightarrow> om_Attachments msg = []) \<and>
            map (\<lambda>c. DecryptSymmetrically (dp_prims D) key c []) (uploads cs) =
              map (\<lambda>a. Inr (oa_Content a)) (om_Attachments msg)" by blast
      let ?recipients = "recipients @ own_recipient account"
      have rec: "(if ac_PublicKey account \<noteq> []
          then recipients @ [\<lparr>rc_Address = ac_Address account, rc_PublicKey = ac_PublicKey account\<rparr>]
          else recipients) = ?recipients" by (simp add: own_recipient_def)
      show ?thesis
      proof (cases pr)
        case (Inl e)
        with s ne lr kr gk sf p have "calls = pl \<and> \<not> is_ok r"
          by (auto simp: defs)
        with pl nosub show ?thesis by (intro exI [of _ "?lc # cs"]) auto
      next
        case (Inr ba)
        obtain body atts where ba: "ba = (body, atts)" by (cases ba)
        let ?build = "BuildEnvelope (dp_prims D) (shift_rand R (1 + length (om_Attachments msg))) body ?recipients"
        show ?thesis
        proof (cases ?build)
          case Inl2: (Inl e)
          with s ne lr kr gk sf p Inr ba have "calls = pl \<and> \<not> is_ok r"
            by (auto simp: defs rec)
          with pl nosub show ?thesis by (intro exI [of _ "?lc # cs"]) auto
        next
          case env: (Inr envelope)
          let ?mode = "if allInternxt then DeliveryModeINTERNXT else DeliveryModeEXTERNAL"
          from s ne lr kr gk sf p Inr ba env
          have "submit (recording C) token msg (toEncryptionBlock envelope) atts
              (if \<not> allInternxt then DeliveryModeEXTERNAL else DeliveryModeINTERNXT) (ps, pl) = (r, (s', calls))"
            by (simp add: defs rec)
          from submit_log [OF this]
          obtain c where c: "calls = pl @ [c]"
            "submission c = Some (Some (toEncryptionBlock envelope), None, None, Some ?mode)"
            by auto
          have "sealed_submission D msg account serverPublicKey answer (?lc # cs)
              (Some (toEncryptionBlock envelope), None, None, Some ?mode)"
          proof -
            have "\<exists>key. DecryptEnvelope (dp_prims D) U envelope seed address =
                  Inr ((msg_body msg)\<lparr>pl_AttachmentsSessionKey := key\<rparr>) \<and>
                map (\<lambda>c. DecryptSymmetrically (dp_prims D) key c []) (uploads (?lc # cs)) =
                  map (\<lambda>a. Inr (oa_Content a)) (om_Attachments msg)"
              if f: "find (\<lambda>r. equal_fold U (rc_Address r) address) ?recipients = Some rc"
                and k: "length seed = 32" "rc_PublicKey rc = hybrid_public_key (dp_prims D) seed"
              for seed address rc
            proof -
              from BuildEnvelope_decrypts [OF E(1-4) shift_rand_ok [OF E(5)] env f k]
              obtain email where
                e: "with_attachments_key (shift_rand R (1 + length (om_Attachments msg))) body = Inr email"
                "DecryptEnvelope (dp_prims D) U envelope seed address = Inr email" by blast
              from body [of body atts] Inr ba obtain key where
                b: "body = (msg_body msg)\<lparr>pl_AttachmentsSessionKey := key\<rparr>"
                "key = [] \<longrightarrow> om_Attachments msg = []"
                "map (\<lambda>c. DecryptSymmetrically (dp_prims D) key c []) (uploads cs) =
                  map (\<lambda>a. Inr (oa_Content a)) (om_Attachments msg)" by blast
              from with_attachments_key_Inr [OF e(1)] b(1) obtain key' where
                k': "email = (msg_body msg)\<lparr>pl_AttachmentsSessionKey := key'\<rparr>" "key \<noteq> [] \<longrightarrow> key' = key"
                by auto
              have "map (\<lambda>c. DecryptSymmetrically (dp_prims D) key' c []) (uploads cs) =
                  map (\<lambda>a. Inr (oa_Content a)) (om_Attachments msg)"
                using b(2,3) k'(2) by (cases "key = []") auto
              with e(2) k'(1) show ?thesis by auto
            qed
            then show ?thesis
              unfolding sealed_submission_def U_def [symmetric] addresses_def [symmetric]
              using gk sf
              by (intro exI [of _ "toEncryptionBlock envelope"] exI [of _ keys] exI [of _ recipients]
                  exI [of _ allInternxt]) simp
          qed
          then have "sealed_submission D msg account serverPublicKey answer (?lc # cs)
              (Some (toEncryptionBlock envelope), None, None, Some ?mode)" .
          with c pl nosub kr lk show ?thesis
            by (intro exI [of _ "?lc # cs"]) (auto simp: U_def addresses_def)
        qed
      qed
    qed
  qed
qed

text \<open>
  C1: a message is never submitted in the clear, and everyone it is addressed to can read it. At
  most one submission is made, as the very last call; it carries no HTML and no text body, and a
  sealed block that every holder of a recipient's (or the sender's own) private key opens to the
  message's body, with the key that opens every uploaded attachment; it is marked INTERNXT exactly
  when \<open>sealFor\<close> found a key for every address. Without a submission the result is an error.
\<close>

theorem SendEmail_sealed:
  assumes "block_cipher_ok (dp_prims D)" "gcm_ok (dp_prims D)" "kem_ok (dp_prims D)" "hash_ok (dp_prims D)"
      "rand_ok R"
    and "SendEmail D R (recording C) token msg account serverPublicKey (s, []) = (r, (s', calls))"
  shows "(\<forall>c \<in> set (butlast calls). submission c = None) \<and>
    (if calls \<noteq> [] \<and> submission (last calls) \<noteq> None
     then \<exists>answer. fst (cl_LookupRecipientKeys C token
            (uniqueAddresses (dp_unicode D) [addresses_of (om_To msg), om_Cc msg, om_Bcc msg]) s) = Inr answer \<and>
          sealed_submission D msg account serverPublicKey answer (butlast calls) (the (submission (last calls)))
     else \<not> is_ok r)"
proof -
  from SendEmail_log [OF assms] obtain cs where
    cs: "\<forall>c \<in> set cs. submission c = None" and
    alt: "calls = cs \<and> \<not> is_ok r \<or>
     (\<exists>c sub answer. calls = cs @ [c] \<and> submission c = Some sub \<and>
        fst (cl_LookupRecipientKeys C token
          (uniqueAddresses (dp_unicode D) [addresses_of (om_To msg), om_Cc msg, om_Bcc msg]) s) = Inr answer \<and>
        sealed_submission D msg account serverPublicKey answer cs sub)" by blast
  from alt show ?thesis
  proof (elim disjE)
    assume "calls = cs \<and> \<not> is_ok r"
    with cs show ?thesis by (auto dest: in_set_butlastD last_in_set)
  next
    assume "\<exists>c sub answer. calls = cs @ [c] \<and> submission c = Some sub \<and>
        fst (cl_LookupRecipientKeys C token
          (uniqueAddresses (dp_unicode D) [addresses_of (om_To msg), om_Cc msg, om_Bcc msg]) s) = Inr answer \<and>
        sealed_submission D msg account serverPublicKey answer cs sub"
    with cs show ?thesis by auto
  qed
qed

definition kind_client :: "unit client" where
  "kind_client =
     \<lparr>cl_GetUserFolder = (\<lambda>t x s. (Inl (ErrExt ''none''), s)), cl_GetMailboxes = (\<lambda>t s. (Inr [], s)),
      cl_GetThread = (\<lambda>t x s. (Inr [], s)), cl_UpdateEmail = (\<lambda>t x u s. (Inr (), s)),
      cl_DeleteEmail = (\<lambda>t x s. (Inr (), s)), cl_LookupRecipientKeys = (\<lambda>t x s. (Inr [], s)),
      cl_SendEmail = (\<lambda>t x s. (Inr \<lparr>ec_Id = ''M1''\<rparr>, s)), cl_ReplyEmail = (\<lambda>t i x s. (Inr \<lparr>ec_Id = ''M2''\<rparr>, s)),
      cl_SaveDraft = (\<lambda>t x s. (Inr zero_email, s)), cl_DiscardDraft = (\<lambda>t x s. (Inr (), s)),
      cl_DownloadAttachment = (\<lambda>t i b s. (Inr [], s)),
      cl_UploadAttachment = (\<lambda>t n y b s. (Inl (ErrExt ''full''), s))\<rparr>"

definition toy_deps :: deps where
  "toy_deps = \<lparr>dp_prims = toy_prims, dp_unicode = ascii_unicode, dp_envelope = (\<lambda>b. Inl (ErrExt ''json''))\<rparr>"

definition sending_client :: "unit client" where
  "sending_client = kind_client"

definition toy_message :: OutgoingMessage where
  "toy_message = \<lparr>om_Subject = ''hi'', om_HTMLBody = [], om_TextBody = ''hello'', om_Attachments = [],
     om_InReplyToEmailID = [], om_To = Some [\<lparr>ad_Email = ''bob@inxt.eu'', ad_Name = None\<rparr>], om_Cc = [], om_Bcc = []\<rparr>"

definition toy_server_key :: bytes where
  "toy_server_key = hybrid_public_key toy_prims (replicate 32 3)"

lemma toy_addresses:
  "uniqueAddresses (dp_unicode toy_deps) [addresses_of (om_To toy_message), om_Cc toy_message, om_Bcc toy_message] = [''bob@inxt.eu'']"
  "sealFor (dp_unicode toy_deps) [''bob@inxt.eu''] Map.empty toy_server_key =
     Inr ([\<lparr>rc_Address = ''bob@inxt.eu'', rc_PublicKey = toy_server_key\<rparr>], False)"
proof -
  have "to_lower ascii_unicode ''bob@inxt.eu'' = ''bob@inxt.eu''" by code_simp
  then show "uniqueAddresses (dp_unicode toy_deps) [addresses_of (om_To toy_message), om_Cc toy_message, om_Bcc toy_message] = [''bob@inxt.eu'']"
    by (simp add: uniqueAddresses_def toy_deps_def toy_message_def)
  show "sealFor (dp_unicode toy_deps) [''bob@inxt.eu''] Map.empty toy_server_key =
     Inr ([\<lparr>rc_Address = ''bob@inxt.eu'', rc_PublicKey = toy_server_key\<rparr>], False)"
    by (simp add: toy_server_key_def toy_hybrid_public_key)
qed

lemma toy_SendEmail:
  assumes l: "cl_LookupRecipientKeys C token [''bob@inxt.eu''] s = (Inr [], s1)"
  shows "\<exists>d. SendEmail toy_deps toy_rand C token toy_message no_account toy_server_key s =
    wrap_st ''send email'' (bind_st (cl_SendEmail C token d s1) (\<lambda>created s. (Inr (ec_Id created), s))) \<and>
    se_TextBody d = None \<and> se_HtmlBody d = None"
proof -
  have "is_ok (BuildEnvelope toy_prims (shift_rand toy_rand 1) (msg_body toy_message)
      [\<lparr>rc_Address = ''bob@inxt.eu'', rc_PublicKey = toy_server_key\<rparr>])"
    by (rule toy_BuildEnvelope [where f = "\<lambda>i. of_nat (1 + i)" and seed = "\<lambda>r. replicate 32 3"])
       (simp_all add: toy_rand_def shift_rand_def toy_server_key_def msg_body_def toy_message_def)
  then obtain env where env: "BuildEnvelope toy_prims (shift_rand toy_rand 1) (msg_body toy_message)
      [\<lparr>rc_Address = ''bob@inxt.eu'', rc_PublicKey = toy_server_key\<rparr>] = Inr env" by (auto simp: is_ok_iff)
  have p: "dp_prims toy_deps = toy_prims" by (simp add: toy_deps_def)
  have m: "om_Attachments toy_message = []" "om_InReplyToEmailID toy_message = []"
    by (simp_all add: toy_message_def)
  have bind: "bind_st (wrap_st w r) (\<lambda>created s. (Inr (ec_Id created), s)) =
      wrap_st w (bind_st r (\<lambda>created s. (Inr (ec_Id created), s)))" for w and r :: "(err + EmailCreatedResponseDto) \<times> 's"
    by (cases "(w, r)" rule: wrap_st.cases) simp_all
  have "SendEmail toy_deps toy_rand C token toy_message no_account toy_server_key s =
      submit C token toy_message (toEncryptionBlock env) None DeliveryModeEXTERNAL s1"
    unfolding SendEmail_def Let_def toy_addresses(1)
    by (simp add: lookupKeys_def l toy_addresses(2) prepare_attachments_def m p env [simplified] no_account_def
        del: sealFor.simps)
  then show ?thesis
    by (auto simp: submit_def m bind)
qed

theorem SendEmail_sealed_witness:
  "\<exists>calls r s' answer. SendEmail toy_deps toy_rand (recording sending_client) ''t'' toy_message no_account
       toy_server_key ((), []) = (r, (s', calls)) \<and> submission (last calls) \<noteq> None \<and>
     sealed_submission toy_deps toy_message no_account toy_server_key answer (butlast calls) (the (submission (last calls)))"
proof -
  obtain r s' calls where
    e: "SendEmail toy_deps toy_rand (recording sending_client) ''t'' toy_message no_account toy_server_key ((), []) =
      (r, (s', calls))"
    by (metis prod_cases3)
  have l: "cl_LookupRecipientKeys (recording sending_client) ''t'' [''bob@inxt.eu''] ((), []) =
      (Inr [], ((), [CallLookup ''t'' [''bob@inxt.eu'']]))"
    by (simp add: sending_client_def kind_client_def logged_def)
  obtain d where d: "SendEmail toy_deps toy_rand (recording sending_client) ''t'' toy_message no_account toy_server_key ((), []) =
      wrap_st ''send email'' (bind_st (cl_SendEmail (recording sending_client) ''t'' d
        ((), [CallLookup ''t'' [''bob@inxt.eu'']])) (\<lambda>created s. (Inr (ec_Id created), s)))"
    using toy_SendEmail [OF l] by blast
  have calls: "calls = [CallLookup ''t'' [''bob@inxt.eu''], CallSend ''t'' d]"
    using e unfolding d by (simp add: sending_client_def kind_client_def logged_def)
  have p: "block_cipher_ok (dp_prims toy_deps)" "gcm_ok (dp_prims toy_deps)" "kem_ok (dp_prims toy_deps)"
    "hash_ok (dp_prims toy_deps)" by (simp_all add: toy_deps_def)
  have s: "submission (last calls) \<noteq> None" "calls \<noteq> []" by (simp_all add: calls)
  from SendEmail_sealed [OF p toy_rand_ok e] s obtain answer where
    "sealed_submission toy_deps toy_message no_account toy_server_key answer (butlast calls) (the (submission (last calls)))"
    by auto
  with e s show ?thesis by blast
qed

text \<open>
  C10: the recipients sealed for are the addresses of To, Cc and Bcc without repetition up to letter
  case and without empty ones, each under its own key or the server's, and none is dropped. Sealing
  is refused exactly when no server key is configured and some address has no key of its own: then
  that single address stops the whole message, and in every other case nothing is refused.
\<close>

theorem recipients_complete:
  "distinct (map (to_lower U) (uniqueAddresses U groups)) \<and>
   set (map (to_lower U) (uniqueAddresses U groups)) =
     (\<lambda>a. to_lower U (ad_Email a)) ` set (concat groups) - {[]} \<and>
   sealFor U (uniqueAddresses U groups) keys serverPublicKey =
     (if serverPublicKey = [] \<and> (\<exists>a \<in> set (uniqueAddresses U groups). keys (to_lower U a) = None)
      then Inl (ErrNew ''send email: no Internxt key and no server key is configured to seal it with'')
      else Inr (map (\<lambda>a. \<lparr>rc_Address = a, rc_PublicKey =
             (case keys (to_lower U a) of Some k \<Rightarrow> k | None \<Rightarrow> serverPublicKey)\<rparr>) (uniqueAddresses U groups),
           list_all (\<lambda>a. keys (to_lower U a) \<noteq> None) (uniqueAddresses U groups)))"
  using unique_from_spec [of U "{}" "concat groups"]
  by (simp add: uniqueAddresses_def image_image sealFor_spec list_ex_iff)

section \<open>Paging\<close>

text \<open>
  A client that serves a folder, whatever is asked or under the name of a mailbox: the page at a
  position is the next emails of it, at most \<open>page\<close> of them, and there are more when the folder goes on
  after it. It does so as long as its state is in \<open>Q\<close>, where a page leaves it.
\<close>

definition serves_mailbox :: "('s \<Rightarrow> bool) \<Rightarrow> (Mailbox \<Rightarrow> bool) \<Rightarrow> 's client \<Rightarrow> EmailSummaryResponseDto list \<Rightarrow> nat \<Rightarrow> bool" where
  "serves_mailbox Q M C folder page \<longleftrightarrow>
     (\<forall>token opts s. Q s \<and> M (lo_Mailbox opts) \<and> 0 \<le> lo_Position opts \<longrightarrow>
        (\<exists>res s'. cl_GetUserFolder C token opts s = (Inr res, s') \<and> Q s' \<and>
           li_Emails res = take page (drop (nat (lo_Position opts)) folder) \<and>
           li_HasMoreMails res = (nat (lo_Position opts) + page < length folder)))"

definition serves_folder :: "'s client \<Rightarrow> EmailSummaryResponseDto list \<Rightarrow> nat \<Rightarrow> bool" where
  "serves_folder C folder page \<longleftrightarrow> serves_mailbox (\<lambda>s. True) (\<lambda>mailbox. True) C folder page"

lemma decrypt_page_append:
  "decrypt_page D account (as @ bs) =
     (fst (decrypt_page D account as) @ fst (decrypt_page D account bs),
      snd (decrypt_page D account as) @ snd (decrypt_page D account bs))"
  by (simp add: decrypt_page_def List.map_filter_def)

lemma list_all_from_folder:
  assumes C: "serves_mailbox Q M C folder page" and page: "0 < page" and small: "length folder < 2 ^ 63"
    and pos: "lo_Position opts = int n" "n \<le> length folder" "M (lo_Mailbox opts)" "Q s"
  shows "\<exists>s'. list_all_from D C token opts account gathered errs s =
    Some (Inr (gathered @ fst (decrypt_page D account (drop n folder))),
      errs @ snd (decrypt_page D account (drop n folder)), s') \<and> Q s'"
  using pos
proof (induction "length folder - n" arbitrary: n opts gathered errs s rule: less_induct)
  case less
  obtain res s1 where g: "cl_GetUserFolder C token opts s = (Inr res, s1)"
    "li_Emails res = take page (drop n folder)" "li_HasMoreMails res = (n + page < length folder)" "Q s1"
    using C [unfolded serves_mailbox_def, rule_format, of s opts token] less.prems(1,3,4) by auto
  show ?case
  proof (cases "n + page < length folder")
    case False
    then have "li_Emails res = drop n folder" using g(2) by simp
    with g(1,3,4) False show ?thesis
      by (subst list_all_from.simps) (simp add: ListEmails_def decrypt_page_def)
  next
    case True
    let ?opts = "opts\<lparr>lo_Position := wrap64 (lo_Position opts + int (length (li_Emails res)))\<rparr>"
    have len: "length (li_Emails res) = page" using g(2) True by simp
    have w: "lo_Position ?opts = int (n + page)"
      using less.prems(1) len True small by (simp add: wrap64_id)
    have "length folder - (n + page) < length folder - n" using page True by simp
    note ih = less.hyps [OF this w, of s1 "gathered @ fst (decrypt_page D account (li_Emails res))"
        "errs @ snd (decrypt_page D account (li_Emails res))"]
    have "n + page \<le> length folder" "M (lo_Mailbox ?opts)" using True less.prems(3) by simp_all
    from ih [OF this g(4)] obtain s2 where
      "list_all_from D C token ?opts account (gathered @ fst (decrypt_page D account (li_Emails res)))
         (errs @ snd (decrypt_page D account (li_Emails res))) s1 =
       Some (Inr ((gathered @ fst (decrypt_page D account (li_Emails res))) @ fst (decrypt_page D account (drop (n + page) folder))),
         (errs @ snd (decrypt_page D account (li_Emails res))) @ snd (decrypt_page D account (drop (n + page) folder)), s2) \<and> Q s2"
      by blast
    moreover have "drop n folder = li_Emails res @ drop (n + page) folder"
      using append_take_drop_id [of page "drop n folder"] g(2) by (simp add: add.commute)
    ultimately show ?thesis
      using g(1,3) len page True
      by (subst list_all_from.simps)
         (simp add: ListEmails_def decrypt_page_append split_beta Let_def)
  qed
qed

text \<open>
  C8: against a service that pages through a folder, ListAllEmails ends and returns the whole
  folder, in order and with nothing missing or twice, whatever the size of the pages, together with
  the error of every preview that could not be opened.
\<close>

theorem ListAllEmails_complete:
  assumes "serves_folder C folder page" "0 < page" "length folder < 2 ^ 63" "lo_Position opts = 0"
  shows "\<exists>s'. ListAllEmails D C token opts account s =
    Some (Inr (map (\<lambda>m. fst (decryptPreview D m account)) folder),
      List.map_filter (\<lambda>m. snd (decryptPreview D m account)) folder, s')"
  using list_all_from_folder [OF assms(1) [unfolded serves_folder_def] assms(2,3), of opts 0 D token account "[]" "[]" s] assms(4)
  by (auto simp: ListAllEmails_def decrypt_page_def)

definition folder_client :: "EmailSummaryResponseDto list \<Rightarrow> nat \<Rightarrow> unit client" where
  "folder_client folder page = kind_client\<lparr>cl_GetUserFolder := (\<lambda>token opts s.
     (Inr \<lparr>li_Emails = take page (drop (nat (lo_Position opts)) folder),
           li_HasMoreMails = (nat (lo_Position opts) + page < length folder),
           li_NextAnchor = None, li_Total = of_nat (length folder)\<rparr>, s))\<rparr>"

definition whole_inbox :: ListEmailsOptions where
  "whole_inbox = \<lparr>lo_Mailbox = MailboxInbox, lo_Limit = 0, lo_Position = 0, lo_AnchorID = [], lo_Unread = None\<rparr>"

theorem ListAllEmails_complete_witness:
  "ListAllEmails toy_deps (folder_client (map (\<lambda>i. zero_summary\<lparr>su_Id := i\<rparr>) [''a'', ''b'', ''c'']) 2) ''t''
     whole_inbox no_account () =
   Some (Inr (map (\<lambda>i. zero_summary\<lparr>su_Id := i\<rparr>) [''a'', ''b'', ''c'']), [], ())"
proof -
  have f: "serves_folder (folder_client (map (\<lambda>i. zero_summary\<lparr>su_Id := i\<rparr>) [''a'', ''b'', ''c'']) 2)
      (map (\<lambda>i. zero_summary\<lparr>su_Id := i\<rparr>) [''a'', ''b'', ''c'']) 2"
    by (auto simp: serves_folder_def serves_mailbox_def folder_client_def)
  from ListAllEmails_complete [OF f, of whole_inbox toy_deps "''t''" no_account "()"] show ?thesis
    by (simp add: whole_inbox_def decryptPreview_def zero_summary_def List.map_filter_def)
qed

text \<open>
  C31: the guard against a misbehaving service covers empty pages only. A service that answers every
  request with the same non-empty page and says there is more keeps ListAllEmails going forever,
  whatever it is asked for.
\<close>

theorem ListAllEmails_may_diverge:
  assumes "\<And>opts. cl_GetUserFolder C token opts s = (Inr res, s)"
    and "li_HasMoreMails res" "li_Emails res \<noteq> []"
  shows "ListAllEmails D C token opts account s = None"
proof -
  have "list_all_from D C token opts account gathered errs s \<noteq> Some y" for opts gathered errs y
  proof
    assume "list_all_from D C token opts account gathered errs s = Some y"
    then have "\<not> (C = C \<and> token = token \<and> s = s)"
    proof (rule list_all_from.raw_induct [where
          P = "\<lambda>D' C' token' opts account' gathered errs s' y. \<not> (C' = C \<and> token' = token \<and> s' = s)", rotated])
      fix f D' C' token' opts' account' gathered' errs' s'' y'
      assume IH: "\<And>D' C' token' opts account' gathered errs s' y.
          f D' C' token' opts account' gathered errs s' = Some y \<Longrightarrow> \<not> (C' = C \<and> token' = token \<and> s' = s)"
        and F: "(case ListEmails C' token' opts' s'' of
             (Inl e, s) \<Rightarrow> Some (Inl e, errs', s)
           | (Inr page, s) \<Rightarrow>
               (let (decrypted, es) = decrypt_page D' account' (li_Emails page);
                    gathered = gathered' @ decrypted; errs = errs' @ es
                in if \<not> li_HasMoreMails page \<or> length (li_Emails page) = 0 then Some (Inr gathered, errs, s)
                   else f D' C' token'
                     (opts'\<lparr>lo_Position := wrap64 (lo_Position opts' + int (length (li_Emails page)))\<rparr>)
                     account' gathered errs s)) = Some y'"
      show "\<not> (C' = C \<and> token' = token \<and> s'' = s)"
      proof
        assume e: "C' = C \<and> token' = token \<and> s'' = s"
        then have "ListEmails C' token' opts' s'' = (Inr res, s)"
          using assms(1) by (simp add: ListEmails_def)
        with F assms(2,3) e have "\<exists>opts g es. f D' C' token' opts account' g es s = Some y'"
          by (auto simp: Let_def split_beta)
        with e IH show False by blast
      qed
    qed
    then show False by simp
  qed
  then have "list_all_from D C token opts account gathered errs s = None" for opts gathered errs
    by (cases "list_all_from D C token opts account gathered errs s") auto
  then show ?thesis by (simp add: ListAllEmails_def)
qed

theorem ListAllEmails_may_diverge_witness:
  "ListAllEmails toy_deps
     (kind_client\<lparr>cl_GetUserFolder := (\<lambda>token opts s. (Inr \<lparr>li_Emails = [zero_summary],
        li_HasMoreMails = True, li_NextAnchor = None, li_Total = 1\<rparr>, s))\<rparr>) ''t'' whole_inbox no_account () = None"
  by (rule ListAllEmails_may_diverge [where res = "\<lparr>li_Emails = [zero_summary], li_HasMoreMails = True,
        li_NextAnchor = None, li_Total = 1\<rparr>"]) simp_all

section \<open>Runs of updates\<close>

lemma updateEach_log:
  "\<exists>n r s' l'. updateEach (recording C) token ids u (s, l) = (r, (s', l @ map (\<lambda>i. CallUpdate token i u) (take n ids))) \<and>
     n \<le> length ids \<and> (is_ok r \<longrightarrow> n = length ids) \<and> (\<not> is_ok r \<longrightarrow> 0 < n)"
proof (induction ids arbitrary: s l)
  case (Cons i ids)
  obtain ur us where up: "cl_UpdateEmail C token i u s = (ur, us)" by (cases "cl_UpdateEmail C token i u s")
  show ?case
  proof (cases ur)
    case (Inl e)
    with up show ?thesis by (intro exI [of _ 1]) (simp add: logged_def)
  next
    case (Inr x)
    obtain n r s' where "updateEach (recording C) token ids u (us, l @ [CallUpdate token i u]) =
        (r, (s', (l @ [CallUpdate token i u]) @ map (\<lambda>i. CallUpdate token i u) (take n ids)))"
      "n \<le> length ids" "is_ok r \<longrightarrow> n = length ids" "\<not> is_ok r \<longrightarrow> 0 < n"
      using Cons [of us "l @ [CallUpdate token i u]"] by blast
    with up Inr show ?thesis by (intro exI [of _ "Suc n"] exI [of _ r] exI [of _ s']) (simp add: logged_def)
  qed
qed auto

text \<open>
  Moving emails asks for nothing unless the destination is one of the six mailboxes; otherwise it
  updates the emails one by one in the order given, setting only the mailbox, and stops at the first
  that fails: all were asked for exactly when it succeeds.
\<close>

theorem Move_in_order:
  "\<exists>n r s'. Move (recording C) token ids mailbox (s, []) =
      (r, (s', map (\<lambda>i. CallUpdate token i \<lparr>up_IsFlagged = None, up_IsRead = None, up_Mailbox = Some mailbox\<rparr>)
        (take n ids))) \<and>
    (if MailboxResponseDtoType_Valid mailbox
     then n \<le> length ids \<and> (if is_ok r then n = length ids else 0 < n)
     else n = 0 \<and> \<not> is_ok r)"
proof (cases "MailboxResponseDtoType_Valid mailbox")
  case True
  then have "updateMailbox mailbox = Inr mailbox"
    by (auto simp: updateMailbox_def MailboxResponseDtoType_Valid_def)
  with True updateEach_log [of C token ids "\<lparr>up_IsFlagged = None, up_IsRead = None, up_Mailbox = Some mailbox\<rparr>" s "[]"]
  show ?thesis by (simp add: Move_def no_update_def) blast
next
  case False
  then have "\<exists>e. updateMailbox mailbox = Inl e"
    by (auto simp: updateMailbox_def MailboxResponseDtoType_Valid_def)
  with False show ?thesis by (auto simp: Move_def intro: exI [of _ 0])
qed

section \<open>Reading an encrypted email\<close>

text \<open>
  An email that cannot be opened is served exactly as it arrived, together with the reason; a
  plain one is left alone without a complaint; and one whose body is a sealed envelope for the
  account comes back with the sealed text as its HTML body and no envelope.
\<close>

theorem decryptBody_contract:
  "(case decryptBody D email account of
      (email', Some e) \<Rightarrow> email' = email \<and> IsEncryptedBody (deref (em_TextBody email))
    | (email', None) \<Rightarrow>
        if IsEncryptedBody (deref (em_TextBody email))
        then \<exists>envelope opened.
          ParseEnvelope (dp_envelope D) (deref (em_TextBody email)) = Inr envelope \<and>
          DecryptEnvelope (dp_prims D) (dp_unicode D) envelope (ac_PrivateKey account) (ac_Address account) = Inr opened \<and>
          email' = email\<lparr>em_HtmlBody := Some (pl_Text opened),
            em_TextBody := (if pl_Preview opened = [] then None else Some (pl_Preview opened)),
            em_Preview := (if pl_Preview opened = [] then em_Preview email else pl_Preview opened)\<rparr>
        else email' = email)"
  by (cases email) (auto simp: decryptBody_def Let_def split: sum.split)

text \<open>
  What a listing shows of a message, its snippet, is at most 256 bytes long: a prefix of the
  (non-empty) words of the text joined by single spaces.
\<close>

theorem snippet_bounded:
  "length (snippet text) \<le> 256 \<and>
   (\<exists>rest. snippet text @ rest = join (go_fields text) '' '') \<and>
   [] \<notin> set (go_fields text)"
proof -
  have "snippet text @ (if length (join (go_fields text) '' '') > 256
      then drop 256 (join (go_fields text) '' '') else []) = join (go_fields text) '' ''"
    by (simp add: snippet_def previewPlaintextLength_def Let_def)
  moreover have "length (snippet text) \<le> 256"
    by (simp add: snippet_def previewPlaintextLength_def Let_def)
  moreover have "[] \<notin> set (go_fields text)"
    using go_fields_nonempty by (auto simp: go_fields_def)
  ultimately show ?thesis by blast
qed

end
