(* ===== verification/ApiProps.thy ===== *)
theory ApiProps
  imports Api
begin

text \<open>
  What the retry loop of \<open>internal/api/do.go\<close> guarantees, for every behaviour of the network: how
  often a request is sent, how long the client waits, which outcome the caller sees, and when a
  failing service is ridden out.
\<close>

definition sent :: "http_event list \<Rightarrow> http_request list" where
  "sent evs = concat (map (\<lambda>e. case e of Sent q \<Rightarrow> [q] | Slept d \<Rightarrow> []) evs)"

definition slept :: "http_event list \<Rightarrow> int list" where
  "slept evs = concat (map (\<lambda>e. case e of Sent q \<Rightarrow> [] | Slept d \<Rightarrow> [d]) evs)"

lemma sent_simps [simp]:
  "sent [] = []" "sent (Sent q # evs) = q # sent evs" "sent (Slept d # evs) = sent evs"
  "sent (evs @ evs') = sent evs @ sent evs'"
  by (simp_all add: sent_def)

lemma slept_simps [simp]:
  "slept [] = []" "slept (Sent q # evs) = slept evs" "slept (Slept d # evs) = d # slept evs"
  "slept (evs @ evs') = slept evs @ slept evs'"
  by (simp_all add: slept_def)

text \<open>\<open>rand.Int63n(n)\<close> lies in \<open>[0, n)\<close>.\<close>

definition jitter_ok :: "http_env \<Rightarrow> bool" where
  "jitter_ok env = (\<forall>i n. 0 < n \<longrightarrow> 0 \<le> he_jitter env i n \<and> he_jitter env i n < n)"

lemma backoffFor_bounds:
  assumes "jitter_ok env" "1 < i" "i \<le> maxAttempts"
  shows "0 < backoffFor (he_jitter env i) i lastErr \<and>
    backoffFor (he_jitter env i) i lastErr \<le> maxBackoff"
proof -
  have i: "i = 2 \<or> i = 3" using assms(2,3) by (auto simp: maxAttempts_def)
  have j: "0 \<le> he_jitter env i n \<and> he_jitter env i n < n" if "0 < n" for n
    using assms(1) that by (simp add: jitter_ok_def)
  define d where "d = min (wrap64 (baseBackoff * wrap64 (2 ^ (i - 2)))) maxBackoff"
  have d: "d = 200000000 \<or> d = 400000000"
    using i by (auto simp: d_def wrap64_def baseBackoff_def maxBackoff_def)
  then have "0 < d + he_jitter env i (d div 2 + 1) \<and> d + he_jitter env i (d div 2 + 1) \<le> maxBackoff"
    using j [of "d div 2 + 1"] by (auto simp: maxBackoff_def)
  moreover have "0 < min (retryAfter a) maxBackoff \<and> min (retryAfter a) maxBackoff \<le> maxBackoff"
    if "0 < retryAfter a" for a
    using that by (simp add: maxBackoff_def)
  ultimately show ?thesis
    by (simp add: backoffFor_def Let_def d_def [symmetric] split: option.split)
qed

definition the_request :: "request \<Rightarrow> string \<Rightarrow> bytes option \<Rightarrow> http_request" where
  "the_request req endpoint payload =
     \<lparr>rq_Method = re_method req, rq_URL = endpoint,
      rq_Header = injectHeaders (headers (re_svc req)) (re_token req) payload (re_contentType req),
      rq_Body = payload\<rparr>"

lemma attempt_events:
  assumes "attempt env i req endpoint payload = (r, status, evs)"
  shows "slept evs = [] \<and> (sent evs = [] \<or> sent evs = [the_request req endpoint payload])"
  using assms
  by (auto simp: attempt_def Let_def the_request_def split: option.splits sum.splits if_splits)

lemma attempts_from_stop: "maxAttempts < i \<Longrightarrow> snd (attempts_from env req endpoint payload i e) = []"
  by (subst attempts_from.simps) (simp split: option.split)

text \<open>One unfolding of the loop, as the cases the proofs below distinguish.\<close>

lemma attempts_from_cases:
  assumes "i \<le> maxAttempts"
    and "attempts_from env req endpoint payload i lastErr = (r, evs)"
  obtains (sleep_failed) e d where "1 < i" "r = Inl e" "d = backoffFor (he_jitter env i) i lastErr"
      "he_sleep env i d = Some e" "evs = [Slept d]"
  | (finished) status evs' where
      "attempt env i req endpoint payload = (r, status, evs')"
      "evs = (if 1 < i then [Slept (backoffFor (he_jitter env i) i lastErr)] else []) @ evs'"
  | (again) e status evs' later where
      "attempt env i req endpoint payload = (Inl e, status, evs')"
      "isIdempotent (re_method req)" "i < maxAttempts"
      "attempts_from env req endpoint payload (Suc i) (Some e) = (r, later)"
      "evs = (if 1 < i then [Slept (backoffFor (he_jitter env i) i lastErr)] else []) @ evs' @ later"
proof -
  obtain ar status evs' where a: "attempt env i req endpoint payload = (ar, status, evs')"
    by (cases "attempt env i req endpoint payload")
  obtain r' later where l: "\<And>e. ar = Inl e \<Longrightarrow>
      attempts_from env req endpoint payload (Suc i) (Some e) = (r', later)"
    by (cases ar) (auto, metis surj_pair)
  show thesis
  proof (cases "if 1 < i then he_sleep env i (backoffFor (he_jitter env i) i lastErr) else None")
    case (Some e)
    with assms show thesis
      by (subst (asm) attempts_from.simps) (auto simp: Let_def split: if_splits intro: that(1))
  next
    case None
    show thesis
    proof (cases ar)
      case (Inr body)
      with assms a None show thesis
        by (subst (asm) attempts_from.simps) (auto simp: Let_def split: if_splits intro: that(2))
    next
      case (Inl e)
      note l' = l [OF Inl]
      show thesis
      proof (cases "\<not> (isIdempotent (re_method req) \<and> (status = 0 \<or> isRetryableStatus status)) \<or>
            i = maxAttempts \<or> he_ctx_done env i")
        case True
        with assms a None Inl show thesis
          by (subst (asm) attempts_from.simps) (simp only: Let_def prod.case sum.case option.case if_True, 
              auto split: if_splits intro: that(2))
      next
        case False
        from assms(2) have "r = r' \<and> evs = (if 1 < i then [Slept (backoffFor (he_jitter env i) i lastErr)] else []) @ evs' @ later"
          using assms(1) a None Inl l' False
          by (subst (asm) attempts_from.simps) (auto simp: Let_def split: if_splits)
        with False assms(1) a Inl l' show thesis by (intro that(3)) auto
      qed
    qed
  qed
qed

lemma attempts_from_discipline:
  assumes "jitter_ok env" "1 \<le> i" "i \<le> maxAttempts"
    and "attempts_from env req endpoint payload i lastErr = (r, evs)"
  shows "set (sent evs) \<subseteq> {the_request req endpoint payload} \<and>
    length (sent evs) \<le> (if isIdempotent (re_method req) then Suc maxAttempts - i else 1) \<and>
    set (slept evs) \<subseteq> {0<..maxBackoff} \<and>
    length (slept evs) \<le> (if isIdempotent (re_method req) then Suc maxAttempts - i else (if 1 < i then 1 else 0))"
  using assms
proof (induction "maxAttempts - i" arbitrary: i lastErr r evs)
  case (0 i)
  then have i: "i = maxAttempts" by simp
  have b: "0 < backoffFor (he_jitter env i) i lastErr \<and> backoffFor (he_jitter env i) i lastErr \<le> maxBackoff"
    by (rule backoffFor_bounds [OF 0(2)]) (simp_all add: i maxAttempts_def)
  show ?case
  proof (rule attempts_from_cases [OF 0(4,5)])
    fix status evs'
    assume "attempt env i req endpoint payload = (r, status, evs')"
      "evs = (if 1 < i then [Slept (backoffFor (he_jitter env i) i lastErr)] else []) @ evs'"
    with attempt_events [of env i req endpoint payload r status evs'] b show ?thesis
      by (auto simp: i)
  qed (use b i in auto)
next
  case (Suc n i)
  have b: "0 < backoffFor (he_jitter env i) i lastErr \<and> backoffFor (he_jitter env i) i lastErr \<le> maxBackoff"
    if "1 < i" by (rule backoffFor_bounds [OF Suc(3) that Suc(5)])
  show ?case
  proof (rule attempts_from_cases [OF Suc(5,6)])
    fix e d assume "1 < i" "r = Inl e" "d = backoffFor (he_jitter env i) i lastErr" "evs = [Slept d]"
    with b Suc(5) show ?thesis by auto
  next
    fix status evs'
    assume a: "attempt env i req endpoint payload = (r, status, evs')"
      "evs = (if 1 < i then [Slept (backoffFor (he_jitter env i) i lastErr)] else []) @ evs'"
    from attempt_events [OF a(1)] show ?thesis
      using b Suc(5) by (auto simp: a(2))
  next
    fix e status evs' later
    assume a: "attempt env i req endpoint payload = (Inl e, status, evs')"
      "isIdempotent (re_method req)" "i < maxAttempts"
      "attempts_from env req endpoint payload (Suc i) (Some e) = (r, later)"
      "evs = (if 1 < i then [Slept (backoffFor (he_jitter env i) i lastErr)] else []) @ evs' @ later"
    have "n = maxAttempts - (Suc i)" using Suc(2) by simp
    from Suc(1) [OF this Suc(3) _ _ a(4)] a(2,3)
    have l: "set (sent later) \<subseteq> {the_request req endpoint payload}"
      "length (sent later) \<le> maxAttempts - i" "set (slept later) \<subseteq> {0<..maxBackoff}"
      "length (slept later) \<le> maxAttempts - i" by auto
    have "length (sent evs') \<le> 1" "set (sent evs') \<subseteq> {the_request req endpoint payload}" "slept evs' = []"
      using attempt_events [OF a(1)] by auto
    with l b a(2,3) show ?thesis by (auto simp: a(5))
  qed
qed

lemma idempotent_methods:
  "isIdempotent m \<longleftrightarrow> m \<in> {''GET'', ''HEAD'', ''PUT'', ''DELETE'', ''OPTIONS''}"
  by (simp add: isIdempotent_def)

text \<open>
  C7: however the network behaves, a request is sent at most three times, and exactly the same
  request each time; one that is not idempotent (POST, PATCH) is sent at most once and never waited
  for; every wait is positive and at most five seconds, whatever the server's Retry-After says.
\<close>

theorem doRaw_discipline:
  assumes "jitter_ok env" and "doRaw json_marshal env req = (r, evs)"
  shows "(\<exists>q. set (sent evs) \<subseteq> {q} \<and> rq_Method q = re_method req) \<and>
    length (sent evs) \<le> (if re_method req \<in> {''GET'', ''HEAD'', ''PUT'', ''DELETE'', ''OPTIONS''} then 3 else 1) \<and>
    length (slept evs) \<le> (if re_method req \<in> {''GET'', ''HEAD'', ''PUT'', ''DELETE'', ''OPTIONS''} then 3 else 0) \<and>
    set (slept evs) \<subseteq> {0<..5000000000}"
proof (cases "encode_payload json_marshal (re_body req)")
  case (Inl e)
  with assms(2) show ?thesis
    by (auto simp: doRaw_def intro: exI [of _ "the_request req [] None"] simp: the_request_def)
next
  case (Inr payload)
  then obtain endpoint where a: "attempts_from env req endpoint payload 1 None = (r, evs)"
    using assms(2) by (auto simp: doRaw_def Let_def split: if_splits)
  have m: "rq_Method (the_request req endpoint payload) = re_method req"
    by (simp add: the_request_def)
  have "1 \<le> maxAttempts" by (simp add: maxAttempts_def)
  from attempts_from_discipline [OF assms(1) order_refl this a]
  have "set (sent evs) \<subseteq> {the_request req endpoint payload} \<and>
    length (sent evs) \<le> (if isIdempotent (re_method req) then maxAttempts else 1) \<and>
    set (slept evs) \<subseteq> {0<..maxBackoff} \<and>
    length (slept evs) \<le> (if isIdempotent (re_method req) then maxAttempts else 0)"
    by (simp split: if_splits)
  with m show ?thesis by (auto simp: maxBackoff_def maxAttempts_def idempotent_methods split: if_splits)
qed

theorem doRaw_discipline_witness:
  "let env = \<lparr>he_NewRequest = (\<lambda>m u. None), he_Do = (\<lambda>i q. Inl (ErrExt ''refused'')),
         he_jitter = (\<lambda>i n. 0), he_sleep = (\<lambda>i d. None), he_ctx_done = (\<lambda>i. False)\<rparr>;
       req = plain_request \<lparr>sv_baseURL = ''https://mail'', sv_client = ''mail-web''\<rparr> ''GET'' emailPath ''t''
   in length (sent (snd (doRaw (\<lambda>b. Inr []) env req))) \<le> 3 \<and>
      slept (snd (doRaw (\<lambda>b. Inr []) env req)) = [200000000, 400000000]"
proof -
  define env where "env = \<lparr>he_NewRequest = (\<lambda>m u. None), he_Do = (\<lambda>i q. Inl (ErrExt ''refused'')),
         he_jitter = (\<lambda>i n. 0), he_sleep = (\<lambda>i d. None), he_ctx_done = (\<lambda>i. False)\<rparr>"
  define req where "req = plain_request \<lparr>sv_baseURL = ''https://mail'', sv_client = ''mail-web''\<rparr>
    ''GET'' emailPath ''t''"
  have j: "jitter_ok env" by (simp add: jitter_ok_def env_def)
  have i: "isIdempotent (re_method req)" by (simp add: req_def plain_request_def isIdempotent_def)
  have "length (sent (snd (doRaw (\<lambda>b. Inr []) env req))) \<le> 3"
    using doRaw_discipline [OF j, of "\<lambda>b. Inr []" req] i
    by (cases "doRaw (\<lambda>b. Inr []) env req") (simp add: idempotent_methods)
  moreover have "slept (snd (doRaw (\<lambda>b. Inr []) env req)) = [200000000, 400000000]"
    by (simp add: env_def req_def doRaw_def encode_payload_def plain_request_def attempts_from.simps
        attempt_def maxAttempts_def isIdempotent_def backoffFor_def baseBackoff_def maxBackoff_def
        wrap64_def Let_def)
  ultimately show ?thesis by (simp add: env_def [symmetric] req_def [symmetric])
qed

section \<open>Outcomes\<close>

lemma truncate_length: "length (truncate_body s n) \<le> n + 3"
  by (simp add: truncate_body_def)

definition response_of :: "http_env \<Rightarrow> http_event list \<Rightarrow> http_response \<Rightarrow> bool" where
  "response_of env evs resp \<longleftrightarrow>
     (\<exists>i. 1 \<le> i \<and> i \<le> maxAttempts \<and> sent evs \<noteq> [] \<and> he_Do env i (last (sent evs)) = Inr resp)"

lemma response_of_later:
  "response_of env later resp \<Longrightarrow> response_of env (evs @ later) resp"
  by (auto simp: response_of_def)

definition faithful_outcome :: "http_env \<Rightarrow> err + bytes \<Rightarrow> http_event list \<Rightarrow> bool" where
  "faithful_outcome env r evs \<longleftrightarrow>
     (\<forall>body. r = Inr body \<longrightarrow>
        (\<exists>resp. response_of env evs resp \<and> rs_StatusCode resp < 300 \<and> rs_Body resp = Inr body)) \<and>
     (\<forall>a. r = Inl (ErrApi a) \<longrightarrow>
        (\<exists>resp. response_of env evs resp \<and> 300 \<le> rs_StatusCode resp \<and>
           StatusCode a = rs_StatusCode resp \<and> Err a = sentinelFor (rs_StatusCode resp) \<and>
           length (Body a) \<le> maxBodyInError + 3))"

lemma faithful_outcome_later:
  "faithful_outcome env r later \<Longrightarrow> faithful_outcome env r (evs @ later)"
  unfolding faithful_outcome_def using response_of_later by metis

lemma attempt_faithful:
  assumes a: "attempt env i req endpoint payload = (r, status, evs)" and i: "1 \<le> i" "i \<le> maxAttempts"
  shows "faithful_outcome env r evs"
proof -
  define q where "q = the_request req endpoint payload"
  have "response_of env evs resp" if "he_Do env i q = Inr resp" "sent evs = [q]" for resp
    using that i by (auto simp: response_of_def)
  then show ?thesis
    using a truncate_length [of _ maxBodyInError]
    by (auto simp: attempt_def Let_def faithful_outcome_def q_def [symmetric] the_request_def [symmetric]
        split: option.splits sum.splits if_splits)
qed

lemma attempts_from_faithful:
  assumes s: "\<And>i d. he_sleep env i d \<in> {None, Some (ErrSentinel ContextDone)}"
    and "1 \<le> i" "i \<le> maxAttempts"
    and "attempts_from env req endpoint payload i lastErr = (r, evs)"
  shows "faithful_outcome env r evs"
  using assms(2-)
proof (induction "maxAttempts - i" arbitrary: i lastErr r evs rule: less_induct)
  case less
  show ?case
  proof (rule attempts_from_cases [OF less(3,4)])
    fix e d assume e: "r = Inl e" "he_sleep env i d = Some e"
    with s [of i d] have "r = Inl (ErrSentinel ContextDone)" by auto
    then show ?thesis by (simp add: faithful_outcome_def)
  next
    fix status evs'
    assume "attempt env i req endpoint payload = (r, status, evs')"
      and evs: "evs = (if 1 < i then [Slept (backoffFor (he_jitter env i) i lastErr)] else []) @ evs'"
    from attempt_faithful [OF this(1) less(2,3)] show ?thesis
      unfolding evs by (rule faithful_outcome_later)
  next
    fix e status evs' later
    assume a: "i < maxAttempts" "attempts_from env req endpoint payload (Suc i) (Some e) = (r, later)"
      and evs: "evs = (if 1 < i then [Slept (backoffFor (he_jitter env i) i lastErr)] else []) @ evs' @ later"
    have "faithful_outcome env r later"
      by (rule less(1) [OF _ _ _ a(2)]) (use a(1) in auto)
    then show ?thesis
      unfolding evs append_assoc [symmetric] by (rule faithful_outcome_later)
  qed
qed

text \<open>
  The result is that of the last request sent. A success carries the body of a response with a
  status below 300; an API error carries the status of a response of 300 or more, the sentinel that
  status maps to, and at most 512 bytes of its body (and an ellipsis).
\<close>

theorem doRaw_outcome:
  assumes "\<And>i d. he_sleep env i d \<in> {None, Some (ErrSentinel ContextDone)}"
    and "doRaw json_marshal env req = (r, evs)"
  shows "case r of
      Inr body \<Rightarrow> \<exists>i resp. i \<in> {1..3} \<and> sent evs \<noteq> [] \<and> he_Do env i (last (sent evs)) = Inr resp \<and>
        rs_StatusCode resp < 300 \<and> rs_Body resp = Inr body
    | Inl (ErrApi a) \<Rightarrow> \<exists>i resp. i \<in> {1..3} \<and> sent evs \<noteq> [] \<and> he_Do env i (last (sent evs)) = Inr resp \<and>
        300 \<le> rs_StatusCode resp \<and> StatusCode a = rs_StatusCode resp \<and>
        Err a = sentinelFor (rs_StatusCode resp) \<and> length (Body a) \<le> 515
    | Inl e \<Rightarrow> True"
proof -
  have "faithful_outcome env r evs"
  proof (cases "encode_payload json_marshal (re_body req)")
    case (Inl e)
    then have "\<exists>e'. e = ErrWrap ''api: encode request'' e'"
      by (auto simp: encode_payload_def bind_err_Inl_iff wrap_err_Inl_iff
          split: option.splits request_body.splits)
    with Inl assms(2) show ?thesis by (auto simp: doRaw_def faithful_outcome_def)
  next
    case (Inr payload)
    then obtain endpoint where "attempts_from env req endpoint payload 1 None = (r, evs)"
      using assms(2) by (auto simp: doRaw_def Let_def split: if_splits)
    from attempts_from_faithful [OF assms(1) _ _ this] show ?thesis by (simp add: maxAttempts_def)
  qed
  then show ?thesis
    unfolding faithful_outcome_def response_of_def maxAttempts_def maxBodyInError_def
    by (cases r) (fastforce split: err.split)+
qed

definition down_twice :: http_env where
  "down_twice = \<lparr>he_NewRequest = (\<lambda>m u. None),
     he_Do = (\<lambda>i q. if i < 3 then Inr \<lparr>rs_StatusCode = 503, rs_Header = [(''Retry-After'', ''1'')],
          rs_Body = Inr (str_bytes ''busy'')\<rparr>
        else Inr \<lparr>rs_StatusCode = 200, rs_Header = [], rs_Body = Inr (str_bytes ''[]'')\<rparr>),
     he_jitter = (\<lambda>i n. 0), he_sleep = (\<lambda>i d. None), he_ctx_done = (\<lambda>i. False)\<rparr>"

definition mailboxes_request :: request where
  "mailboxes_request = plain_request \<lparr>sv_baseURL = ''https://mail'', sv_client = ''mail-web''\<rparr>
     ''GET'' emailMailboxesPath ''t''"

theorem doRaw_outcome_witness:
  "\<exists>i resp. i \<in> {1..3} \<and>
     he_Do down_twice i (last (sent (snd (doRaw (\<lambda>b. Inr []) down_twice mailboxes_request)))) = Inr resp \<and>
     rs_StatusCode resp < 300 \<and> rs_Body resp = Inr (str_bytes ''[]'')"
proof -
  have sl: "he_sleep down_twice i d \<in> {None, Some (ErrSentinel ContextDone)}" for i d
    by (simp add: down_twice_def)
  obtain r evs where d: "doRaw (\<lambda>b. Inr []) down_twice mailboxes_request = (r, evs)"
    by (cases "doRaw (\<lambda>b. Inr []) down_twice mailboxes_request")
  have "fst (doRaw (\<lambda>b. Inr []) down_twice mailboxes_request) = Inr (str_bytes ''[]'')"
    by (simp add: down_twice_def mailboxes_request_def doRaw_def encode_payload_def plain_request_def
        attempts_from.simps attempt_def maxAttempts_def isIdempotent_def isRetryableStatus_def Let_def)
  with d have r: "r = Inr (str_bytes ''[]'')" by simp
  from doRaw_outcome [OF sl d] show ?thesis unfolding r d by auto
qed

section \<open>Riding out a failing service\<close>

definition transient :: "http_env \<Rightarrow> nat \<Rightarrow> http_request \<Rightarrow> bool" where
  "transient env i q \<longleftrightarrow>
     (case he_Do env i q of Inl e \<Rightarrow> True | Inr resp \<Rightarrow> isRetryableStatus (rs_StatusCode resp))"

lemma attempt_transient:
  assumes "he_NewRequest env (re_method req) endpoint = None"
    and "transient env i (the_request req endpoint payload)"
  shows "\<exists>e status. attempt env i req endpoint payload =
      (Inl e, status, [Sent (the_request req endpoint payload)]) \<and> (status = 0 \<or> isRetryableStatus status)"
  using assms
  by (auto simp: attempt_def Let_def the_request_def transient_def isRetryableStatus_def split: sum.splits)

lemma attempts_from_recovers:
  assumes idem: "isIdempotent (re_method req)"
    and new: "he_NewRequest env (re_method req) endpoint = None"
    and calm: "\<And>j d. he_sleep env j d = None" "\<And>j. \<not> he_ctx_done env j"
    and ok: "attempt env k req endpoint payload = (Inr body, status, [Sent (the_request req endpoint payload)])"
    and down: "\<And>j. i \<le> j \<Longrightarrow> j < k \<Longrightarrow> transient env j (the_request req endpoint payload)"
    and k: "i \<le> k" "k \<le> maxAttempts"
  shows "\<exists>evs. attempts_from env req endpoint payload i lastErr = (Inr body, evs) \<and>
    length (sent evs) = k - i + 1"
  using down k
proof (induction "k - i" arbitrary: i lastErr)
  case 0
  then have "i = k" by simp
  with 0 ok calm show ?case by (subst attempts_from.simps) (simp add: Let_def)
next
  case (Suc n)
  then have ik: "i < k" by simp
  obtain e st where a: "attempt env i req endpoint payload =
      (Inl e, st, [Sent (the_request req endpoint payload)])" "st = 0 \<or> isRetryableStatus st"
    using attempt_transient [OF new, of i] Suc.prems(1) ik by blast
  have "\<exists>evs. attempts_from env req endpoint payload (Suc i) (Some e) = (Inr body, evs) \<and>
    length (sent evs) = k - Suc i + 1"
    by (rule Suc.hyps(1)) (use Suc.hyps(2) Suc.prems ik in auto)
  then obtain evs where l: "attempts_from env req endpoint payload (Suc i) (Some e) = (Inr body, evs)"
    "length (sent evs) = k - Suc i + 1" by blast
  show ?case
    using a l ik Suc.prems calm idem
    by (subst attempts_from.simps) (simp add: Let_def)
qed

text \<open>
  C33: a read rides out a failing service. If the first attempts of an idempotent request fail on
  the network or with a 429, 502, 503 or 504, attempt k (k at most 3) is answered with a
  status below 300, and nobody cancels, then the caller gets that answer, after exactly k requests.
\<close>

theorem doRaw_recovers:
  assumes "isIdempotent (re_method req)" "re_body req = None"
    and "\<And>m u. he_NewRequest env m u = None" "\<And>j d. he_sleep env j d = None" "\<And>j. \<not> he_ctx_done env j"
    and "\<And>j q. 1 \<le> j \<Longrightarrow> j < k \<Longrightarrow> transient env j q"
    and "\<And>q. he_Do env k q = Inr resp" "rs_StatusCode resp < 300" "rs_Body resp = Inr body"
    and "1 \<le> k" "k \<le> 3"
  shows "fst (doRaw json_marshal env req) = Inr body \<and>
    length (sent (snd (doRaw json_marshal env req))) = k"
proof -
  obtain endpoint where d: "doRaw json_marshal env req = attempts_from env req endpoint None 1 None"
    using assms(2) by (simp add: doRaw_def encode_payload_def Let_def)
  have "attempt env k req endpoint None = (Inr body, rs_StatusCode resp, [Sent (the_request req endpoint None)])"
    using assms(3,7,8,9) by (simp add: attempt_def the_request_def Let_def)
  from attempts_from_recovers [OF assms(1) assms(3) assms(4,5) this, of 1 None] assms(6,10,11)
  obtain evs where "attempts_from env req endpoint None 1 None = (Inr body, evs)" "length (sent evs) = k"
    by (auto simp: maxAttempts_def)
  with d show ?thesis by simp
qed

theorem doRaw_recovers_witness:
  "fst (doRaw (\<lambda>b. Inr []) down_twice mailboxes_request) = Inr (str_bytes ''[]'') \<and>
   length (sent (snd (doRaw (\<lambda>b. Inr []) down_twice mailboxes_request))) = 3"
  by (rule doRaw_recovers [where resp = "\<lparr>rs_StatusCode = 200, rs_Header = [], rs_Body = Inr (str_bytes ''[]'')\<rparr>"])
     (simp_all add: down_twice_def mailboxes_request_def plain_request_def isIdempotent_def
       transient_def isRetryableStatus_def)

section \<open>The name of an uploaded file\<close>

text \<open>
  How a reader of the form undoes a quoted-string parameter (RFC 2616, as \<open>mime.ParseMediaType\<close>
  does): a backslash stands for the character after it.
\<close>

fun unquote_pairs :: "string \<Rightarrow> string" where
  "unquote_pairs (c # d # s) = (if c = CHR 0x5C then d # unquote_pairs s else c # unquote_pairs (d # s))"
| "unquote_pairs s = s"

lemma escapeQuotes_simps [simp]:
  "escapeQuotes [] = []"
  "escapeQuotes (c # s) =
     (if c = CHR 0x5C \<or> c = CHR 0x22 then CHR 0x5C # c # escapeQuotes s else c # escapeQuotes s)"
  by (simp_all add: escapeQuotes_def)

lemma unquote_pairs_plain: "c \<noteq> CHR 0x5C \<Longrightarrow> unquote_pairs (c # s) = c # unquote_pairs s"
  by (cases s) auto

lemma unquote_escapeQuotes: "unquote_pairs (escapeQuotes s) = s"
  by (induction s) (auto simp: unquote_pairs_plain)

lemma quote_body_graphic:
  assumes "list_all (\<lambda>c. 32 \<le> (of_char c :: nat) \<and> (of_char c :: nat) < 127) s"
  shows "quote_body Q s = escapeQuotes s"
  using assms by (induction s) (auto simp: quote_ascii_def ascii_char_def Let_def)

lemma escapeQuotes_graphic:
  "list_all (\<lambda>c. 32 \<le> (of_char c :: nat) \<and> (of_char c :: nat) < 127) s \<Longrightarrow>
   list_all (\<lambda>c. 32 \<le> (of_char c :: nat) \<and> (of_char c :: nat) < 127) (escapeQuotes s)"
  by (induction s) auto

lemma length_escapeQuotes:
  "length (escapeQuotes s) = length s + length (filter (\<lambda>c. c = CHR 0x22 \<or> c = CHR 0x5C) s)"
  by (induction s) auto

lemma escapeQuotes_id_iff: "escapeQuotes s = s \<longleftrightarrow> CHR 0x22 \<notin> set s \<and> CHR 0x5C \<notin> set s"
proof
  assume "escapeQuotes s = s"
  then have "length (filter (\<lambda>c. c = CHR 0x22 \<or> c = CHR 0x5C) s) = 0"
    using length_escapeQuotes [of s] by simp
  then show "CHR 0x22 \<notin> set s \<and> CHR 0x5C \<notin> set s" by (auto simp: filter_empty_conv)
next
  assume "CHR 0x22 \<notin> set s \<and> CHR 0x5C \<notin> set s"
  then show "escapeQuotes s = s" by (induction s) auto
qed

text \<open>
  C34: the name of an uploaded file is escaped twice. The parameter written is the quoted form
  of the escaped name, so a reader who undoes the quoting once gets the escaped name: the file's own
  name exactly when that has neither a quote nor a backslash in it.
\<close>

theorem uploaded_name_escaped_twice:
  assumes "list_all (\<lambda>c. 32 \<le> (of_char c :: nat) \<and> (of_char c :: nat) < 127) name"
  shows "\<exists>param pre post. fst (attachmentForm Q boundary name contentType content) =
      str_bytes (pre @ ''; filename='' @ [CHR 0x22] @ param @ [CHR 0x22] @ crlf) @ post \<and>
    unquote_pairs param = escapeQuotes name \<and>
    (unquote_pairs param = name \<longleftrightarrow> CHR 0x22 \<notin> set name \<and> CHR 0x5C \<notin> set name)"
proof -
  let ?param = "escapeQuotes (escapeQuotes name)"
  have q: "go_quote Q (escapeQuotes name) = [CHR 0x22] @ ?param @ [CHR 0x22]"
    by (simp add: go_quote_def quote_body_graphic escapeQuotes_graphic [OF assms])
  have "\<exists>pre post. fst (attachmentForm Q boundary name contentType content) =
      str_bytes (pre @ ''; filename='' @ [CHR 0x22] @ ?param @ [CHR 0x22] @ crlf) @ post"
    unfolding attachmentForm_def Let_def q fst_conv
    by (intro exI [of _ "''--'' @ boundary @ crlf @ ''Content-Disposition: '' @ ''form-data; name='' @
          go_quote Q attachmentField"]) (simp add: str_bytes_def)
  moreover have "unquote_pairs ?param = escapeQuotes name" by (rule unquote_escapeQuotes)
  moreover note escapeQuotes_id_iff [of name]
  ultimately show ?thesis by metis
qed

theorem uploaded_name_escaped_twice_witness:
  "\<exists>param pre post. fst (attachmentForm id ''xYz'' ''a.txt'' ''text/plain'' []) =
      str_bytes (pre @ ''; filename='' @ [CHR 0x22] @ param @ [CHR 0x22] @ crlf) @ post \<and>
    unquote_pairs param = ''a.txt''"
proof -
  have "list_all (\<lambda>c. 32 \<le> (of_char c :: nat) \<and> (of_char c :: nat) < 127) ''a.txt''" by simp
  from uploaded_name_escaped_twice [OF this, of id "''xYz''" "''text/plain''" "[]"]
  show ?thesis by auto
qed

end
