(* ===== verification/Store.thy ===== *)
theory Store
  imports Stateful Symmetric
begin

text \<open>
  \<open>internal/store\<close>: what the bridge keeps between runs. Small values live in the system keychain,
  large ones in AES-GCM encrypted files whose keys live in the keychain (\<open>disk\<close>); \<open>router\<close> picks
  one by size, and \<open>Store\<close> keeps an index of the keys so that everything can be cleared.

  The Go interface \<open>backend\<close> is a record of operations on a state. The keyring library, the file
  system's faults, the random draws and SHA-256 are parameters: every OS call takes the head of a
  list of faults, \<open>None\<close> (or an empty list) meaning it goes through.
\<close>

record 's backend =
  bk_Get :: "string \<Rightarrow> ('s, bytes) op"
  bk_Set :: "string \<Rightarrow> bytes \<Rightarrow> ('s, unit) op"
  bk_Remove :: "string \<Rightarrow> ('s, unit) op"

definition keychainMaxBytes :: nat where
  "keychainMaxBytes = 3000"

section \<open>Keychains\<close>

text \<open>The keyring library: what \<open>keyring.Get\<close>, \<open>Set\<close> and \<open>Delete\<close> answer.\<close>

datatype 'a keyring_result = KeyringOk 'a | KeyringNotFound | KeyringErr err

record 's keyring =
  kr_Get :: "string \<Rightarrow> string \<Rightarrow> 's \<Rightarrow> string keyring_result \<times> 's"
  kr_Set :: "string \<Rightarrow> string \<Rightarrow> string \<Rightarrow> 's \<Rightarrow> unit keyring_result \<times> 's"
  kr_Delete :: "string \<Rightarrow> string \<Rightarrow> 's \<Rightarrow> unit keyring_result \<times> 's"

definition serviceName :: string where
  "serviceName = ''Internxt Mail Bridge''"

definition keychain_Get :: "'s keyring \<Rightarrow> string \<Rightarrow> ('s, bytes) op" where
  "keychain_Get K key s =
     (case kr_Get K serviceName key s of
       (KeyringNotFound, s) \<Rightarrow> (Inl (ErrSentinel StoreErrNotFound), s)
     | (KeyringErr e, s) \<Rightarrow> (Inl e, s)
     | (KeyringOk v, s) \<Rightarrow> (Inr (str_bytes v), s))"

definition keychain_Set :: "'s keyring \<Rightarrow> string \<Rightarrow> bytes \<Rightarrow> ('s, unit) op" where
  "keychain_Set K key v s =
     (case kr_Set K serviceName key (bytes_str v) s of
       (KeyringOk _, s) \<Rightarrow> (Inr (), s)
     | (KeyringNotFound, s) \<Rightarrow> (Inl (ErrExt ''keyring: secret not found''), s)
     | (KeyringErr e, s) \<Rightarrow> (Inl e, s))"

definition keychain_Remove :: "'s keyring \<Rightarrow> string \<Rightarrow> ('s, unit) op" where
  "keychain_Remove K key s =
     (case kr_Delete K serviceName key s of
       (KeyringOk _, s) \<Rightarrow> (Inr (), s)
     | (KeyringNotFound, s) \<Rightarrow> (Inr (), s)
     | (KeyringErr e, s) \<Rightarrow> (Inl e, s))"

definition keychain :: "'s keyring \<Rightarrow> 's backend" where
  "keychain K = \<lparr>bk_Get = keychain_Get K, bk_Set = keychain_Set K, bk_Remove = keychain_Remove K\<rparr>"

type_synonym memory = "string \<rightharpoonup> bytes"

definition memory_Get :: "string \<Rightarrow> (memory, bytes) op" where
  "memory_Get key m = (case m key of None \<Rightarrow> (Inl (ErrSentinel StoreErrNotFound), m) | Some v \<Rightarrow> (Inr v, m))"

definition memory_Set :: "string \<Rightarrow> bytes \<Rightarrow> (memory, unit) op" where
  "memory_Set key v m =
     (if keychainMaxBytes < length v then (Inl (ErrNew ''store: value too big for the keychain''), m)
      else (Inr (), m(key \<mapsto> v)))"

definition memory_Remove :: "string \<Rightarrow> (memory, unit) op" where
  "memory_Remove key m = (Inr (), m(key := None))"

definition memoryKeychain :: "memory backend" where
  "memoryKeychain = \<lparr>bk_Get = memory_Get, bk_Set = memory_Set, bk_Remove = memory_Remove\<rparr>"

section \<open>Hexadecimal\<close>

definition hex_alphabet :: string where
  "hex_alphabet = ''0123456789abcdef''"

definition hex_encode :: "bytes \<Rightarrow> string" where
  "hex_encode bs = concat (map (\<lambda>b. [hex_alphabet ! (unat b div 16), hex_alphabet ! (unat b mod 16)]) bs)"

definition hex_value :: "char \<Rightarrow> nat option" where
  "hex_value c =
     (let n = (of_char c :: nat) in
      if 48 \<le> n \<and> n \<le> 57 then Some (n - 48)
      else if 97 \<le> n \<and> n \<le> 102 then Some (n - 87)
      else if 65 \<le> n \<and> n \<le> 70 then Some (n - 55) else None)"

fun hex_decode :: "string \<Rightarrow> err + bytes" where
  "hex_decode [] = Inr []"
| "hex_decode [c] = Inl (ErrNew ''encoding/hex: odd length hex string'')"
| "hex_decode (c # d # s) =
     (case (hex_value c, hex_value d) of
       (Some x, Some y) \<Rightarrow> bind_err (hex_decode s) (\<lambda>bs. Inr (of_nat (x * 16 + y) # bs))
     | _ \<Rightarrow> Inl (ErrNew ''encoding/hex: invalid byte''))"

lemma hex_value_all: "\<forall>n \<in> set [0..<16]. hex_value (hex_alphabet ! n) = Some n"
  by code_simp

lemma hex_decode_encode [simp]: "hex_decode (hex_encode bs) = Inr bs"
proof (induction bs)
  case (Cons b bs)
  have b: "unat b < 256" using unsigned_less [of b] by simp
  have "unat b div 16 < 16" "unat b mod 16 < 16" using b by auto
  then have "hex_value (hex_alphabet ! (unat b div 16)) = Some (unat b div 16)"
    "hex_value (hex_alphabet ! (unat b mod 16)) = Some (unat b mod 16)"
    using hex_value_all by simp_all
  moreover have "unat b div 16 * 16 + unat b mod 16 = unat b" by simp
  ultimately show ?case using Cons by (simp add: hex_encode_def del: of_nat_add of_nat_mult)
qed (simp add: hex_encode_def)

lemma length_hex_encode [simp]: "length (hex_encode bs) = 2 * length bs"
  by (induction bs) (simp_all add: hex_encode_def)

section \<open>Encrypted files\<close>

definition dekSuffix :: string where "dekSuffix = ''.dek''"
definition dekLenBytes :: nat where "dekLenBytes = 32"

record 'k disk =
  dk_dir :: string
  dk_keys :: "'k backend"
  dk_prims :: prims
  dk_rand :: rand
  dk_sha256 :: "bytes \<Rightarrow> bytes"

record 'k disk_state =
  ds_keys :: 'k
  ds_files :: "string \<rightharpoonup> bytes"
  ds_io :: "err option list"
  ds_draws :: nat

text \<open>One OS call: the fault it meets, if any.\<close>

definition os_call :: "('k disk_state, unit) op" where
  "os_call s =
     (case ds_io s of
       [] \<Rightarrow> (Inr (), s)
     | f # fs \<Rightarrow> ((case f of None \<Rightarrow> Inr () | Some e \<Rightarrow> Inl e), s\<lparr>ds_io := fs\<rparr>))"

definition on_keys :: "('k, 'a) op \<Rightarrow> ('k disk_state, 'a) op" where
  "on_keys f s = (case f (ds_keys s) of (r, k) \<Rightarrow> (r, s\<lparr>ds_keys := k\<rparr>))"

definition rand_Read :: "'k disk \<Rightarrow> nat \<Rightarrow> ('k disk_state, bytes) op" where
  "rand_Read d n s = (dk_rand d (ds_draws s) n, s\<lparr>ds_draws := ds_draws s + 1\<rparr>)"

definition disk_path :: "'k disk \<Rightarrow> string \<Rightarrow> string" where
  "disk_path d key = dk_dir d @ ''/'' @ hex_encode (dk_sha256 d (str_bytes key)) @ ''.enc''"

definition newAEAD :: "bytes \<Rightarrow> err + bytes" where
  "newAEAD dek = (if aes_key_ok dek then Inr dek
     else Inl (ErrWrap ''store: create cipher'' (ErrNew ''crypto/aes: invalid key size'')))"

definition disk_seal :: "'k disk \<Rightarrow> bytes \<Rightarrow> bytes \<Rightarrow> ('k disk_state, bytes) op" where
  "disk_seal d dek plaintext s =
     (case newAEAD dek of
       Inl e \<Rightarrow> (Inl e, s)
     | Inr aead \<Rightarrow>
         bind_st (wrap_st ''store: generate nonce'' (rand_Read d 12 s)) (\<lambda>nonce s.
         (Inr (nonce @ gcm_seal (dk_prims d) aead nonce plaintext []), s)))"

definition disk_open :: "prims \<Rightarrow> bytes \<Rightarrow> bytes \<Rightarrow> err + bytes" where
  "disk_open E dek sealed =
     bind_err (newAEAD dek) (\<lambda>aead.
     if length sealed < 12 then Inl (ErrNew ''store: stored value is truncated'')
     else case gcm_open E aead (take 12 sealed) (drop 12 sealed) [] of
         None \<Rightarrow> Inl (ErrWrap ''store: decrypt value'' (ErrNew ''cipher: message authentication failed''))
       | Some plaintext \<Rightarrow> Inr plaintext)"

definition read_file :: "string \<Rightarrow> ('k disk_state, bytes) op" where
  "read_file path s =
     (case os_call s of
       (Inl e, s) \<Rightarrow> (Inl (ErrWrap ''store: read value'' e), s)
     | (Inr _, s) \<Rightarrow>
         (case ds_files s path of
           None \<Rightarrow> (Inl (ErrSentinel StoreErrNotFound), s)
         | Some content \<Rightarrow> (Inr content, s)))"

text \<open>
  Create, chmod, write, sync, close, rename: the file changes only when all six go through. The
  temporary file is gone afterwards in every case.
\<close>

definition writeFileAtomic :: "string \<Rightarrow> bytes \<Rightarrow> ('k disk_state, unit) op" where
  "writeFileAtomic path data s =
     bind_st (wrap_st ''store: create temp file'' (os_call s)) (\<lambda>_ s.
     bind_st (wrap_st ''store: set permissions'' (os_call s)) (\<lambda>_ s.
     bind_st (wrap_st ''store: write value'' (os_call s)) (\<lambda>_ s.
     bind_st (wrap_st ''store: sync value'' (os_call s)) (\<lambda>_ s.
     bind_st (wrap_st ''store: close value'' (os_call s)) (\<lambda>_ s.
     bind_st (wrap_st ''store: replace value'' (os_call s)) (\<lambda>_ s.
     (Inr (), s\<lparr>ds_files := (ds_files s)(path \<mapsto> data)\<rparr>)))))))"

definition disk_Get :: "'k disk \<Rightarrow> string \<Rightarrow> ('k disk_state, bytes) op" where
  "disk_Get d key s =
     bind_st (read_file (disk_path d key) s) (\<lambda>sealed s.
     bind_st (wrap_st ''store: read encryption key'' (on_keys (bk_Get (dk_keys d) (key @ dekSuffix)) s)) (\<lambda>encoded s.
     (bind_err (wrap_err ''store: decode encryption key'' (hex_decode (bytes_str encoded)))
        (\<lambda>dek. disk_open (dk_prims d) dek sealed), s)))"

definition disk_Set :: "'k disk \<Rightarrow> string \<Rightarrow> bytes \<Rightarrow> ('k disk_state, unit) op" where
  "disk_Set d key v s =
     bind_st (wrap_st ''store: generate encryption key'' (rand_Read d dekLenBytes s)) (\<lambda>dek s.
     bind_st (disk_seal d dek v s) (\<lambda>sealed s.
     bind_st (wrap_st ''store: save encryption key''
       (on_keys (bk_Set (dk_keys d) (key @ dekSuffix) (str_bytes (hex_encode dek))) s)) (\<lambda>_ s.
     writeFileAtomic (disk_path d key) sealed s)))"

definition disk_Remove :: "'k disk \<Rightarrow> string \<Rightarrow> ('k disk_state, unit) op" where
  "disk_Remove d key s =
     bind_st (wrap_st ''store: remove value'' (os_call s)) (\<lambda>_ s.
     on_keys (bk_Remove (dk_keys d) (key @ dekSuffix))
       (s\<lparr>ds_files := (ds_files s)(disk_path d key := None)\<rparr>))"

definition disk_backend :: "'k disk \<Rightarrow> 'k disk_state backend" where
  "disk_backend d = \<lparr>bk_Get = disk_Get d, bk_Set = disk_Set d, bk_Remove = disk_Remove d\<rparr>"

section \<open>Routing by size\<close>

text \<open>The keychain of a router is the one its disk keeps the file keys in.\<close>

definition router_Get :: "'k disk \<Rightarrow> string \<Rightarrow> ('k disk_state, bytes) op" where
  "router_Get d key s =
     (case on_keys (bk_Get (dk_keys d) key) s of
       (Inr v, s) \<Rightarrow> (Inr v, s)
     | (Inl e, s) \<Rightarrow>
         if \<not> errors_is e StoreErrNotFound then (Inl (ErrWrap ''store: read value'' e), s)
         else disk_Get d key s)"

definition backendFor_disk :: "nat \<Rightarrow> bool" where
  "backendFor_disk sz = (\<not> sz \<le> keychainMaxBytes)"

definition router_Set :: "'k disk \<Rightarrow> string \<Rightarrow> bytes \<Rightarrow> ('k disk_state, unit) op" where
  "router_Set d key v s =
     (if backendFor_disk (length v)
      then bind_st (disk_Set d key v s) (\<lambda>_. on_keys (bk_Remove (dk_keys d) key))
      else bind_st (on_keys (bk_Set (dk_keys d) key v) s) (\<lambda>_. disk_Remove d key))"

definition err_of :: "err + 'a \<Rightarrow> err option" where
  "err_of r = (case r of Inl e \<Rightarrow> Some e | Inr _ \<Rightarrow> None)"

definition join_result :: "err option list \<Rightarrow> err + unit" where
  "join_result es = (case errors_join es of None \<Rightarrow> Inr () | Some e \<Rightarrow> Inl e)"

definition router_Remove :: "'k disk \<Rightarrow> string \<Rightarrow> ('k disk_state, unit) op" where
  "router_Remove d key s =
     (let (r1, s) = on_keys (bk_Remove (dk_keys d) key) s;
          (r2, s) = disk_Remove d key s
      in (join_result [err_of r1, err_of r2], s))"

definition router :: "'k disk \<Rightarrow> 'k disk_state backend" where
  "router d = \<lparr>bk_Get = router_Get d, bk_Set = router_Set d, bk_Remove = router_Remove d\<rparr>"

section \<open>The store\<close>

text \<open>
  \<open>New\<close>: why the store of a state directory could not be opened, when it could not; \<open>made\<close> is what
  \<open>os.MkdirAll\<close> answers. The store that is opened is the router over the keychain and that directory.
\<close>

definition store_New :: "string \<Rightarrow> err option \<Rightarrow> err option" where
  "store_New stateDir made =
     (if stateDir = [] then Some (ErrNew ''store: state directory is required'')
      else map_option (ErrWrap ''store: create state directory'') made)"

definition indexKey :: string where
  "indexKey = ''__index''"

text \<open>The JSON form of the index.\<close>

record index_codec =
  ix_marshal :: "string list \<Rightarrow> bytes"
  ix_unmarshal :: "bytes \<Rightarrow> err + string list"

definition store_index :: "index_codec \<Rightarrow> 's backend \<Rightarrow> ('s, string list) op" where
  "store_index J B s =
     (case bk_Get B indexKey s of
       (Inl e, s) \<Rightarrow>
         if errors_is e StoreErrNotFound then (Inr [], s) else (Inl (ErrWrap ''store: read index'' e), s)
     | (Inr raw, s) \<Rightarrow> (wrap_err ''store: decode index'' (ix_unmarshal J raw), s))"

definition saveIndex :: "index_codec \<Rightarrow> 's backend \<Rightarrow> string list \<Rightarrow> ('s, unit) op" where
  "saveIndex J B keys s = wrap_st ''store: save index'' (bk_Set B indexKey (ix_marshal J keys) s)"

definition addToIndex :: "index_codec \<Rightarrow> 's backend \<Rightarrow> string \<Rightarrow> ('s, unit) op" where
  "addToIndex J B key s =
     bind_st (store_index J B s) (\<lambda>keys s.
     if key \<in> set keys then (Inr (), s) else saveIndex J B (keys @ [key]) s)"

definition dropFromIndex :: "index_codec \<Rightarrow> 's backend \<Rightarrow> string \<Rightarrow> ('s, unit) op" where
  "dropFromIndex J B key s =
     bind_st (store_index J B s) (\<lambda>keys. saveIndex J B (filter (\<lambda>k. k \<noteq> key) keys))"

definition store_Set :: "index_codec \<Rightarrow> 's backend \<Rightarrow> string \<Rightarrow> bytes \<Rightarrow> ('s, unit) op" where
  "store_Set J B key v s =
     (if key = [] then (Inl (ErrNew ''store: key is required''), s)
      else bind_st (bk_Set B key v s) (\<lambda>_. addToIndex J B key))"

definition store_Get :: "'s backend \<Rightarrow> string \<Rightarrow> ('s, bytes) op" where
  "store_Get B key = bk_Get B key"

definition store_Remove :: "index_codec \<Rightarrow> 's backend \<Rightarrow> string \<Rightarrow> ('s, unit) op" where
  "store_Remove J B key s = bind_st (bk_Remove B key s) (\<lambda>_. dropFromIndex J B key)"

definition store_Keys :: "index_codec \<Rightarrow> 's backend \<Rightarrow> ('s, string list) op" where
  "store_Keys J B = store_index J B"

text \<open>The loop of \<open>Clear\<close>: the errors of the removals, and the state after them.\<close>

fun remove_each :: "'s backend \<Rightarrow> string list \<Rightarrow> 's \<Rightarrow> err option list \<times> 's" where
  "remove_each B [] s = ([], s)"
| "remove_each B (key # keys) s =
     (let (r, s) = bk_Remove B key s; (es, s) = remove_each B keys s in (err_of r # es, s))"

definition store_Clear :: "index_codec \<Rightarrow> 's backend \<Rightarrow> ('s, unit) op" where
  "store_Clear J B s =
     bind_st (store_index J B s) (\<lambda>keys s.
       let (es, s) = remove_each B (keys @ [indexKey]) s in (join_result es, s))"

definition SetJSON :: "index_codec \<Rightarrow> 's backend \<Rightarrow> ('a \<Rightarrow> err + bytes) \<Rightarrow> string \<Rightarrow> 'a \<Rightarrow> ('s, unit) op" where
  "SetJSON J B marshal key v s =
     (case wrap_err ''store: encode value'' (marshal v) of
       Inl e \<Rightarrow> (Inl e, s)
     | Inr raw \<Rightarrow> store_Set J B key raw s)"

definition GetJSON :: "'s backend \<Rightarrow> (bytes \<Rightarrow> err + 'a) \<Rightarrow> string \<Rightarrow> ('s, 'a) op" where
  "GetJSON B unmarshal key s =
     bind_st (store_Get B key s) (\<lambda>raw s. (wrap_err ''store: decode value'' (unmarshal raw), s))"

end
