(* ===== verification/StoreProps.thy ===== *)
theory StoreProps
  imports Store
begin

text \<open>
  The contract of the Go interface \<open>backend\<close> as a locale, over an abstract map of what is stored:
  reading gives what was last written, a removed key is absent, and nothing else changes. The
  in-memory keychain and the system keychain meet it, the router over any keychain that meets it
  meets it too, and the store's index is proved correct over any backend that does.
\<close>

section \<open>The contract\<close>

locale backend_contract =
  fixes B :: "'s backend"
    and good :: "'s \<Rightarrow> bool"
    and content :: "'s \<Rightarrow> string \<Rightarrow> bytes option"
    and key_ok :: "string \<Rightarrow> bool"
    and val_ok :: "bytes \<Rightarrow> bool"
  assumes get_found: "good s \<Longrightarrow> key_ok k \<Longrightarrow> content s k = Some v \<Longrightarrow>
      \<exists>s'. bk_Get B k s = (Inr v, s') \<and> good s' \<and> content s' = content s"
    and get_absent: "good s \<Longrightarrow> key_ok k \<Longrightarrow> content s k = None \<Longrightarrow>
      \<exists>e s'. bk_Get B k s = (Inl e, s') \<and> errors_is e StoreErrNotFound \<and> good s' \<and> content s' = content s"
    and set_stores: "good s \<Longrightarrow> key_ok k \<Longrightarrow> val_ok v \<Longrightarrow>
      \<exists>s'. bk_Set B k v s = (Inr (), s') \<and> good s' \<and> content s' = (content s)(k \<mapsto> v)"
    and remove_drops: "good s \<Longrightarrow> key_ok k \<Longrightarrow>
      \<exists>s'. bk_Remove B k s = (Inr (), s') \<and> good s' \<and> content s' = (content s)(k := None)"
begin

lemma remove_each_drops:
  "good s \<Longrightarrow> \<forall>k \<in> set ks. key_ok k \<Longrightarrow>
     \<exists>es s'. remove_each B ks s = (es, s') \<and> set es \<subseteq> {None} \<and> good s' \<and>
       content s' = (\<lambda>k. if k \<in> set ks then None else content s k)"
proof (induction ks arbitrary: s)
  case (Cons k ks)
  obtain s1 where r: "bk_Remove B k s = (Inr (), s1)" "good s1" "content s1 = (content s)(k := None)"
    using remove_drops [of s k] Cons.prems by auto
  from Cons.IH [OF r(2)] Cons.prems(2) obtain es s' where
    "remove_each B ks s1 = (es, s')" "set es \<subseteq> {None}" "good s'"
    "content s' = (\<lambda>k. if k \<in> set ks then None else content s1 k)" by auto
  then show ?case using r by (auto simp: err_of_def fun_eq_iff)
qed auto

end

section \<open>A store over a backend\<close>

text \<open>Sequences of writes and removals, on the abstract map and on the store.\<close>

datatype store_op = OpSet string bytes | OpRemove string

fun op_key :: "store_op \<Rightarrow> string" where
  "op_key (OpSet k v) = k"
| "op_key (OpRemove k) = k"

fun op_values :: "store_op \<Rightarrow> bytes list" where
  "op_values (OpSet k v) = [v]"
| "op_values (OpRemove k) = []"

fun apply_op :: "store_op \<Rightarrow> memory \<Rightarrow> memory" where
  "apply_op (OpSet k v) m = m(k \<mapsto> v)"
| "apply_op (OpRemove k) m = m(k := None)"

fun run_op :: "index_codec \<Rightarrow> 's backend \<Rightarrow> store_op \<Rightarrow> ('s, unit) op" where
  "run_op J B (OpSet k v) s = store_Set J B k v s"
| "run_op J B (OpRemove k) s = store_Remove J B k s"

fun run_ops :: "index_codec \<Rightarrow> 's backend \<Rightarrow> store_op list \<Rightarrow> ('s, unit) op" where
  "run_ops J B [] s = (Inr (), s)"
| "run_ops J B (x # ops) s = bind_st (run_op J B x s) (\<lambda>_. run_ops J B ops)"

lemma apply_op_cong: "m k = m' k \<Longrightarrow> apply_op x m k = apply_op x m' k"
  by (cases x) auto

lemma fold_apply_op_cong: "m k = m' k \<Longrightarrow> fold apply_op ops m k = fold apply_op ops m' k"
proof (induction ops arbitrary: m m')
  case (Cons x ops)
  have "apply_op x m k = apply_op x m' k" by (rule apply_op_cong) (rule Cons.prems)
  then show ?case using Cons.IH [where m = "apply_op x m" and m' = "apply_op x m'"] by simp
qed simp

locale indexed_store = backend_contract +
  fixes J :: index_codec
  assumes index_key: "key_ok indexKey"
    and index_val: "val_ok (ix_marshal J ks)"
    and index_codec: "ix_unmarshal J (ix_marshal J ks) = Inr ks"
begin

definition holds_index :: "'a \<Rightarrow> string list \<Rightarrow> bool" where
  "holds_index s ks \<longleftrightarrow>
     (content s indexKey = None \<and> ks = [] \<or> content s indexKey = Some (ix_marshal J ks)) \<and>
     distinct ks \<and> set ks = dom (content s) - {indexKey}"

lemma empty_holds_index: "content s = Map.empty \<Longrightarrow> holds_index s []"
  by (simp add: holds_index_def)

lemma store_index_reads:
  assumes "good s" "content s indexKey = None \<and> ks = [] \<or> content s indexKey = Some (ix_marshal J ks)"
  shows "\<exists>s'. store_index J B s = (Inr ks, s') \<and> good s' \<and> content s' = content s"
  using get_absent [OF assms(1) index_key] get_found [OF assms(1) index_key, of "ix_marshal J ks"]
    assms(2) index_codec [of ks]
  by (auto simp: store_index_def)

lemma saveIndex_writes:
  assumes "good s"
  shows "\<exists>s'. saveIndex J B ks s = (Inr (), s') \<and> good s' \<and>
    content s' = (content s)(indexKey \<mapsto> ix_marshal J ks)"
  using set_stores [OF assms index_key index_val, of ks] by (auto simp: saveIndex_def)

lemma store_Set_stores:
  assumes s: "good s" "holds_index s ks" and k: "key_ok k" "k \<noteq> []" "k \<noteq> indexKey" and v: "val_ok v"
  shows "\<exists>s' ks'. store_Set J B k v s = (Inr (), s') \<and> good s' \<and> holds_index s' ks' \<and>
    (\<forall>k'. k' \<noteq> indexKey \<longrightarrow> content s' k' = ((content s)(k \<mapsto> v)) k')"
proof -
  obtain s1 where s1: "bk_Set B k v s = (Inr (), s1)" "good s1" "content s1 = (content s)(k \<mapsto> v)"
    using set_stores [OF s(1) k(1) v] by blast
  obtain s2 where s2: "store_index J B s1 = (Inr ks, s2)" "good s2" "content s2 = content s1"
    using store_index_reads [OF s1(2), of ks] s(2) k(3) s1(3) by (auto simp: holds_index_def)
  show ?thesis
  proof (cases "k \<in> set ks")
    case True
    then have "holds_index s2 ks"
      using s(2) k(3) by (auto simp: holds_index_def s2(3) s1(3))
    with True s1 s2 k(2) show ?thesis
      by (intro exI [of _ s2] exI [of _ ks]) (simp add: store_Set_def addToIndex_def)
  next
    case False
    obtain s3 where s3: "saveIndex J B (ks @ [k]) s2 = (Inr (), s3)" "good s3"
      "content s3 = (content s2)(indexKey \<mapsto> ix_marshal J (ks @ [k]))"
      using saveIndex_writes [OF s2(2)] by blast
    have "holds_index s3 (ks @ [k])"
      using s(2) k(3) False by (auto simp: holds_index_def s3(3) s2(3) s1(3))
    with False s1 s2 s3 k(2) show ?thesis
      by (intro exI [of _ s3] exI [of _ "ks @ [k]"]) (simp add: store_Set_def addToIndex_def)
  qed
qed

lemma store_Remove_drops:
  assumes s: "good s" "holds_index s ks" and k: "key_ok k" "k \<noteq> indexKey"
  shows "\<exists>s' ks'. store_Remove J B k s = (Inr (), s') \<and> good s' \<and> holds_index s' ks' \<and>
    (\<forall>k'. k' \<noteq> indexKey \<longrightarrow> content s' k' = ((content s)(k := None)) k')"
proof -
  obtain s1 where s1: "bk_Remove B k s = (Inr (), s1)" "good s1" "content s1 = (content s)(k := None)"
    using remove_drops [OF s(1) k(1)] by blast
  obtain s2 where s2: "store_index J B s1 = (Inr ks, s2)" "good s2" "content s2 = content s1"
    using store_index_reads [OF s1(2), of ks] s(2) k(2) s1(3) by (auto simp: holds_index_def)
  let ?ks = "filter (\<lambda>x. x \<noteq> k) ks"
  obtain s3 where s3: "saveIndex J B ?ks s2 = (Inr (), s3)" "good s3"
    "content s3 = (content s2)(indexKey \<mapsto> ix_marshal J ?ks)"
    using saveIndex_writes [OF s2(2)] by blast
  have "holds_index s3 ?ks"
    using s(2) k(2) by (auto simp: holds_index_def s3(3) s2(3) s1(3))
  with s1 s2 s3 show ?thesis
    by (intro exI [of _ s3] exI [of _ ?ks]) (simp add: store_Remove_def dropFromIndex_def)
qed

lemma store_Get_reads:
  assumes "good s" "key_ok k"
  shows "\<exists>r s'. store_Get B k s = (r, s') \<and> good s' \<and> content s' = content s \<and>
    (case content s k of Some v \<Rightarrow> r = Inr v | None \<Rightarrow> \<exists>e. r = Inl e \<and> errors_is e StoreErrNotFound)"
  using get_found [OF assms] get_absent [OF assms]
  by (cases "content s k") (auto simp: store_Get_def)

lemma store_Keys_lists:
  assumes "good s" "holds_index s ks"
  shows "\<exists>s'. store_Keys J B s = (Inr ks, s') \<and> good s' \<and> content s' = content s"
  using store_index_reads [OF assms(1), of ks] assms(2) by (auto simp: holds_index_def store_Keys_def)

lemma run_ops_refines:
  "good s \<Longrightarrow> holds_index s ks \<Longrightarrow>
   \<forall>x \<in> set ops. key_ok (op_key x) \<and> op_key x \<noteq> [] \<and> op_key x \<noteq> indexKey \<and> list_all val_ok (op_values x) \<Longrightarrow>
     \<exists>s' ks'. run_ops J B ops s = (Inr (), s') \<and> good s' \<and> holds_index s' ks' \<and>
       (\<forall>k. k \<noteq> indexKey \<longrightarrow> content s' k = fold apply_op ops (content s) k)"
proof (induction ops arbitrary: s ks)
  case (Cons x ops)
  obtain s1 ks1 where s1: "run_op J B x s = (Inr (), s1)" "good s1" "holds_index s1 ks1"
    "\<forall>k. k \<noteq> indexKey \<longrightarrow> content s1 k = apply_op x (content s) k"
  proof (cases x)
    case (OpSet k v)
    with store_Set_stores [OF Cons.prems(1,2), of k v] Cons.prems(3) that show thesis by auto
  next
    case (OpRemove k)
    with store_Remove_drops [OF Cons.prems(1,2), of k] Cons.prems(3) that show thesis by auto
  qed
  from Cons.IH [OF s1(2,3)] Cons.prems(3) obtain s' ks' where
    s': "run_ops J B ops s1 = (Inr (), s')" "good s'" "holds_index s' ks'"
      "\<forall>k. k \<noteq> indexKey \<longrightarrow> content s' k = fold apply_op ops (content s1) k" by auto
  have "fold apply_op ops (content s1) k = fold apply_op ops (apply_op x (content s)) k" if "k \<noteq> indexKey" for k
    by (rule fold_apply_op_cong) (use s1(4) that in auto)
  with s1(1) s' show ?case by auto
qed auto

lemma store_Clear_empties:
  assumes s: "good s" "holds_index s ks" and keys: "dom (content s) \<subseteq> {k. key_ok k}"
  shows "\<exists>s'. store_Clear J B s = (Inr (), s') \<and> good s' \<and> content s' = Map.empty"
proof -
  obtain s1 where s1: "store_index J B s = (Inr ks, s1)" "good s1" "content s1 = content s"
    using store_index_reads [OF s(1), of ks] s(2) by (auto simp: holds_index_def)
  have "\<forall>k \<in> set (ks @ [indexKey]). key_ok k"
    using s(2) keys index_key by (auto simp: holds_index_def)
  from remove_each_drops [OF s1(2) this] obtain es s' where
    r: "remove_each B (ks @ [indexKey]) s1 = (es, s')" "set es \<subseteq> {None}" "good s'"
      "content s' = (\<lambda>k. if k \<in> set (ks @ [indexKey]) then None else content s1 k)" by blast
  have "errors_join es = None" using r(2) by auto
  then have j: "join_result es = Inr ()" unfolding join_result_def by (simp only: option.case)
  have "content s' = Map.empty"
    using s(2) s1(3) by (auto simp: r(4) holds_index_def fun_eq_iff dom_def)
  then show ?thesis using s1 r j by (simp add: store_Clear_def)
qed

end

section \<open>Keychains\<close>

text \<open>A keychain takes every key and every value up to its size limit.\<close>

locale keychain_contract =
  backend_contract B good content "\<lambda>_. True" "\<lambda>v. length v \<le> keychainMaxBytes"
  for B :: "'s backend" and good :: "'s \<Rightarrow> bool" and content :: "'s \<Rightarrow> string \<Rightarrow> bytes option"

interpretation mem: keychain_contract memoryKeychain "\<lambda>_. True" "\<lambda>m. m"
  by unfold_locales
    (auto simp: memoryKeychain_def memory_Get_def memory_Set_def memory_Remove_def)

text \<open>A keyring that keeps its secrets by service and name, as the keyring library documents.\<close>

type_synonym secrets = "(string \<times> string) \<rightharpoonup> string"

definition map_keyring :: "secrets keyring" where
  "map_keyring =
     \<lparr>kr_Get = (\<lambda>svc key m. (case m (svc, key) of None \<Rightarrow> KeyringNotFound | Some v \<Rightarrow> KeyringOk v, m)),
      kr_Set = (\<lambda>svc key v m. (KeyringOk (), m((svc, key) \<mapsto> v))),
      kr_Delete = (\<lambda>svc key m. (if m (svc, key) = None then KeyringNotFound else KeyringOk (), m((svc, key) := None)))\<rparr>"

lemma map_keychain_simps:
  "bk_Get (keychain map_keyring) k m =
     (case m (serviceName, k) of None \<Rightarrow> (Inl (ErrSentinel StoreErrNotFound), m) | Some v \<Rightarrow> (Inr (str_bytes v), m))"
  "bk_Set (keychain map_keyring) k v m = (Inr (), m((serviceName, k) \<mapsto> bytes_str v))"
  "bk_Remove (keychain map_keyring) k m = (Inr (), m((serviceName, k) := None))"
  by (auto simp: keychain_def keychain_Get_def keychain_Set_def keychain_Remove_def map_keyring_def
      split: option.split)

interpretation kc: keychain_contract "keychain map_keyring" "\<lambda>_. True"
    "\<lambda>m key. map_option str_bytes (m (serviceName, key))"
  by unfold_locales (auto simp: map_keychain_simps)

section \<open>The router\<close>

text \<open>
  The router over a keychain. Keys ending in the suffix of the file keys are outside its contract:
  they would collide with the entries \<open>disk\<close> keeps for itself. \<open>K\<close> is the set of keys in use, on
  which the file names must not collide, and \<open>others\<close> are the files that are not the store's.
\<close>

definition value_key :: "string set \<Rightarrow> string \<Rightarrow> bool" where
  "value_key K k \<longleftrightarrow> k \<in> K \<and> \<not> has_suffix k dekSuffix"

definition file_content :: "prims \<Rightarrow> bytes option \<Rightarrow> bytes option \<Rightarrow> bytes option" where
  "file_content E sealed encoded =
     (case (sealed, encoded) of
       (Some f, Some enc) \<Rightarrow>
         (case bind_err (hex_decode (bytes_str enc)) (\<lambda>dek. disk_open E dek f) of
           Inr v \<Rightarrow> Some v | Inl e \<Rightarrow> None)
     | _ \<Rightarrow> None)"

locale encrypted_router = keychain_contract +
  fixes d :: "'a disk" and K :: "string set" and others :: "string \<rightharpoonup> bytes"
  assumes keys_are: "dk_keys d = B"
    and paths_differ: "inj_on (disk_path d) K"
    and gcm: "gcm_ok (dk_prims d)"
    and draws: "rand_ok (dk_rand d)" "\<And>i n. is_ok (dk_rand d i n)"
    and not_ours: "\<forall>k \<in> K. others (disk_path d k) = None"
begin

definition router_content :: "'a disk_state \<Rightarrow> string \<Rightarrow> bytes option" where
  "router_content s k =
     (if value_key K k then
        (case content (ds_keys s) k of
          Some v \<Rightarrow> Some v
        | None \<Rightarrow> file_content (dk_prims d) (ds_files s (disk_path d k)) (content (ds_keys s) (k @ dekSuffix)))
      else None)"

text \<open>
  Nothing is left lying about: a keychain entry is a value, or the file key of a value whose file is there, and
  a file that is not of a value is one of the others, unchanged.
\<close>

definition no_orphans :: "(string \<Rightarrow> bytes option) \<Rightarrow> (string \<Rightarrow> bytes option) \<Rightarrow> bool" where
  "no_orphans entries files \<longleftrightarrow>
     (\<forall>k. entries k \<noteq> None \<longrightarrow> value_key K k \<or>
        (\<exists>k'. value_key K k' \<and> k = k' @ dekSuffix \<and> files (disk_path d k') \<noteq> None)) \<and>
     (\<forall>p. (\<nexists>k. value_key K k \<and> p = disk_path d k) \<longrightarrow> files p = others p)"

definition router_good :: "'a disk_state \<Rightarrow> bool" where
  "router_good s \<longleftrightarrow>
     good (ds_keys s) \<and> ds_io s = [] \<and> no_orphans (content (ds_keys s)) (ds_files s) \<and>
     (\<forall>k. value_key K k \<longrightarrow> ds_files s (disk_path d k) \<noteq> None \<longrightarrow>
        file_content (dk_prims d) (ds_files s (disk_path d k)) (content (ds_keys s) (k @ dekSuffix)) \<noteq> None)"

lemma suffix_not_value_key: "\<not> value_key K (k @ dekSuffix)"
  by (simp add: value_key_def)

lemma value_key_path: "value_key K k \<Longrightarrow> value_key K k' \<Longrightarrow> disk_path d k = disk_path d k' \<longleftrightarrow> k = k'"
  using paths_differ by (auto simp: value_key_def inj_on_def)

lemma no_orphans_unfiled:
  assumes "no_orphans entries files" "value_key K k"
  shows "no_orphans (entries(k := x, k @ dekSuffix := None)) (files(disk_path d k := None))"
  unfolding no_orphans_def
proof (intro conjI allI impI)
  fix key
  assume key: "(entries(k := x, k @ dekSuffix := None)) key \<noteq> None"
  show "value_key K key \<or> (\<exists>k'. value_key K k' \<and> key = k' @ dekSuffix \<and>
      (files(disk_path d k := None)) (disk_path d k') \<noteq> None)"
  proof (cases "value_key K key")
    case False
    with key assms(2) have "entries key \<noteq> None" by (auto split: if_splits)
    with False assms(1) obtain k' where k': "value_key K k'" "key = k' @ dekSuffix" "files (disk_path d k') \<noteq> None"
      unfolding no_orphans_def by blast
    moreover have "k' \<noteq> k" using key k'(2) by auto
    ultimately show ?thesis using value_key_path [OF k'(1) assms(2)] by auto
  qed simp
qed (use assms in \<open>auto simp: no_orphans_def\<close>)

lemma no_orphans_filed:
  assumes "no_orphans entries files" "value_key K k"
  shows "no_orphans (entries(k @ dekSuffix \<mapsto> enc, k := None)) (files(disk_path d k \<mapsto> f))"
  using assms unfolding no_orphans_def by (auto split: if_splits)

lemma read_file_calm: "ds_io s = [] \<Longrightarrow> read_file path s =
    (case ds_files s path of None \<Rightarrow> (Inl (ErrSentinel StoreErrNotFound), s) | Some f \<Rightarrow> (Inr f, s))"
  by (simp add: read_file_def os_call_def)

lemma writeFileAtomic_calm:
  "ds_io s = [] \<Longrightarrow> writeFileAtomic path data s = (Inr (), s\<lparr>ds_files := (ds_files s)(path \<mapsto> data)\<rparr>)"
  by (simp add: writeFileAtomic_def os_call_def)

text \<open>Writing a file: a fresh key under the suffixed name, a sealed file that opens with it.\<close>

lemma disk_Set_calm:
  assumes s: "good (ds_keys s)" "ds_io s = []"
  shows "\<exists>s' f enc. disk_Set d k v s = (Inr (), s') \<and> good (ds_keys s') \<and> ds_io s' = [] \<and>
    content (ds_keys s') = (content (ds_keys s))(k @ dekSuffix \<mapsto> enc) \<and>
    ds_files s' = (ds_files s)(disk_path d k \<mapsto> f) \<and>
    file_content (dk_prims d) (Some f) (Some enc) = Some v"
proof -
  obtain dek where dek: "dk_rand d (ds_draws s) 32 = Inr dek"
    using draws(2) [of "ds_draws s" 32] by (auto simp: is_ok_iff)
  obtain nonce where nonce: "dk_rand d (ds_draws s + 1) 12 = Inr nonce"
    using draws(2) [of "ds_draws s + 1" 12] by (auto simp: is_ok_iff)
  have l: "length dek = 32" "length nonce = 12"
    using rand_okD [OF draws(1)] dek nonce by auto
  have k: "aes_key_ok dek" using l by (simp add: aes_key_ok_def)
  let ?enc = "str_bytes (hex_encode dek)"
  obtain keys' where keys': "bk_Set B (k @ dekSuffix) ?enc (ds_keys s) = (Inr (), keys')" "good keys'"
    "content keys' = (content (ds_keys s))(k @ dekSuffix \<mapsto> ?enc)"
    using set_stores [OF s(1), where k = "k @ dekSuffix" and v = ?enc] l by (auto simp: keychainMaxBytes_def)
  let ?f = "nonce @ gcm_seal (dk_prims d) dek nonce v []"
  have "file_content (dk_prims d) (Some ?f) (Some ?enc) = Some v"
    using gcm_okD(2) [OF gcm k l(2)] l k by (simp add: file_content_def disk_open_def newAEAD_def)
  moreover have "\<exists>s'. disk_Set d k v s = (Inr (), s') \<and> ds_keys s' = keys' \<and> ds_io s' = [] \<and>
      ds_files s' = (ds_files s)(disk_path d k \<mapsto> ?f)"
    using dek nonce k keys' s(2)
    by (simp add: disk_Set_def disk_seal_def rand_Read_def dekLenBytes_def newAEAD_def on_keys_def
        keys_are writeFileAtomic_calm)
  ultimately show ?thesis using keys'(2,3) by metis
qed

lemma router_keys_same:
  assumes "content keys' = content (ds_keys s)" "good keys'"
  shows "router_content (s\<lparr>ds_keys := keys'\<rparr>) = router_content s"
    "router_good s \<Longrightarrow> router_good (s\<lparr>ds_keys := keys'\<rparr>)"
proof -
  show "router_content (s\<lparr>ds_keys := keys'\<rparr>) = router_content s"
    by (rule ext) (simp add: router_content_def assms(1) split: option.split)
  show "router_good (s\<lparr>ds_keys := keys'\<rparr>)" if "router_good s"
    using that by (simp add: router_good_def assms)
qed

lemma disk_Get_calm:
  assumes s: "good (ds_keys s)" "ds_io s = []" and k: "value_key K k"
    and absent: "content (ds_keys s) k = None" and g: "router_good s"
  shows "\<exists>r s'. disk_Get d k s = (r, s') \<and> router_good s' \<and> router_content s' = router_content s \<and>
    (case router_content s k of Some v \<Rightarrow> r = Inr v | None \<Rightarrow> r = Inl (ErrSentinel StoreErrNotFound))"
proof (cases "ds_files s (disk_path d k)")
  case None
  then show ?thesis
    using s k absent g by (simp add: disk_Get_def read_file_calm router_content_def file_content_def)
next
  case (Some f)
  with g k obtain v where v: "file_content (dk_prims d) (Some f) (content (ds_keys s) (k @ dekSuffix)) = Some v"
    by (fastforce simp: router_good_def)
  then obtain enc where enc: "content (ds_keys s) (k @ dekSuffix) = Some enc"
    "bind_err (hex_decode (bytes_str enc)) (\<lambda>dek. disk_open (dk_prims d) dek f) = Inr v"
    by (auto simp: file_content_def split: option.splits sum.splits)
  obtain keys' where keys': "bk_Get B (k @ dekSuffix) (ds_keys s) = (Inr enc, keys')" "good keys'"
    "content keys' = content (ds_keys s)"
    using get_found [OF s(1) _ enc(1)] by auto
  have "disk_Get d k s = (Inr v, s\<lparr>ds_keys := keys'\<rparr>)"
    using enc(2) keys' s(2) Some
    by (auto simp: disk_Get_def read_file_calm on_keys_def keys_are)
  moreover have "router_content (s\<lparr>ds_keys := keys'\<rparr>) = router_content s"
    by (rule router_keys_same) (rule keys')+
  moreover have "router_good (s\<lparr>ds_keys := keys'\<rparr>)"
    by (rule router_keys_same(2) [OF keys'(3,2) g])
  moreover have "router_content s k = Some v"
    using k absent v Some by (simp add: router_content_def)
  ultimately show ?thesis by simp
qed

lemma router_Get_reads:
  assumes g: "router_good s" and k: "value_key K k"
  shows "\<exists>r s'. router_Get d k s = (r, s') \<and> router_good s' \<and> router_content s' = router_content s \<and>
    (case router_content s k of Some v \<Rightarrow> r = Inr v | None \<Rightarrow> r = Inl (ErrSentinel StoreErrNotFound))"
proof -
  have s: "good (ds_keys s)" "ds_io s = []" using g by (simp_all add: router_good_def)
  show ?thesis
  proof (cases "content (ds_keys s) k")
    case (Some v)
    then obtain keys' where keys': "bk_Get B k (ds_keys s) = (Inr v, keys')" "good keys'"
      "content keys' = content (ds_keys s)"
      using get_found [OF s(1)] by auto
    have "router_content (s\<lparr>ds_keys := keys'\<rparr>) = router_content s"
      by (rule router_keys_same) (rule keys')+
    moreover have "router_good (s\<lparr>ds_keys := keys'\<rparr>)"
      by (rule router_keys_same(2) [OF keys'(3,2) g])
    ultimately show ?thesis
      using keys' Some k by (simp add: router_Get_def on_keys_def keys_are router_content_def)
  next
    case None
    then obtain e keys' where keys': "bk_Get B k (ds_keys s) = (Inl e, keys')" "errors_is e StoreErrNotFound"
      "good keys'" "content keys' = content (ds_keys s)"
      using get_absent [OF s(1) _ None] by blast
    let ?s = "s\<lparr>ds_keys := keys'\<rparr>"
    have c: "router_content ?s = router_content s"
      by (rule router_keys_same) (rule keys')+
    have "router_good ?s"
      by (rule router_keys_same(2) [OF keys'(4,3) g])
    moreover have "router_Get d k s = disk_Get d k ?s"
      using keys' by (simp add: router_Get_def on_keys_def keys_are)
    ultimately show ?thesis
      using disk_Get_calm [of ?s k] keys' s k None c by simp
  qed
qed

lemma dekSuffix_nonempty [simp]: "dekSuffix \<noteq> []"
  by (simp add: dekSuffix_def)


lemma value_key_not_dek [simp]: "value_key K k \<Longrightarrow> k \<noteq> k' @ dekSuffix"
  using suffix_not_value_key by blast

text \<open>After a removal from disk, the value is only in the keychain, if anywhere.\<close>

lemma disk_Remove_calm:
  assumes "good (ds_keys s)" "ds_io s = []"
  shows "\<exists>s'. disk_Remove d k s = (Inr (), s') \<and> good (ds_keys s') \<and> ds_io s' = [] \<and>
    content (ds_keys s') = (content (ds_keys s))(k @ dekSuffix := None) \<and>
    ds_files s' = (ds_files s)(disk_path d k := None)"
  using remove_drops [OF assms(1), of "k @ dekSuffix"] assms(2)
  by (auto simp: disk_Remove_def os_call_def on_keys_def keys_are)

lemma router_Set_stores:
  assumes g: "router_good s" and k: "value_key K k"
  shows "\<exists>s'. router_Set d k v s = (Inr (), s') \<and> router_good s' \<and> router_content s' = (router_content s)(k \<mapsto> v)"
proof (cases "length v \<le> keychainMaxBytes")
  case True
  have s: "good (ds_keys s)" "ds_io s = []" using g by (simp_all add: router_good_def)
  obtain k1 where k1: "bk_Set B k v (ds_keys s) = (Inr (), k1)" "good k1" "content k1 = (content (ds_keys s))(k \<mapsto> v)"
    using set_stores [OF s(1) _ True, of k] by auto
  obtain s2 where s2: "disk_Remove d k (s\<lparr>ds_keys := k1\<rparr>) = (Inr (), s2)" "good (ds_keys s2)" "ds_io s2 = []"
    "content (ds_keys s2) = (content k1)(k @ dekSuffix := None)"
    "ds_files s2 = (ds_files s)(disk_path d k := None)"
    using disk_Remove_calm [of "s\<lparr>ds_keys := k1\<rparr>" k] k1(2) s(2) by auto
  have "router_Set d k v s = (Inr (), s2)"
    using True k1 s2(1) by (simp add: router_Set_def backendFor_disk_def on_keys_def keys_are)
  moreover have "router_content s2 = (router_content s)(k \<mapsto> v)"
    using k by (auto simp: fun_eq_iff router_content_def s2 k1 value_key_path suffix_not_value_key split: option.split)
  moreover have "router_good s2"
    using g k s2 no_orphans_unfiled [of "content (ds_keys s)" "ds_files s" k "Some v"]
    by (auto simp: router_good_def k1(3) value_key_path suffix_not_value_key)
  ultimately show ?thesis by blast
next
  case False
  have s: "good (ds_keys s)" "ds_io s = []" using g by (simp_all add: router_good_def)
  obtain s1 f enc where s1: "disk_Set d k v s = (Inr (), s1)" "good (ds_keys s1)" "ds_io s1 = []"
    "content (ds_keys s1) = (content (ds_keys s))(k @ dekSuffix \<mapsto> enc)"
    "ds_files s1 = (ds_files s)(disk_path d k \<mapsto> f)"
    "file_content (dk_prims d) (Some f) (Some enc) = Some v"
    using disk_Set_calm [OF s, of k v] by blast
  obtain k2 where k2: "bk_Remove B k (ds_keys s1) = (Inr (), k2)" "good k2"
    "content k2 = (content (ds_keys s1))(k := None)"
    using remove_drops [OF s1(2), of k] by auto
  let ?s = "s1\<lparr>ds_keys := k2\<rparr>"
  have "router_Set d k v s = (Inr (), ?s)"
    using False s1(1) k2(1) by (simp add: router_Set_def backendFor_disk_def on_keys_def keys_are)
  moreover have "router_content ?s = (router_content s)(k \<mapsto> v)"
    using k s1(6) by (auto simp: fun_eq_iff router_content_def k2 s1(4,5) value_key_path suffix_not_value_key split: option.split)
  moreover have "router_good ?s"
    using g k s1(3,6) k2(2) no_orphans_filed [of "content (ds_keys s)" "ds_files s" k enc f]
    by (auto simp: router_good_def k2(3) s1(4,5) value_key_path suffix_not_value_key)
  ultimately show ?thesis by blast
qed

lemma router_Remove_drops:
  assumes g: "router_good s" and k: "value_key K k"
  shows "\<exists>s'. router_Remove d k s = (Inr (), s') \<and> router_good s' \<and> router_content s' = (router_content s)(k := None)"
proof -
  have s: "good (ds_keys s)" "ds_io s = []" using g by (simp_all add: router_good_def)
  obtain k1 where k1: "bk_Remove B k (ds_keys s) = (Inr (), k1)" "good k1"
    "content k1 = (content (ds_keys s))(k := None)"
    using remove_drops [OF s(1), of k] by auto
  obtain s2 where s2: "disk_Remove d k (s\<lparr>ds_keys := k1\<rparr>) = (Inr (), s2)" "good (ds_keys s2)" "ds_io s2 = []"
    "content (ds_keys s2) = (content k1)(k @ dekSuffix := None)"
    "ds_files s2 = (ds_files s)(disk_path d k := None)"
    using disk_Remove_calm [of "s\<lparr>ds_keys := k1\<rparr>" k] k1(2) s(2) by auto
  have j: "join_result [err_of (Inr ()), err_of (Inr ())] = Inr ()"
    by (simp add: err_of_def join_result_def errors_join_def List.map_filter_def)
  have "router_Remove d k s = (Inr (), s2)"
    using k1 s2(1) j by (simp add: router_Remove_def on_keys_def keys_are)
  moreover have "router_content s2 = (router_content s)(k := None)"
    using k by (auto simp: fun_eq_iff router_content_def s2 k1 value_key_path suffix_not_value_key
        file_content_def split: option.split)
  moreover have "router_good s2"
    using g k s2 no_orphans_unfiled [of "content (ds_keys s)" "ds_files s" k None]
    by (auto simp: router_good_def k1(3) value_key_path suffix_not_value_key)
  ultimately show ?thesis by blast
qed

lemma routed_contract: "backend_contract (router d) router_good router_content (value_key K) (\<lambda>_. True)"
proof unfold_locales
  fix s k v
  assume a: "router_good s" "value_key K k"
  show "\<exists>s'. bk_Get (router d) k s = (Inr v, s') \<and> router_good s' \<and> router_content s' = router_content s"
    if "router_content s k = Some v"
    using router_Get_reads [OF a] that by (auto simp: router_def)
  show "\<exists>e s'. bk_Get (router d) k s = (Inl e, s') \<and> errors_is e StoreErrNotFound \<and> router_good s' \<and>
      router_content s' = router_content s" if "router_content s k = None"
    using router_Get_reads [OF a] that by (force simp: router_def)
  show "\<exists>s'. bk_Set (router d) k v s = (Inr (), s') \<and> router_good s' \<and> router_content s' = (router_content s)(k \<mapsto> v)"
    using router_Set_stores [OF a] by (simp add: router_def)
  show "\<exists>s'. bk_Remove (router d) k s = (Inr (), s') \<and> router_good s' \<and> router_content s' = (router_content s)(k := None)"
    using router_Remove_drops [OF a] by (simp add: router_def)
qed

text \<open>What is not there has left neither an entry nor a file.\<close>

lemma absent_leaves_nothing:
  assumes "router_good s" "value_key K k" "router_content s k = None"
  shows "content (ds_keys s) k = None \<and> ds_files s (disk_path d k) = None"
  using assms by (auto simp: router_good_def router_content_def split: option.splits)

lemma empty_leaves_nothing:
  assumes "router_good s" "router_content s = Map.empty"
  shows "content (ds_keys s) = Map.empty" "ds_files s = others"
proof -
  have none: "content (ds_keys s) k = None \<and> ds_files s (disk_path d k) = None" if "value_key K k" for k
    using absent_leaves_nothing [OF assms(1) that] assms(2) by simp
  have clean: "no_orphans (content (ds_keys s)) (ds_files s)" using assms(1) by (simp add: router_good_def)
  show "content (ds_keys s) = Map.empty"
    using clean none unfolding no_orphans_def by (metis not_Some_eq)
  show "ds_files s = others"
  proof
    fix p
    show "ds_files s p = others p"
    proof (cases "\<exists>k. value_key K k \<and> p = disk_path d k")
      case True
      then obtain k where "value_key K k" "p = disk_path d k" by blast
      with none not_ours show ?thesis by (simp add: value_key_def)
    qed (use clean in \<open>simp add: no_orphans_def\<close>)
  qed
qed

end

sublocale encrypted_router \<subseteq> routed: backend_contract "router d" router_good router_content "value_key K" "\<lambda>_. True"
  by (rule routed_contract)

section \<open>The bridge's store\<close>

lemma keychain_router:
  assumes "keychain_contract (dk_keys d) good content" "inj_on (disk_path d) K" "gcm_ok (dk_prims d)"
    "rand_ok (dk_rand d)" "\<And>i n. is_ok (dk_rand d i n)" "\<forall>k \<in> K. others (disk_path d k) = None"
  shows "encrypted_router (dk_keys d) good content d K others"
  by (intro encrypted_router.intro encrypted_router_axioms.intro assms refl)

lemma keychain_store:
  assumes "encrypted_router B good content d K others" "indexKey \<in> K"
    "\<And>ks. ix_unmarshal J (ix_marshal J ks) = Inr ks"
  shows "indexed_store (router d) (encrypted_router.router_good good content d K others)
    (encrypted_router.router_content content d K) (value_key K) (\<lambda>_. True) J"
proof -
  have "value_key K indexKey"
    using assms(2) by (simp add: value_key_def indexKey_def dekSuffix_def has_suffix_def)
  then show ?thesis
    by (intro indexed_store.intro encrypted_router.axioms(1) indexed_store_axioms.intro assms(3) TrueI
        encrypted_router.routed_contract [OF assms(1)])
qed

text \<open>A store nothing was put into yet, over a keychain, beside the files of others.\<close>

definition empty_store :: "'k \<Rightarrow> (string \<rightharpoonup> bytes) \<Rightarrow> nat \<Rightarrow> 'k disk_state" where
  "empty_store keys others n = \<lparr>ds_keys = keys, ds_files = others, ds_io = [], ds_draws = n\<rparr>"

lemma empty_store_good:
  assumes "encrypted_router B good content d K others" "good keys" "content keys = Map.empty"
  shows "encrypted_router.router_good good content d K others (empty_store keys others n)"
    "encrypted_router.router_content content d K (empty_store keys others n) = Map.empty"
proof -
  have "others (disk_path d k) = None" if "value_key K k" for k
    using encrypted_router.not_ours [OF assms(1)] that by (simp add: value_key_def)
  then show "encrypted_router.router_good good content d K others (empty_store keys others n)"
    "encrypted_router.router_content content d K (empty_store keys others n) = Map.empty"
    by (auto simp: encrypted_router.router_good_def [OF assms(1)] encrypted_router.router_content_def [OF assms(1)]
        encrypted_router.no_orphans_def [OF assms(1)] empty_store_def file_content_def fun_eq_iff assms(2,3))
qed

lemma fold_apply_op_other: "\<forall>x \<in> set ops. op_key x \<noteq> k \<Longrightarrow> fold apply_op ops m k = m k"
proof (induction ops arbitrary: m)
  case (Cons x ops)
  then show ?case by (cases x) auto
qed simp

text \<open>Any writes and removals on an empty store.\<close>

lemma keychain_store_ops:
  assumes er: "encrypted_router B good content d K others" and start: "good keys" "content keys = Map.empty"
    and J: "indexKey \<in> K" "\<And>ks. ix_unmarshal J (ix_marshal J ks) = Inr ks"
    and ops: "\<And>x. x \<in> set ops \<Longrightarrow> op_key x \<in> K - {[], indexKey} \<and> \<not> has_suffix (op_key x) dekSuffix"
  obtains s ks where "run_ops J (router d) ops (empty_store keys others n) = (Inr (), s)"
    and "encrypted_router.router_good good content d K others s"
    and "indexed_store.holds_index (encrypted_router.router_content content d K) J s ks"
    and "\<forall>k. k \<noteq> indexKey \<longrightarrow> encrypted_router.router_content content d K s k = fold apply_op ops Map.empty k"
    and "dom (encrypted_router.router_content content d K s) \<subseteq> {k. value_key K k}"
proof -
  note st = keychain_store [OF er J]
  note empty = empty_store_good [OF er start, of n]
  note h = indexed_store.empty_holds_index [OF st empty(2)]
  have "\<forall>x \<in> set ops. value_key K (op_key x) \<and> op_key x \<noteq> [] \<and> op_key x \<noteq> indexKey \<and>
      list_all (\<lambda>_. True) (op_values x)"
    using ops by (auto simp: value_key_def list_all_def)
  from indexed_store.run_ops_refines [OF st empty(1) h this] obtain s ks where
    s: "run_ops J (router d) ops (empty_store keys others n) = (Inr (), s)"
      "encrypted_router.router_good good content d K others s"
      "indexed_store.holds_index (encrypted_router.router_content content d K) J s ks"
      "\<forall>k. k \<noteq> indexKey \<longrightarrow> encrypted_router.router_content content d K s k = fold apply_op ops Map.empty k"
    by (auto simp: empty)
  moreover have "dom (encrypted_router.router_content content d K s) \<subseteq> {k. value_key K k}"
    by (auto simp: encrypted_router.router_content_def [OF er] split: if_splits)
  ultimately show ?thesis using that by blast
qed

text \<open>Clearing what such operations left.\<close>

lemma keychain_store_Clear:
  assumes er: "encrypted_router B good content d K others"
    and J: "indexKey \<in> K" "\<And>ks. ix_unmarshal J (ix_marshal J ks) = Inr ks"
    and s: "encrypted_router.router_good good content d K others s"
      "indexed_store.holds_index (encrypted_router.router_content content d K) J s ks"
      "dom (encrypted_router.router_content content d K s) \<subseteq> {k. value_key K k}"
  obtains keys' n' where "store_Clear J (router d) s = (Inr (), empty_store keys' others n')"
    and "good keys'" and "content keys' = Map.empty"
proof -
  note st = keychain_store [OF er J]
  from indexed_store.store_Clear_empties [OF st s] obtain s' where
    s': "store_Clear J (router d) s = (Inr (), s')" "encrypted_router.router_good good content d K others s'"
      "encrypted_router.router_content content d K s' = Map.empty" by blast
  note gone = encrypted_router.empty_leaves_nothing [OF er s'(2,3)]
  have "good (ds_keys s')" "ds_io s' = []"
    using s'(2) by (simp_all add: encrypted_router.router_good_def [OF er])
  moreover from this gone(2) have "s' = empty_store (ds_keys s') others (ds_draws s')"
    by (cases s') (simp add: empty_store_def)
  ultimately show ?thesis using that s'(1) gone(1) by metis
qed

lemma empty_store_Keys:
  assumes "encrypted_router B good content d K others" "good keys" "content keys = Map.empty"
    and "indexKey \<in> K" "\<And>ks. ix_unmarshal J (ix_marshal J ks) = Inr ks"
  shows "fst (store_Keys J (router d) (empty_store keys others n)) = Inr []"
proof -
  note st = keychain_store [OF assms(1,4,5)] and empty = empty_store_good [OF assms(1-3), of n]
  from indexed_store.store_Keys_lists [OF st empty(1) indexed_store.empty_holds_index [OF st empty(2)]]
  show ?thesis by auto
qed

text \<open>
  C6: the store is a map. Over any keychain that keeps its contract, starting with nothing of its own there, and
  while the disk reports no error, after any sequence of writes and removals of keys (none empty, none the index, none with the suffix of the
  file keys) every operation has succeeded, reading a key gives what was last written to it, small values and
  large ones alike, the list of keys is exactly what is there, and clearing succeeds and leaves the keychain
  empty (no value, no index and no file key in it) and no file but those that were there before.
\<close>

theorem store_refines_map:
  assumes d: "keychain_contract (dk_keys d) good content" "inj_on (disk_path d) K" "gcm_ok (dk_prims d)"
      "rand_ok (dk_rand d)" "\<And>i n. is_ok (dk_rand d i n)" "\<forall>k \<in> K. others (disk_path d k) = None"
    and start: "good keys" "content keys = Map.empty"
    and J: "indexKey \<in> K" "\<And>ks. ix_unmarshal J (ix_marshal J ks) = Inr ks"
    and ops: "\<And>x. x \<in> set ops \<Longrightarrow> op_key x \<in> K - {[], indexKey} \<and> \<not> has_suffix (op_key x) dekSuffix"
  shows "\<exists>s. run_ops J (router d) ops (empty_store keys others n) = (Inr (), s) \<and>
    (\<forall>k \<in> K - {indexKey}. has_suffix k dekSuffix \<or>
       fst (store_Get (router d) k s) = (case fold apply_op ops Map.empty k of
         Some v \<Rightarrow> Inr v | None \<Rightarrow> Inl (ErrSentinel StoreErrNotFound))) \<and>
    (\<exists>ks. fst (store_Keys J (router d) s) = Inr ks \<and> distinct ks \<and>
       set ks = dom (fold apply_op ops Map.empty)) \<and>
    (\<exists>s'. store_Clear J (router d) s = (Inr (), s') \<and>
       content (ds_keys s') = Map.empty \<and> ds_files s' = others)"
proof -
  note er = keychain_router [OF d]
  note st = keychain_store [OF er J]
  let ?content = "encrypted_router.router_content content d K"
  obtain s ks where s: "run_ops J (router d) ops (empty_store keys others n) = (Inr (), s)"
      "encrypted_router.router_good good content d K others s" "indexed_store.holds_index ?content J s ks"
    and reads: "\<forall>k. k \<noteq> indexKey \<longrightarrow> ?content s k = fold apply_op ops Map.empty k"
    and sub: "dom (?content s) \<subseteq> {k. value_key K k}"
    using keychain_store_ops [OF er start J ops, where n = n] .
  have get: "fst (store_Get (router d) k s) = (case fold apply_op ops Map.empty k of
         Some v \<Rightarrow> Inr v | None \<Rightarrow> Inl (ErrSentinel StoreErrNotFound))"
    if "k \<in> K" "k \<noteq> indexKey" "\<not> has_suffix k dekSuffix" for k
  proof -
    have "value_key K k" using that by (simp add: value_key_def)
    from encrypted_router.router_Get_reads [OF er s(2) this] reads that(2) show ?thesis
      by (auto simp: store_Get_def router_def split: option.split)
  qed
  have "fold apply_op ops Map.empty indexKey = None" using ops by (subst fold_apply_op_other) auto
  then have "x \<in> dom (?content s) - {indexKey} \<longleftrightarrow> x \<in> dom (fold apply_op ops Map.empty)" for x
    using reads by (cases "x = indexKey") (auto simp: dom_def)
  then have "dom (?content s) - {indexKey} = dom (fold apply_op ops Map.empty)" by blast
  then have "distinct ks \<and> set ks = dom (fold apply_op ops Map.empty)"
    using s(3) by (simp add: indexed_store.holds_index_def [OF st])
  moreover obtain s1 where "store_Keys J (router d) s = (Inr ks, s1)"
    using indexed_store.store_Keys_lists [OF st s(2,3)] by blast
  moreover obtain s' where "store_Clear J (router d) s = (Inr (), s')"
    "content (ds_keys s') = Map.empty" "ds_files s' = others"
    using keychain_store_Clear [OF er J s(2,3) sub] by (metis disk_state.select_convs(1,2) empty_store_def)
  ultimately show ?thesis using s(1) get by (intro exI [of _ s]) auto
qed

text \<open>A cipher that checks its key: a sealed text opens only under the key it was sealed with.\<close>

definition keyed_prims :: prims where
  "keyed_prims = toy_prims
     \<lparr>gcm_seal := (\<lambda>key nonce plain aad. plain @ take 16 key),
      gcm_open := (\<lambda>key nonce ct aad.
        if 16 \<le> length ct \<and> drop (length ct - 16) ct = take 16 key then Some (take (length ct - 16) ct) else None)\<rparr>"

lemma keyed_prims_gcm [simp]: "gcm_ok keyed_prims"
  by (auto simp: keyed_prims_def gcm_ok_def aes_key_ok_def)

definition demo_disk :: "secrets disk" where
  "demo_disk = \<lparr>dk_dir = ''/state'', dk_keys = keychain map_keyring, dk_prims = keyed_prims,
     dk_rand = toy_rand, dk_sha256 = (\<lambda>b. b)\<rparr>"

definition demo_keys :: "string set" where
  "demo_keys = {indexKey, ''a'', ''b''}"

text \<open>A codec for the index: every key in hexadecimal, ended by a zero byte.\<close>

fun split_zero :: "bytes \<Rightarrow> bytes \<Rightarrow> bytes list" where
  "split_zero cur [] = []"
| "split_zero cur (b # bs) = (if b = 0 then cur # split_zero [] bs else split_zero (cur @ [b]) bs)"

definition unhex :: "bytes \<Rightarrow> string" where
  "unhex b = (case hex_decode (bytes_str b) of Inr v \<Rightarrow> bytes_str v | Inl e \<Rightarrow> [])"

definition demo_codec :: index_codec where
  "demo_codec =
     \<lparr>ix_marshal = (\<lambda>ks. concat (map (\<lambda>k. str_bytes (hex_encode (str_bytes k)) @ [0]) ks)),
      ix_unmarshal = (\<lambda>b. Inr (map unhex (split_zero [] b)))\<rparr>"

lemma split_zero_append: "0 \<notin> set b \<Longrightarrow> split_zero cur (b @ 0 # r) = (cur @ b) # split_zero [] r"
  by (induction b arbitrary: cur) auto

lemma hex_no_zero: "0 \<notin> set (str_bytes (hex_encode bs))"
proof -
  have all: "\<forall>n \<in> set [0..<16]. (of_char (hex_alphabet ! n) :: 8 word) \<noteq> 0" by code_simp
  have "(of_char (hex_alphabet ! (unat b div 16)) :: 8 word) \<noteq> 0 \<and>
      (of_char (hex_alphabet ! (unat b mod 16)) :: 8 word) \<noteq> 0" for b :: byte
  proof -
    have b: "unat b < 256" using unsigned_less [of b] by simp
    then have "unat b div 16 < 16" "unat b mod 16 < 16" by auto
    with all show ?thesis by simp
  qed
  then show ?thesis by (induction bs) (auto simp: hex_encode_def str_bytes_def)
qed

lemma demo_codec_ok: "ix_unmarshal demo_codec (ix_marshal demo_codec ks) = Inr ks"
proof -
  have "map unhex (split_zero [] (concat (map (\<lambda>k. str_bytes (hex_encode (str_bytes k)) @ [0]) ks))) = ks"
    by (induction ks) (simp_all add: split_zero_append hex_no_zero unhex_def)
  then show ?thesis by (simp add: demo_codec_def)
qed

lemma demo_paths: "inj_on (disk_path demo_disk) UNIV"
proof (rule inj_onI)
  fix k k' assume "disk_path demo_disk k = disk_path demo_disk k'"
  then have "hex_decode (hex_encode (str_bytes k)) = hex_decode (hex_encode (str_bytes k'))"
    by (simp add: disk_path_def demo_disk_def)
  then have "bytes_str (str_bytes k) = bytes_str (str_bytes k')" by (simp del: bytes_str_str_bytes)
  then show "k = k'" by simp
qed

abbreviation demo_content :: "secrets \<Rightarrow> string \<Rightarrow> bytes option" where
  "demo_content \<equiv> (\<lambda>m key. map_option str_bytes (m (serviceName, key)))"

text \<open>A file of Gluon's in the state directory.\<close>

definition demo_others :: "string \<rightharpoonup> bytes" where
  "demo_others = [''/state/gluon.db'' \<mapsto> [1]]"

lemma demo_disk_ok:
  "keychain_contract (dk_keys demo_disk) (\<lambda>_. True) demo_content"
  "gcm_ok (dk_prims demo_disk)" "rand_ok (dk_rand demo_disk)" "is_ok (dk_rand demo_disk i n)"
  "\<forall>k \<in> K. demo_others (disk_path demo_disk k) = None"
proof -
  have "disk_path demo_disk k \<noteq> ''/state/gluon.db''" for k
  proof
    assume "disk_path demo_disk k = ''/state/gluon.db''"
    then have "last (disk_path demo_disk k) = last ''/state/gluon.db''" by (rule arg_cong)
    then show False by (simp add: disk_path_def)
  qed
  then show "\<forall>k \<in> K. demo_others (disk_path demo_disk k) = None" by (auto simp: demo_others_def)
qed (simp_all add: demo_disk_def toy_rand_def kc.keychain_contract_axioms)

interpretation demo: encrypted_router "dk_keys demo_disk" "\<lambda>_. True" demo_content demo_disk UNIV demo_others
  by (rule keychain_router) (rule demo_disk_ok demo_paths)+

interpretation demo_store: indexed_store "router demo_disk" demo.router_good demo.router_content
    "value_key UNIV" "\<lambda>_. True" demo_codec
  by (rule keychain_store [OF demo.encrypted_router_axioms]) (simp_all add: demo_codec_ok)

text \<open>Small and large values over the system keychain, and Clear.\<close>

theorem store_refines_map_witness:
  "\<exists>s s'. run_ops demo_codec (router demo_disk)
       [OpSet ''a'' [1], OpSet ''b'' (replicate 4000 7), OpSet ''a'' (replicate 5000 9), OpRemove ''b'']
       (empty_store Map.empty demo_others 0) = (Inr (), s) \<and>
     fst (store_Get (router demo_disk) ''a'' s) = Inr (replicate 5000 9) \<and>
     fst (store_Get (router demo_disk) ''b'' s) = Inl (ErrSentinel StoreErrNotFound) \<and>
     store_Clear demo_codec (router demo_disk) s = (Inr (), s') \<and>
     ds_keys s' (serviceName, ''a.dek'') = None \<and> ds_files s' = [''/state/gluon.db'' \<mapsto> [1]]"
proof -
  let ?ops = "[OpSet ''a'' [1], OpSet ''b'' (replicate 4000 7), OpSet ''a'' (replicate 5000 9), OpRemove ''b'']"
  have x: "op_key x \<in> UNIV - {[], indexKey} \<and> \<not> has_suffix (op_key x) dekSuffix" if "x \<in> set ?ops" for x
    using that by (auto simp: indexKey_def dekSuffix_def has_suffix_def)
  have m: "fold apply_op ?ops Map.empty ''a'' = Some (replicate 5000 9)"
    "fold apply_op ?ops Map.empty ''b'' = None"
    by simp_all
  have k: "''a'' \<in> UNIV - {indexKey} \<and> \<not> has_suffix ''a'' dekSuffix"
    "''b'' \<in> UNIV - {indexKey} \<and> \<not> has_suffix ''b'' dekSuffix"
    by (simp_all add: indexKey_def dekSuffix_def has_suffix_def)
  have e: "demo_content Map.empty = Map.empty" by (simp add: fun_eq_iff)
  from store_refines_map [where d = demo_disk and good = "\<lambda>_. True" and content = demo_content and K = UNIV and
      others = demo_others and keys = Map.empty and n = 0,
      OF demo_disk_ok(1) demo_paths demo_disk_ok(2-5) TrueI e UNIV_I demo_codec_ok x]
  obtain s s' where
    s: "run_ops demo_codec (router demo_disk) ?ops (empty_store Map.empty demo_others 0) = (Inr (), s)"
      "\<forall>k \<in> UNIV - {indexKey}. has_suffix k dekSuffix \<or>
       fst (store_Get (router demo_disk) k s) = (case fold apply_op ?ops Map.empty k of
         Some v \<Rightarrow> Inr v | None \<Rightarrow> Inl (ErrSentinel StoreErrNotFound))"
    and s': "store_Clear demo_codec (router demo_disk) s = (Inr (), s')" "demo_content (ds_keys s') = Map.empty"
      "ds_files s' = demo_others" by blast
  have "fst (store_Get (router demo_disk) ''a'' s) = Inr (replicate 5000 9)"
    "fst (store_Get (router demo_disk) ''b'' s) = Inl (ErrSentinel StoreErrNotFound)"
    using s(2) k m by (metis (no_types, lifting) option.case)+
  moreover have "ds_keys s' (serviceName, ''a.dek'') = None" using fun_cong [OF s'(2), of "''a.dek''"] by simp
  ultimately show ?thesis using s(1) s'(1,3) by (auto simp: demo_others_def)
qed

section \<open>An overwrite that fails half-way\<close>

text \<open>What a call of \<open>writeFileAtomic\<close> that fails is reported as, in the order of the calls.\<close>

definition write_failures :: "string list" where
  "write_failures = [''store: create temp file'', ''store: set permissions'', ''store: write value'',
     ''store: sync value'', ''store: close value'', ''store: replace value'']"

lemma writeFileAtomic_fails:
  assumes "ds_io s = replicate i None @ Some e # later" "i < 6"
  shows "writeFileAtomic path data s = (Inl (ErrWrap (write_failures ! i) e), s\<lparr>ds_io := later\<rparr>)"
proof -
  have "i = 0 \<or> i = 1 \<or> i = 2 \<or> i = 3 \<or> i = 4 \<or> i = 5" using assms(2) by linarith
  then show ?thesis
    using assms(1) by (elim disjE) (simp_all add: writeFileAtomic_def os_call_def write_failures_def numeral_eq_Suc)
qed

text \<open>
  C36: an overwrite of a stored file that cannot be written destroys the value it was to replace. Whichever of
  the six calls fails (create, chmod, write, sync, close or rename), over any keychain that keeps its
  contract, the error is reported and the old file is still there untouched; but the new file key is already
  in the keychain, in the place of the old one. Reading the value afterwards is opening the old file with
  the new random key: unless that key happens to open it, the value is lost.
\<close>

theorem failed_overwrite_loses_value:
  assumes d: "keychain_contract (dk_keys d) good content" "good (ds_keys s)"
    and before: "ds_files s (disk_path d k) = Some f"
    and fault: "ds_io s = replicate i None @ Some e # later" "i < 6"
    and draws: "dk_rand d (ds_draws s) 32 = Inr dek" "dk_rand d (ds_draws s + 1) 12 = Inr nonce" "length dek = 32"
  shows "\<exists>s'. disk_Set d k v s = (Inl (ErrWrap (write_failures ! i) e), s') \<and>
    ds_files s' = ds_files s \<and> ds_io s' = later \<and>
    content (ds_keys s') = (content (ds_keys s))(k @ dekSuffix \<mapsto> str_bytes (hex_encode dek)) \<and>
    fst (disk_Get d k (s'\<lparr>ds_io := []\<rparr>)) = disk_open (dk_prims d) dek f"
proof -
  let ?enc = "str_bytes (hex_encode dek)"
  note contract = keychain_contract.axioms [OF d(1)]
  obtain keys' where keys': "bk_Set (dk_keys d) (k @ dekSuffix) ?enc (ds_keys s) = (Inr (), keys')" "good keys'"
    "content keys' = (content (ds_keys s))(k @ dekSuffix \<mapsto> ?enc)"
    using backend_contract.set_stores [OF contract d(2), where k = "k @ dekSuffix" and v = ?enc] draws(3)
    by (auto simp: keychainMaxBytes_def)
  let ?s = "s\<lparr>ds_keys := keys', ds_io := later, ds_draws := ds_draws s + 2\<rparr>"
  have "disk_Set d k v s = (Inl (ErrWrap (write_failures ! i) e), ?s)"
    using draws keys'(1) fault
    by (simp add: disk_Set_def disk_seal_def rand_Read_def dekLenBytes_def newAEAD_def aes_key_ok_def on_keys_def
        writeFileAtomic_fails)
  moreover obtain keys'' where "bk_Get (dk_keys d) (k @ dekSuffix) keys' = (Inr ?enc, keys'')"
    using backend_contract.get_found [OF contract keys'(2), where k = "k @ dekSuffix" and v = ?enc] keys'(3) by auto
  then have "fst (disk_Get d k (?s\<lparr>ds_io := []\<rparr>)) = disk_open (dk_prims d) dek f"
    using before by (simp add: disk_Get_def read_file_def os_call_def on_keys_def)
  ultimately show ?thesis using keys'(3) by (intro exI [of _ ?s]) simp
qed

text \<open>A full disk at the write: the value was readable before, and is not any more.\<close>

theorem failed_overwrite_loses_value_witness:
  "\<exists>s s'. fst (disk_Get demo_disk ''a'' (s\<lparr>ds_io := []\<rparr>)) = Inr [1, 2, 3] \<and>
     disk_Set demo_disk ''a'' [4] s = (Inl (ErrWrap ''store: write value'' (ErrExt ''ENOSPC'')), s') \<and>
     is_ok (fst (disk_Get demo_disk ''a'' (s'\<lparr>ds_io := []\<rparr>))) = False"
proof -
  let ?f = "replicate 12 1 @ [1, 2, 3] @ replicate 16 (0 :: byte)"
  define s where "s = \<lparr>ds_keys = [(serviceName, ''a.dek'') \<mapsto> hex_encode (replicate 32 0)],
    ds_files = [disk_path demo_disk ''a'' \<mapsto> ?f], ds_io = [None, None, Some (ErrExt ''ENOSPC'')],
    ds_draws = 5 :: nat\<rparr>"
  have old: "fst (disk_Get demo_disk ''a'' (s\<lparr>ds_io := []\<rparr>)) = Inr [1, 2, 3]"
    by (simp add: s_def disk_Get_def read_file_def os_call_def on_keys_def demo_disk_def map_keychain_simps
        dekSuffix_def disk_path_def disk_open_def newAEAD_def aes_key_ok_def keyed_prims_def)
  have a: "ds_files s (disk_path demo_disk ''a'') = Some ?f"
    "ds_io s = replicate 2 None @ Some (ErrExt ''ENOSPC'') # []"
    "dk_rand demo_disk (ds_draws s) 32 = Inr (replicate 32 5)"
    "dk_rand demo_disk (ds_draws s + 1) 12 = Inr (replicate 12 6)"
    by (simp_all add: s_def demo_disk_def toy_rand_def numeral_eq_Suc)
  have r: "disk_open (dk_prims demo_disk) (replicate 32 5) ?f =
      Inl (ErrWrap ''store: decrypt value'' (ErrNew ''cipher: message authentication failed''))"
    by (simp add: demo_disk_def disk_open_def newAEAD_def aes_key_ok_def keyed_prims_def)
  have w: "write_failures ! 2 = ''store: write value''" by (simp add: write_failures_def)
  from failed_overwrite_loses_value [OF demo_disk_ok(1) TrueI a(1,2) _ a(3,4), of "[4]"] r w old
  show ?thesis by auto
qed

end
