(* ===== verification/Mime.thy ===== *)
theory Mime
  imports Api Base64
begin

text \<open>
  \<open>internal/mail/mime.go\<close> and \<open>internal/mail/attachments.go\<close>: the RFC 5322 message an email becomes.
  A buffer that is only written to is the string it ends up holding. The parameters, gathered in
  \<open>mime_env\<close>, are the encoders of the standard library whose output depends on Unicode tables or on
  calendars: Q-encoding, quoted-printable, address formatting, quoting of non-ASCII text, and the
  parsing and formatting of dates, an instant being an integer.
\<close>

record mime_env =
  me_QEncode :: "string \<Rightarrow> string"
  me_quotedprintable :: "string \<Rightarrow> string"
  me_address :: "string \<Rightarrow> string \<Rightarrow> string"
  me_quote_run :: "string \<Rightarrow> string"
  me_parse_rfc3339 :: "string \<Rightarrow> int option"
  me_format_rfc1123z :: "int \<Rightarrow> string"

definition MessageIDDomain :: string where
  "MessageIDDomain = ''mail-bridge.internxt.local''"

definition deref_str :: "string option \<Rightarrow> string" where
  "deref_str v = (case v of None \<Rightarrow> [] | Some s \<Rightarrow> s)"

section \<open>Headers\<close>

definition writeHeader :: "string \<Rightarrow> string \<Rightarrow> string" where
  "writeHeader name v = (if v = [] then [] else name @ '': '' @ v @ crlf)"

definition messageID :: "EmailResponseDto \<Rightarrow> string" where
  "messageID email = ''<'' @ em_Id email @ ''@'' @ MessageIDDomain @ ''>''"

definition EmailIDFromMessageID :: "string \<Rightarrow> string option" where
  "EmailIDFromMessageID v =
     (let ident = trim_suffix (trim_prefix (trim_space v) ''<'') ''>'';
          (emailID, domain, found) = cut_at (CHR 0x40) ident
      in if \<not> found \<or> emailID = [] \<or> domain \<noteq> MessageIDDomain then None else Some emailID)"

definition references :: "EmailResponseDto \<Rightarrow> string" where
  "references email =
     (if em_ThreadId email = [] \<or> em_ThreadId email = em_Id email then []
      else ''<'' @ em_ThreadId email @ ''@'' @ MessageIDDomain @ ''>'')"

definition parseDate :: "mime_env \<Rightarrow> EmailResponseDto \<Rightarrow> err + int" where
  "parseDate M email =
     (let raw = deref_str (em_SentAt email);
          raw = (if raw = [] then em_ReceivedAt email else raw)
      in if raw = [] then Inl (ErrNew ''build message: no date'')
         else case me_parse_rfc3339 M raw of
             None \<Rightarrow> Inl (ErrWrap ''build message: parse date'' (ErrExt ''time''))
           | Some date \<Rightarrow> Inr date)"

definition formatAddresses :: "mime_env \<Rightarrow> EmailAddressDto list \<Rightarrow> string" where
  "formatAddresses M addresses =
     join (map (\<lambda>a. me_address M (deref_str (ad_Name a)) (ad_Email a))
       (filter (\<lambda>a. ad_Email a \<noteq> []) addresses)) '', ''"

definition writeHeaders :: "mime_env \<Rightarrow> EmailResponseDto \<Rightarrow> err + string" where
  "writeHeaders M email =
     bind_err (parseDate M email) (\<lambda>date.
     Inr (writeHeader ''MIME-Version'' ''1.0'' @
          writeHeader ''Message-ID'' (messageID email) @
          writeHeader ''References'' (references email) @
          writeHeader ''Date'' (me_format_rfc1123z M date) @
          writeHeader ''Subject'' (me_QEncode M (em_Subject email)) @
          writeHeader ''From'' (formatAddresses M (em_From email)) @
          writeHeader ''To'' (formatAddresses M (em_To email)) @
          writeHeader ''Cc'' (formatAddresses M (em_Cc email)) @
          writeHeader ''Reply-To'' (formatAddresses M (em_ReplyTo email))))"

section \<open>Bodies\<close>

unbundle bit_operations_syntax

text \<open>FNV-1a over the bytes of the parts, in 64 bits.\<close>

definition fnv_step :: "64 word \<Rightarrow> char \<Rightarrow> 64 word" where
  "fnv_step acc c = (acc XOR of_char c) * 1099511628211"

definition hex16 :: "64 word \<Rightarrow> string" where
  "hex16 w = map (\<lambda>i. lower_hex (unat (drop_bit (4 * (15 - i)) w) mod 16)) [0..<16]"

definition boundary :: "string list \<Rightarrow> string" where
  "boundary parts = hex16 (fold (\<lambda>c acc. fnv_step acc c) (concat parts) 14695981039346656037)"

definition utf8_type :: "string \<Rightarrow> string" where
  "utf8_type contentType = contentType @ ''; charset='' @ [CHR 0x22] @ ''utf-8'' @ [CHR 0x22]"

definition writeSinglePart :: "mime_env \<Rightarrow> string \<Rightarrow> string \<Rightarrow> string" where
  "writeSinglePart M contentType body =
     writeHeader ''Content-Type'' (utf8_type contentType) @
     writeHeader ''Content-Transfer-Encoding'' ''quoted-printable'' @ crlf @
     me_quotedprintable M body"

text \<open>
  \<open>multipart.Writer\<close>: every part opens with the boundary line and its headers in alphabetical order,
  the second one after a line break, and \<open>Close\<close> writes the closing boundary.
\<close>

definition alternative_part :: "mime_env \<Rightarrow> string \<Rightarrow> string \<Rightarrow> string \<Rightarrow> string" where
  "alternative_part M b contentType body =
     ''--'' @ b @ crlf @
     ''Content-Transfer-Encoding: quoted-printable'' @ crlf @
     ''Content-Type: '' @ utf8_type contentType @ crlf @ crlf @
     me_quotedprintable M body"

definition writeAlternative :: "mime_env \<Rightarrow> string \<Rightarrow> string \<Rightarrow> string" where
  "writeAlternative M text html =
     (let b = boundary [text, html]
      in writeHeader ''Content-Type'' (''multipart/alternative; boundary='' @ go_quote (me_quote_run M) b) @
         crlf @
         alternative_part M b ''text/plain'' text @ crlf @
         alternative_part M b ''text/html'' html @
         crlf @ ''--'' @ b @ ''--'' @ crlf)"

definition writeBody :: "mime_env \<Rightarrow> EmailResponseDto \<Rightarrow> string" where
  "writeBody M email =
     (let text = deref_str (em_TextBody email); html = deref_str (em_HtmlBody email)
      in if text \<noteq> [] \<and> html \<noteq> [] then writeAlternative M text html
         else if html \<noteq> [] then writeSinglePart M ''text/html'' html
         else writeSinglePart M ''text/plain'' text)"

definition BuildLiteral :: "mime_env \<Rightarrow> EmailResponseDto \<Rightarrow> err + string" where
  "BuildLiteral M email = bind_err (writeHeaders M email) (\<lambda>headers. Inr (headers @ writeBody M email))"

section \<open>Attachments\<close>

definition attachmentLineLength :: nat where
  "attachmentLineLength = 76"

function writeBase64 :: "string \<Rightarrow> string" where
  "writeBase64 encoded =
     (if attachmentLineLength < length encoded
      then take attachmentLineLength encoded @ crlf @ writeBase64 (drop attachmentLineLength encoded)
      else encoded @ crlf)"
  by pat_completeness auto
termination
  by (relation "measure length") (auto simp: attachmentLineLength_def)

declare writeBase64.simps [simp del]

text \<open>\<open>int(size)\<close> truncates.\<close>

definition attachmentSize :: "EmailAttachmentDto \<Rightarrow> nat" where
  "attachmentSize a = (if at_Size a \<le> 0 then 0 else nat \<lfloor>at_Size a\<rfloor>)"

definition isASCII :: "string \<Rightarrow> bool" where
  "isASCII v = list_all (\<lambda>c. (of_char c :: nat) \<le> 127) v"

definition encodedFilename :: "mime_env \<Rightarrow> string \<Rightarrow> string" where
  "encodedFilename M name = (if isASCII name then name else me_QEncode M name)"

definition attachmentBoundary :: "EmailResponseDto \<Rightarrow> string" where
  "attachmentBoundary email = ''mixed'' @ boundary (em_Id email # map at_BlobId (em_Attachments email))"

definition writeAttachmentPart :: "mime_env \<Rightarrow> EmailAttachmentDto \<Rightarrow> bytes option \<Rightarrow> string" where
  "writeAttachmentPart M a content =
     (let contentType = (if at_Type a = [] then ''application/octet-stream'' else at_Type a)
      in writeHeader ''Content-Type'' (contentType @ ''; name='' @ go_quote (me_quote_run M) (at_Name a)) @
         writeHeader ''Content-Transfer-Encoding'' ''base64'' @
         writeHeader ''Content-Disposition''
           (''attachment; filename='' @ go_quote (me_quote_run M) (encodedFilename M (at_Name a))) @
         crlf @
         (case content of
           Some c \<Rightarrow> writeBase64 (b64_encode c)
         | None \<Rightarrow> writeBase64 (replicate (b64_encoded_len (attachmentSize a)) (CHR ''A''))))"

definition BuildLiteralWithAttachments :: "mime_env \<Rightarrow> EmailResponseDto \<Rightarrow> (string \<rightharpoonup> bytes) \<Rightarrow> err + string" where
  "BuildLiteralWithAttachments M email blobs =
     (if length (em_Attachments email) = 0 then BuildLiteral M email
      else
        bind_err (writeHeaders M email) (\<lambda>headers.
        let b = attachmentBoundary email
        in Inr (headers @
             writeHeader ''Content-Type'' (''multipart/mixed; boundary='' @ go_quote (me_quote_run M) b) @ crlf @
             ''--'' @ b @ crlf @ writeBody M email @
             concat (map (\<lambda>a. crlf @ ''--'' @ b @ crlf @ writeAttachmentPart M a (blobs (at_BlobId a)))
               (em_Attachments email)) @
             crlf @ ''--'' @ b @ ''--'' @ crlf)))"

section \<open>Lemmas\<close>

lemma crlf_simps [simp]: "length crlf = 2" "crlf \<noteq> []" "set crlf = {CHR 0x0D, CHR 0x0A}"
  by (simp_all add: crlf_def)

text \<open>The layout of an encoded text depends on its length only.\<close>

lemma length_writeBase64_cong: "length s = length t \<Longrightarrow> length (writeBase64 s) = length (writeBase64 t)"
proof (induction s arbitrary: t rule: writeBase64.induct)
  case (1 s)
  show ?case
  proof (cases "attachmentLineLength < length s")
    case True
    with 1(1) [OF True, of "drop attachmentLineLength t"] 1(2) show ?thesis
      by (simp add: writeBase64.simps [of s] writeBase64.simps [of t])
  next
    case False
    with 1(2) show ?thesis by (simp add: writeBase64.simps [of s] writeBase64.simps [of t])
  qed
qed

lemma writeBase64_text:
  assumes "CHR 0x0D \<notin> set s" "CHR 0x0A \<notin> set s"
  shows "filter (\<lambda>c. c \<noteq> CHR 0x0D \<and> c \<noteq> CHR 0x0A) (writeBase64 s) = s"
  using assms
proof (induction s rule: writeBase64.induct)
  case (1 s)
  have plain: "filter (\<lambda>c. c \<noteq> CHR 0x0D \<and> c \<noteq> CHR 0x0A) t = t" if "set t \<subseteq> set s" for t
    using that 1(2,3) by (auto intro: filter_True)
  show ?case
  proof (cases "attachmentLineLength < length s")
    case True
    have "filter (\<lambda>c. c \<noteq> CHR 0x0D \<and> c \<noteq> CHR 0x0A) (writeBase64 (drop attachmentLineLength s)) =
        drop attachmentLineLength s"
      using 1(1) [OF True] 1(2,3) by (meson in_set_dropD)
    with True plain [OF set_take_subset, of attachmentLineLength] show ?thesis
      by (simp add: writeBase64.simps [of s] crlf_def)
  next
    case False
    with plain [of s] show ?thesis by (simp add: writeBase64.simps [of s] crlf_def)
  qed
qed

lemma b64_decode_writeBase64: "b64_decode (writeBase64 (b64_encode bs)) = Inr bs"
proof -
  have "CHR 0x0D \<notin> set (b64_encode bs)" "CHR 0x0A \<notin> set (b64_encode bs)"
    using b64_encode_no_newline by blast+
  from writeBase64_text [OF this] show ?thesis
    by (simp add: b64_decode_def b64_decode_quads_encode)
qed

text \<open>The bytes an attachment takes up, those it has or those it is announced with.\<close>

definition announced_size :: "EmailAttachmentDto \<Rightarrow> bytes option \<Rightarrow> nat" where
  "announced_size a content = (case content of Some c \<Rightarrow> length c | None \<Rightarrow> attachmentSize a)"

lemma length_writeAttachmentPart:
  assumes "announced_size a content = announced_size a content'"
  shows "length (writeAttachmentPart M a content) = length (writeAttachmentPart M a content')"
proof -
  have "length (case content of Some c \<Rightarrow> writeBase64 (b64_encode c)
        | None \<Rightarrow> writeBase64 (replicate (b64_encoded_len (attachmentSize a)) (CHR ''A''))) =
      length (writeBase64 (replicate (b64_encoded_len (announced_size a content)) (CHR ''A'')))" for content
    by (cases content) (auto simp: announced_size_def intro: length_writeBase64_cong)
  with assms show ?thesis by (simp add: writeAttachmentPart_def Let_def)
qed

section \<open>Properties\<close>

lemma EmailIDFromMessageID_messageID:
  "EmailIDFromMessageID (messageID email) =
     (if em_Id email \<noteq> [] \<and> CHR 0x40 \<notin> set (em_Id email) then Some (em_Id email) else None)"
proof -
  let ?i = "em_Id email"
  have t: "trim_space (messageID email) = messageID email"
    using trim_space_framed [of "CHR ''<''" "CHR ''>''" "em_Id email @ ''@'' @ MessageIDDomain"]
    by (simp add: messageID_def graphic_char_def)
  have "trim_suffix (trim_prefix (messageID email) ''<'') ''>'' = ?i @ CHR 0x40 # MessageIDDomain"
    using trim_suffix_append [of "?i @ CHR 0x40 # MessageIDDomain" "''>''"]
      trim_prefix_append [of "''<''" "?i @ ''@'' @ MessageIDDomain @ ''>''"]
    by (simp add: messageID_def)
  moreover have "cut_at (CHR 0x40) (?i @ CHR 0x40 # MessageIDDomain) = (?i, MessageIDDomain, True)"
    if "CHR 0x40 \<notin> set ?i" using that by (rule cut_at_append)
  moreover have "fst (snd (cut_at (CHR 0x40) (?i @ CHR 0x40 # MessageIDDomain))) \<noteq> MessageIDDomain"
    if at: "CHR 0x40 \<in> set ?i"
  proof -
    obtain a b where i: "?i = a @ CHR 0x40 # b" "CHR 0x40 \<notin> set a"
      using split_list_first [OF at] by blast
    have "CHR 0x40 \<notin> set MessageIDDomain" by (simp add: MessageIDDomain_def)
    then have "b @ CHR 0x40 # MessageIDDomain \<noteq> MessageIDDomain" by (metis in_set_conv_decomp)
    with cut_at_append [OF i(2), of "b @ CHR 0x40 # MessageIDDomain"] show ?thesis by (simp add: i(1))
  qed
  ultimately show ?thesis
    by (cases "cut_at (CHR 0x40) (?i @ CHR 0x40 # MessageIDDomain)")
       (auto simp: EmailIDFromMessageID_def t split: if_splits)
qed

text \<open>
  A Message-ID the bridge wrote gives the email's identifier back exactly when that identifier is
  not empty and has no at sign in it; otherwise it is refused, never mistaken for another email's.
\<close>

theorem EmailIDFromMessageID_roundtrip:
  "EmailIDFromMessageID (messageID email) =
     (if em_Id email \<noteq> [] \<and> CHR 0x40 \<notin> set (em_Id email) then Some (em_Id email) else None)"
  by (rule EmailIDFromMessageID_messageID)

text \<open>
  A message announced before its attachments are downloaded has the length it will have with
  them: exchanging the content of an attachment for a placeholder of the same size, or the other way
  round, changes neither whether the message can be built nor how long it is.
\<close>

theorem placeholder_same_length:
  assumes "\<And>a. a \<in> set (em_Attachments email) \<Longrightarrow>
      announced_size a (blobs (at_BlobId a)) = announced_size a (blobs' (at_BlobId a))"
  shows "map_sum id length (BuildLiteralWithAttachments M email blobs) =
    map_sum id length (BuildLiteralWithAttachments M email blobs')"
proof (cases "length (em_Attachments email) = 0 \<or> \<not> is_ok (writeHeaders M email)")
  case True
  then show ?thesis by (cases "writeHeaders M email") (auto simp: BuildLiteralWithAttachments_def)
next
  case False
  then obtain headers where h: "writeHeaders M email = Inr headers" by (auto simp: is_ok_iff)
  define part where "part bl a = crlf @ ''--'' @ attachmentBoundary email @ crlf @
    writeAttachmentPart M a (bl (at_BlobId a))" for bl a
  have "map (\<lambda>a. length (part blobs a)) (em_Attachments email) =
      map (\<lambda>a. length (part blobs' a)) (em_Attachments email)"
  proof (rule map_cong [OF refl])
    fix a assume "a \<in> set (em_Attachments email)"
    from length_writeAttachmentPart [OF assms [OF this], of M]
    show "length (part blobs a) = length (part blobs' a)" by (simp add: part_def)
  qed
  then have l: "length (concat (map (part blobs) (em_Attachments email))) =
      length (concat (map (part blobs') (em_Attachments email)))"
    by (simp only: length_concat map_map comp_def)
  have "BuildLiteralWithAttachments M email bl = Inr (headers @
      writeHeader ''Content-Type'' (''multipart/mixed; boundary='' @
        go_quote (me_quote_run M) (attachmentBoundary email)) @ crlf @
      ''--'' @ attachmentBoundary email @ crlf @ writeBody M email @
      concat (map (part bl) (em_Attachments email)) @
      crlf @ ''--'' @ attachmentBoundary email @ ''--'' @ crlf)" for bl
    using False h unfolding part_def [abs_def] BuildLiteralWithAttachments_def
    by (simp only: if_False bind_err.simps Let_def) simp
  with l show ?thesis by (simp only: map_sum.simps length_append)
qed

text \<open>
  What is written of an attachment decodes to its bytes: the lines are at most 76 characters
  long, their base64 text is the content's, and the decoder, which skips line breaks, gives it back.
\<close>

theorem writeBase64_decodes:
  "b64_decode (writeBase64 (b64_encode content)) = Inr content \<and>
   (\<exists>lines. writeBase64 (b64_encode content) = concat (map (\<lambda>l. l @ crlf) lines) \<and>
      list_all (\<lambda>l. length l \<le> 76) lines \<and> concat lines = b64_encode content)"
proof -
  have "\<exists>lines. writeBase64 s = concat (map (\<lambda>l. l @ crlf) lines) \<and>
      list_all (\<lambda>l. length l \<le> 76) lines \<and> concat lines = s" for s
  proof (induction s rule: writeBase64.induct)
    case (1 s)
    show ?case
    proof (cases "attachmentLineLength < length s")
      case True
      from 1 [OF True] obtain lines where
        "writeBase64 (drop attachmentLineLength s) = concat (map (\<lambda>l. l @ crlf) lines)"
        "list_all (\<lambda>l. length l \<le> 76) lines" "concat lines = drop attachmentLineLength s" by blast
      with True show ?thesis
        by (intro exI [of _ "take attachmentLineLength s # lines"])
           (simp add: writeBase64.simps [of s] attachmentLineLength_def)
    next
      case False
      then show ?thesis
        by (intro exI [of _ "[s]"]) (simp add: writeBase64.simps [of s] attachmentLineLength_def)
    qed
  qed
  with b64_decode_writeBase64 show ?thesis by blast
qed

definition toy_mime :: mime_env where
  "toy_mime = \<lparr>me_QEncode = id, me_quotedprintable = id, me_address = (\<lambda>n a. ''<'' @ a @ ''>''),
     me_quote_run = id, me_parse_rfc3339 = (\<lambda>s. Some 0), me_format_rfc1123z = (\<lambda>t. ''now'')\<rparr>"

theorem placeholder_same_length_witness:
  "map_sum id length (BuildLiteralWithAttachments toy_mime
     (zero_email\<lparr>em_ReceivedAt := ''now'', em_Attachments :=
       [\<lparr>at_BlobId = ''b'', at_Name = ''n'', at_Size = 3, at_Type = ''t''\<rparr>]\<rparr>) Map.empty) =
   map_sum id length (BuildLiteralWithAttachments toy_mime
     (zero_email\<lparr>em_ReceivedAt := ''now'', em_Attachments :=
       [\<lparr>at_BlobId = ''b'', at_Name = ''n'', at_Size = 3, at_Type = ''t''\<rparr>]\<rparr>) [''b'' \<mapsto> [1, 2, 3]])"
  by (rule placeholder_same_length) (auto simp: announced_size_def attachmentSize_def)

end
