(* ===== verification/MailConnector.thy ===== *)
theory MailConnector
  imports Mime Stateful
begin

text \<open>
  \<open>internal/imapserver/mailconnector\<close>: the connector that keeps Gluon in line with the account. Its
  state is what the last sync saw (\<open>cs_messages\<close>), the kinds of the folders (\<open>cs_mailboxTypes\<close>), the
  updates sent to Gluon, in order, and the state of the mail service it calls. Go's map of messages
  is a list of distinct keys; the order in which Go iterates over it is unspecified, so nothing
  proved depends on the order of that list.

  The updates channel is the list of what was sent on it: Gluon reads it concurrently, and a full
  channel only delays the sender. The concurrent download of bodies is a machine whose steps are
  chosen by an arbitrary schedule.
\<close>

section \<open>What Gluon is told\<close>

record imap_mailbox =
  im_ID :: string
  im_Name :: "string list"
  im_Flags :: "string set"
  im_PermanentFlags :: "string set"
  im_Attributes :: "string set"

record message_created =
  mc_ID :: string
  mc_Flags :: "string set"
  mc_Date :: int
  mc_Literal :: bytes
  mc_MailboxIDs :: "string list"

datatype update =
    MailboxCreated imap_mailbox
  | MessagesCreated bool "message_created list"
  | MessageMailboxesUpdated string "string list" "string set"
  | MessagesDeleted "string list"

text \<open>Gluon's names of flags and attributes: a backslash and the word.\<close>

definition bs :: "string \<Rightarrow> string" where
  "bs w = CHR 0x5C # w"

definition FlagSeen :: string where "FlagSeen = bs ''Seen''"
definition FlagFlagged :: string where "FlagFlagged = bs ''Flagged''"
definition FlagDraft :: string where "FlagDraft = bs ''Draft''"

section \<open>The mail service\<close>

record 's mail_service =
  ms_ListMailboxes :: "('s, MailboxResponseDto list) op"
  ms_ListAllEmails :: "ListEmailsOptions \<Rightarrow> ('s, EmailSummaryResponseDto list) op"
  ms_GetMessageLiteral :: "string \<Rightarrow> 's \<Rightarrow> (bytes option \<times> err option) \<times> 's"
  ms_ForgetThreads :: "'s \<Rightarrow> 's"
  ms_MarkRead :: "string list \<Rightarrow> bool \<Rightarrow> ('s, unit) op"
  ms_MarkFlagged :: "string list \<Rightarrow> bool \<Rightarrow> ('s, unit) op"
  ms_Move :: "string list \<Rightarrow> Mailbox \<Rightarrow> ('s, unit) op"
  ms_Delete :: "string list \<Rightarrow> ('s, unit) op"
  ms_SaveDraft :: "bytes \<Rightarrow> ('s, string) op"
  ms_SentCopyID :: "bytes \<Rightarrow> 's \<Rightarrow> string option \<times> 's"
  ms_DiscardDrafts :: "string list \<Rightarrow> ('s, unit) op"

section \<open>States of messages\<close>

record messageState =
  st_mailboxIDs :: "string list"
  st_isRead :: bool
  st_isFlagged :: bool
  st_isDraft :: bool

definition stateOf :: "EmailSummaryResponseDto \<Rightarrow> messageState" where
  "stateOf summary =
     \<lparr>st_mailboxIDs = su_MailboxIds summary, st_isRead = su_IsRead summary,
      st_isFlagged = su_IsFlagged summary, st_isDraft = su_IsDraft summary\<rparr>"

definition sameAs :: "messageState \<Rightarrow> messageState \<Rightarrow> bool" where
  "sameAs s other =
     (if st_isRead s \<noteq> st_isRead other \<or> st_isFlagged s \<noteq> st_isFlagged other \<or> st_isDraft s \<noteq> st_isDraft other
      then False
      else if length (st_mailboxIDs s) \<noteq> length (st_mailboxIDs other) then False
      else list_all (\<lambda>ident. ident \<in> set (st_mailboxIDs other)) (st_mailboxIDs s))"

definition imapMailboxIDs :: "messageState \<Rightarrow> string list" where
  "imapMailboxIDs s = st_mailboxIDs s"

definition state_flags :: "messageState \<Rightarrow> string set" where
  "state_flags s =
     (if st_isRead s then {FlagSeen} else {}) \<union> (if st_isFlagged s then {FlagFlagged} else {}) \<union>
     (if st_isDraft s then {FlagDraft} else {})"

section \<open>The connector's state\<close>

record 's connector =
  cs_service :: 's
  cs_updates :: "update list"
  cs_mailboxTypes :: "(string \<times> Mailbox) list"
  cs_messages :: "(string \<times> messageState) list"

text \<open>\<open>m[k] = v\<close> and \<open>delete(m, k)\<close> on a map kept as a list of distinct keys.\<close>

definition put :: "string \<Rightarrow> 'v \<Rightarrow> (string \<times> 'v) list \<Rightarrow> (string \<times> 'v) list" where
  "put k v m = (k, v) # filter (\<lambda>e. fst e \<noteq> k) m"

definition drop_key :: "string \<Rightarrow> (string \<times> 'v) list \<Rightarrow> (string \<times> 'v) list" where
  "drop_key k m = filter (\<lambda>e. fst e \<noteq> k) m"

definition send :: "update \<Rightarrow> 's connector \<Rightarrow> 's connector" where
  "send u c = c\<lparr>cs_updates := cs_updates c @ [u]\<rparr>"

definition with_service :: "('s \<Rightarrow> 'r \<times> 's) \<Rightarrow> 's connector \<Rightarrow> 'r \<times> 's connector" where
  "with_service f c = (case f (cs_service c) of (r, s) \<Rightarrow> (r, c\<lparr>cs_service := s\<rparr>))"

definition rememberMessages :: "(string \<times> messageState) list \<Rightarrow> 's connector \<Rightarrow> 's connector" where
  "rememberMessages seen c = c\<lparr>cs_messages := fold (\<lambda>(ident, state). put ident state) seen (cs_messages c)\<rparr>"

definition forgetMessages :: "string list \<Rightarrow> 's connector \<Rightarrow> 's connector" where
  "forgetMessages ids c = c\<lparr>cs_messages := fold drop_key ids (cs_messages c)\<rparr>"

definition knownMessage :: "'s connector \<Rightarrow> string \<Rightarrow> messageState option" where
  "knownMessage c ident = map_of (cs_messages c) ident"

definition missingMessages :: "'s connector \<Rightarrow> (string \<times> messageState) list \<Rightarrow> string list" where
  "missingMessages c seen = filter (\<lambda>ident. ident \<notin> fst ` set seen) (map fst (cs_messages c))"

definition knownMailbox :: "'s connector \<Rightarrow> string \<Rightarrow> bool" where
  "knownMailbox c ident = (map_of (cs_mailboxTypes c) ident \<noteq> None)"

section \<open>Mapping\<close>

definition inboxName :: string where "inboxName = ''INBOX''"

definition mailboxType :: "MailboxResponseDto \<Rightarrow> Mailbox" where
  "mailboxType mailbox = (case mb_Type mailbox of None \<Rightarrow> [] | Some t \<Rightarrow> t)"

definition mailboxName :: "MailboxResponseDto \<Rightarrow> string" where
  "mailboxName mailbox = (if mailboxType mailbox = MailboxInbox then inboxName else mb_Name mailbox)"

definition mailboxAttributes :: "MailboxResponseDto \<Rightarrow> string set" where
  "mailboxAttributes mailbox =
     (let t = mailboxType mailbox in
      if t = MailboxSent then {bs ''Sent''} else if t = MailboxDrafts then {bs ''Drafts''}
      else if t = MailboxTrash then {bs ''Trash''} else if t = MailboxSpam then {bs ''Junk''}
      else if t = MailboxArchive then {bs ''Archive''} else {})"

definition defaultPermanentFlags :: "string set" where
  "defaultPermanentFlags = {FlagSeen, FlagFlagged, bs ''Deleted'', bs ''Answered'', FlagDraft}"

definition toIMAPMailbox :: "MailboxResponseDto \<Rightarrow> imap_mailbox" where
  "toIMAPMailbox mailbox =
     \<lparr>im_ID = mb_Id mailbox, im_Name = [mailboxName mailbox], im_Flags = {bs ''Noinferiors''},
      im_PermanentFlags = defaultPermanentFlags, im_Attributes = mailboxAttributes mailbox\<rparr>"

definition messageFlags :: "EmailSummaryResponseDto \<Rightarrow> string set" where
  "messageFlags summary =
     (if su_IsRead summary then {FlagSeen} else {}) \<union> (if su_IsFlagged summary then {FlagFlagged} else {}) \<union>
     (if su_IsDraft summary then {FlagDraft} else {})"

text \<open>
  The connector's surroundings: the encoders and the calendar, the current time, Gluon's parser of
  messages (the error it gives, if any), and which of the sync event handlers are set.
\<close>

record connector_env =
  ce_mime :: mime_env
  ce_now :: int
  ce_parse :: "bytes \<Rightarrow> err option"
  ce_onStarted :: bool
  ce_onProgress :: bool
  ce_onFinished :: bool
  ce_clock :: "nat \<Rightarrow> int"

definition receivedAt :: "connector_env \<Rightarrow> EmailSummaryResponseDto \<Rightarrow> int" where
  "receivedAt V summary =
     (case me_parse_rfc3339 (ce_mime V) (su_ReceivedAt summary) of Some t \<Rightarrow> t | None \<Rightarrow> ce_now V)"

definition headerValue :: "string \<Rightarrow> string" where
  "headerValue v = map (\<lambda>c. if c = CHR 0x0D \<or> c = CHR 0x0A then CHR '' '' else c) v"

definition addressList :: "connector_env \<Rightarrow> EmailAddressDto list \<Rightarrow> string" where
  "addressList V addresses =
     (if length addresses = 0 then ''unknown@invalid''
      else join (map (\<lambda>a. if ad_Name a \<noteq> None \<and> ad_Name a \<noteq> Some []
             then go_quote (me_quote_run (ce_mime V)) (the (ad_Name a)) @ '' <'' @ ad_Email a @ ''>''
             else ad_Email a) addresses) '', '')"

definition text_plain_line :: string where
  "text_plain_line = ''Content-Type: text/plain; charset='' @ [CHR 0x22] @ ''utf-8'' @ [CHR 0x22] @ crlf"

definition writeSummaryWithAttachment :: "connector_env \<Rightarrow> EmailSummaryResponseDto \<Rightarrow> string" where
  "writeSummaryWithAttachment V summary =
     (let b = ''summary'' @ su_Id summary
      in ''Content-Type: multipart/mixed; boundary='' @ go_quote (me_quote_run (ce_mime V)) b @ crlf @ crlf @
         ''--'' @ b @ crlf @
         text_plain_line @ crlf @
         headerValue (su_Preview summary) @ crlf @
         ''--'' @ b @ crlf @
         ''Content-Type: application/octet-stream'' @ crlf @
         ''Content-Transfer-Encoding: base64'' @ crlf @
         ''Content-Disposition: attachment'' @ crlf @ crlf @
         crlf @
         ''--'' @ b @ ''--'' @ crlf)"

definition summaryLiteral :: "connector_env \<Rightarrow> EmailSummaryResponseDto \<Rightarrow> string" where
  "summaryLiteral V summary =
     ''MIME-Version: 1.0'' @ crlf @
     (if su_ThreadId summary \<noteq> [] \<and> su_ThreadId summary \<noteq> su_Id summary
      then ''References: <'' @ su_ThreadId summary @ ''@'' @ MessageIDDomain @ ''>'' @ crlf else []) @
     ''Message-ID: <'' @ su_Id summary @ ''@'' @ MessageIDDomain @ ''>'' @ crlf @
     ''Date: '' @ me_format_rfc1123z (ce_mime V) (receivedAt V summary) @ crlf @
     ''Subject: '' @ headerValue (su_Subject summary) @ crlf @
     ''From: '' @ addressList V (su_From summary) @ crlf @
     (if su_HasAttachment summary then writeSummaryWithAttachment V summary
      else text_plain_line @ crlf @ headerValue (su_Preview summary) @ crlf)"

definition toIMAPMessage :: "connector_env \<Rightarrow> MailboxResponseDto \<Rightarrow> EmailSummaryResponseDto \<Rightarrow> bytes option \<Rightarrow>
    err + message_created" where
  "toIMAPMessage V mailbox summary literal =
     (let literal = (case literal of Some l \<Rightarrow> l | None \<Rightarrow> []);
          literal = (if length literal = 0 then str_bytes (summaryLiteral V summary) else literal)
      in case ce_parse V literal of
           Some e \<Rightarrow> Inl (ErrWrap ''parse message'' e)
         | None \<Rightarrow> Inr \<lparr>mc_ID = su_Id summary, mc_Flags = messageFlags summary,
             mc_Date = receivedAt V summary, mc_Literal = literal, mc_MailboxIDs = [mb_Id mailbox]\<rparr>)"

section \<open>Progress\<close>

datatype sync_event = OnStarted int | OnProgress int int int | OnFinished int int string

definition progressInterval :: int where
  "progressInterval = 250 * 1000000"

record progress =
  pr_total :: int
  pr_done :: int
  pr_lastReport :: "int option"

definition percentOf :: "int \<Rightarrow> int \<Rightarrow> int" where
  "percentOf made tot = (if tot \<le> 0 then 100 else made * 100 div tot)"

text \<open>A reporter (nil is None) with the events it has reported so far.\<close>

definition newProgressReporter :: "connector_env \<Rightarrow> bool \<Rightarrow> int \<Rightarrow> progress option \<times> sync_event list" where
  "newProgressReporter V requested tot =
     (if \<not> ce_onProgress V then (None, [])
      else if tot \<le> 0 \<and> \<not> requested then (None, [])
      else (Some \<lparr>pr_total = tot, pr_done = 0, pr_lastReport = None\<rparr>,
            if ce_onStarted V then [OnStarted tot] else []))"

text \<open>The zero time lies further back than any interval.\<close>

definition advance :: "int \<Rightarrow> progress option \<times> sync_event list \<Rightarrow> progress option \<times> sync_event list" where
  "advance now pe =
     (case pe of
       (None, evs) \<Rightarrow> (None, evs)
     | (Some p, evs) \<Rightarrow>
         let p = p\<lparr>pr_done := pr_done p + 1\<rparr>
         in if pr_done p \<noteq> pr_total p \<and>
               (case pr_lastReport p of None \<Rightarrow> False | Some t \<Rightarrow> now - t < progressInterval)
            then (Some p, evs)
            else (Some (p\<lparr>pr_lastReport := Some now\<rparr>),
                  evs @ [OnProgress (pr_done p) (pr_total p) (percentOf (pr_done p) (pr_total p))]))"

definition finish :: "connector_env \<Rightarrow> string \<Rightarrow> progress option \<times> sync_event list \<Rightarrow> sync_event list" where
  "finish V code pe =
     (case pe of
       (None, evs) \<Rightarrow> evs
     | (Some p, evs) \<Rightarrow>
         if \<not> ce_onFinished V then evs else evs @ [OnFinished (pr_done p) (pr_total p) code])"

section \<open>Downloading and announcing\<close>

definition listEmailsLimit :: int where "listEmailsLimit = 100"
definition fetchBodyConcurrency :: nat where "fetchBodyConcurrency = 8"
definition messageAnnounceBatch :: nat where "messageAnnounceBatch = 15"

text \<open>
  Where the goroutine of one message is: not started (\<open>group.Go\<close> starts them in order, at most
  \<open>fetchBodyConcurrency\<close> at once), started, with the body it fetched, counted by the reporter, about
  to append its message, having appended it to a full batch and about to take the batch, holding a
  batch to send, or returned. Each critical section is one step.
\<close>

datatype phase =
    Waiting
  | Started
  | Fetched "bytes option"
  | Counted "bytes option"
  | Appending message_created
  | FullBatch
  | Holding "message_created list"
  | Returned

record 's announcing =
  an_connector :: "'s connector"
  an_progress :: "progress option \<times> sync_event list"
  an_ticks :: nat
  an_pending :: "message_created list"
  an_skipped :: "string list"
  an_phases :: "phase list"

definition running :: "phase \<Rightarrow> bool" where
  "running p \<longleftrightarrow> p \<noteq> Waiting \<and> p \<noteq> Returned"

definition set_phase :: "nat \<Rightarrow> phase \<Rightarrow> 's announcing \<Rightarrow> 's announcing" where
  "set_phase i p a = a\<lparr>an_phases := (an_phases a)[i := p]\<rparr>"

text \<open>
  The next step of goroutine \<open>i\<close>; a goroutine that cannot step leaves everything as it is. \<open>Go\<close> of a group
  with \<open>SetLimit(n)\<close> waits until fewer than \<open>n\<close> goroutines run and then starts the next in the order of the
  calls: that is documented of \<open>errgroup\<close>, which the repository only imports, and is the guard of the first step.
\<close>

definition announce_step :: "connector_env \<Rightarrow> 's mail_service \<Rightarrow> MailboxResponseDto \<Rightarrow>
    EmailSummaryResponseDto list \<Rightarrow> nat \<Rightarrow> 's announcing \<Rightarrow> 's announcing" where
  "announce_step V MS mailbox summaries i a =
     (if length summaries \<le> i \<or> length (an_phases a) \<le> i then a
      else case an_phases a ! i of
          Waiting \<Rightarrow>
            if i = length (takeWhile (\<lambda>p. p \<noteq> Waiting) (an_phases a)) \<and>
               length (filter running (an_phases a)) < fetchBodyConcurrency
            then set_phase i Started a else a
        | Started \<Rightarrow>
            let ((literal, err), c) = with_service (ms_GetMessageLiteral MS (su_Id (summaries ! i))) (an_connector a)
            in set_phase i (Fetched literal) (a\<lparr>an_connector := c\<rparr>)
        | Fetched literal \<Rightarrow>
            set_phase i (Counted literal)
              (a\<lparr>an_progress := advance (ce_clock V (an_ticks a)) (an_progress a), an_ticks := an_ticks a + 1\<rparr>)
        | Counted literal \<Rightarrow>
            (case toIMAPMessage V mailbox (summaries ! i) literal of
              Inl e \<Rightarrow> set_phase i Returned (a\<lparr>an_skipped := an_skipped a @ [su_Id (summaries ! i)]\<rparr>)
            | Inr message \<Rightarrow> set_phase i (Appending message) a)
        | Appending message \<Rightarrow>
            let pending = an_pending a @ [message]
            in set_phase i (if messageAnnounceBatch \<le> length pending then FullBatch else Returned)
                 (a\<lparr>an_pending := pending\<rparr>)
        | FullBatch \<Rightarrow> set_phase i (Holding (an_pending a)) (a\<lparr>an_pending := []\<rparr>)
        | Holding batch \<Rightarrow>
            set_phase i Returned
              (if length batch > 0 then a\<lparr>an_connector := send (MessagesCreated True batch) (an_connector a)\<rparr> else a)
        | Returned \<Rightarrow> a)"

text \<open>The final \<open>flush\<close>, after \<open>group.Wait\<close>.\<close>

definition final_flush :: "'s announcing \<Rightarrow> 's announcing" where
  "final_flush a =
     (let batch = an_pending a; a = a\<lparr>an_pending := []\<rparr>
      in if length batch > 0 then a\<lparr>an_connector := send (MessagesCreated True batch) (an_connector a)\<rparr> else a)"

text \<open>
  \<open>schedule\<close> says which goroutine steps next; after it, the goroutines still running are run to their
  end one after the other (a goroutine takes at most seven steps).
\<close>

definition announceNewMessages :: "connector_env \<Rightarrow> 's mail_service \<Rightarrow> nat list \<Rightarrow> MailboxResponseDto \<Rightarrow>
    EmailSummaryResponseDto list \<Rightarrow> 's connector \<Rightarrow> progress option \<times> sync_event list \<Rightarrow> nat \<Rightarrow> 's announcing" where
  "announceNewMessages V MS schedule mailbox summaries c pe ticks =
     (let a = \<lparr>an_connector = c, an_progress = pe, an_ticks = ticks, an_pending = [], an_skipped = [],
            an_phases = replicate (length summaries) Waiting\<rparr>
      in if length summaries = 0 then a
         else
           final_flush
             (fold (announce_step V MS mailbox summaries)
               (schedule @ concat (map (\<lambda>i. replicate 7 i) [0..<length summaries])) a))"

section \<open>Syncing\<close>

record mailboxWork =
  wk_mailbox :: MailboxResponseDto
  wk_created :: "EmailSummaryResponseDto list"

definition rememberMailboxType :: "MailboxResponseDto \<Rightarrow> 's connector \<Rightarrow> 's connector" where
  "rememberMailboxType mailbox c =
     (let kind = mailboxType mailbox
      in if kind = [] then c else c\<lparr>cs_mailboxTypes := put (mb_Id mailbox) kind (cs_mailboxTypes c)\<rparr>)"

text \<open>One summary of the scan: what is seen, what is new, and the update it causes.\<close>

definition scan_summary :: "EmailSummaryResponseDto \<Rightarrow>
    (string \<times> messageState) list \<times> EmailSummaryResponseDto list \<times> 's connector \<Rightarrow>
    (string \<times> messageState) list \<times> EmailSummaryResponseDto list \<times> 's connector" where
  "scan_summary summary acc =
     (let (seen, created, c) = acc;
          state = stateOf summary;
          seen = put (su_Id summary) state seen
      in case knownMessage c (su_Id summary) of
           None \<Rightarrow> (seen, created @ [summary], c)
         | Some known \<Rightarrow>
             if \<not> sameAs known state
             then (seen, created, send (MessageMailboxesUpdated (su_Id summary) (imapMailboxIDs state) (state_flags state)) c)
             else (seen, created, c))"

definition scanMailbox :: "'s mail_service \<Rightarrow> MailboxResponseDto \<Rightarrow> (string \<times> messageState) list \<Rightarrow> 's connector \<Rightarrow>
    (err + EmailSummaryResponseDto list) \<times> (string \<times> messageState) list \<times> 's connector" where
  "scanMailbox MS mailbox seen c =
     (let c = (if \<not> knownMailbox c (mb_Id mailbox) then send (MailboxCreated (toIMAPMailbox mailbox)) c else c);
          c = rememberMailboxType mailbox c
      in case with_service (ms_ListAllEmails MS \<lparr>lo_Mailbox = mailboxType mailbox, lo_Limit = listEmailsLimit,
                lo_Position = 0, lo_AnchorID = [], lo_Unread = None\<rparr>) c of
           (Inl e, c) \<Rightarrow> (Inl (ErrWrap ''list emails'' e), seen, c)
         | (Inr summaries, c) \<Rightarrow>
             (let (seen, created, c) = fold scan_summary summaries (seen, [], c)
              in (Inr created, seen, c)))"

text \<open>The loop of \<open>Sync\<close> over the folders: what is seen, what to download, whether all answered.\<close>

fun scan_all :: "'s mail_service \<Rightarrow> MailboxResponseDto list \<Rightarrow> (string \<times> messageState) list \<Rightarrow> 's connector \<Rightarrow>
    (string \<times> messageState) list \<times> mailboxWork list \<times> bool \<times> 's connector" where
  "scan_all MS [] seen c = (seen, [], True, c)"
| "scan_all MS (mailbox # mailboxes) seen c =
     (case scanMailbox MS mailbox seen c of
       (Inl e, seen, c) \<Rightarrow>
         (let (seen, work, complete, c) = scan_all MS mailboxes seen c in (seen, work, False, c))
     | (Inr created, seen, c) \<Rightarrow>
         (let (seen, work, complete, c) = scan_all MS mailboxes seen c
          in (seen, (if length created > 0 then [\<lparr>wk_mailbox = mailbox, wk_created = created\<rparr>] else []) @ work,
              complete, c)))"

text \<open>The folders' downloads one after the other, each with its own schedule.\<close>

fun download_each_mailbox :: "connector_env \<Rightarrow> 's mail_service \<Rightarrow> (nat \<Rightarrow> nat list) \<Rightarrow> nat \<Rightarrow> mailboxWork list \<Rightarrow>
    's connector \<Rightarrow> progress option \<times> sync_event list \<Rightarrow> nat \<Rightarrow> 's connector \<times> (progress option \<times> sync_event list)" where
  "download_each_mailbox V MS schedules k [] c pe ticks = (c, pe)"
| "download_each_mailbox V MS schedules k (w # work) c pe ticks =
     (let a = announceNewMessages V MS (schedules k) (wk_mailbox w) (wk_created w) c pe ticks
      in download_each_mailbox V MS schedules (k + 1) work (an_connector a) (an_progress a) (an_ticks a))"

definition downloadNewMessages :: "connector_env \<Rightarrow> 's mail_service \<Rightarrow> (nat \<Rightarrow> nat list) \<Rightarrow> bool \<Rightarrow> mailboxWork list \<Rightarrow>
    's connector \<Rightarrow> 's connector \<times> sync_event list" where
  "downloadNewMessages V MS schedules requested work c =
     (let tot = sum_list (map (\<lambda>w. int (length (wk_created w))) work);
          (c, pe) = download_each_mailbox V MS schedules 0 work c (newProgressReporter V requested tot) 0
      in (c, finish V [] pe))"

definition forgetDeleted :: "(string \<times> messageState) list \<Rightarrow> 's connector \<Rightarrow> 's connector" where
  "forgetDeleted seen c =
     (let missing = missingMessages c seen
      in forgetMessages missing (fold (\<lambda>ident. send (MessagesDeleted [ident])) missing c))"

definition forget_threads :: "'s mail_service \<Rightarrow> 's connector \<Rightarrow> 's connector" where
  "forget_threads MS c = c\<lparr>cs_service := ms_ForgetThreads MS (cs_service c)\<rparr>"

text \<open>\<open>requested\<close> is the mark \<open>withRequestedSync\<close> leaves on the context.\<close>

definition Sync :: "connector_env \<Rightarrow> 's mail_service \<Rightarrow> (nat \<Rightarrow> nat list) \<Rightarrow> bool \<Rightarrow> 's connector \<Rightarrow>
    (err + unit) \<times> sync_event list \<times> 's connector" where
  "Sync V MS schedules requested c =
     (case with_service (ms_ListMailboxes MS) c of
       (Inl e, c) \<Rightarrow>
         let evs = finish V ''list_mailboxes'' (newProgressReporter V requested 0)
         in (Inl (ErrWrap ''list mailboxes'' e), evs, forget_threads MS c)
     | (Inr mailboxes, c) \<Rightarrow>
         (let (seen, work, complete, c) = scan_all MS mailboxes [] c;
              (c, evs) = downloadNewMessages V MS schedules requested work c;
              c = rememberMessages seen c;
              c = (if complete then forgetDeleted seen c else c)
          in (Inr (), evs, forget_threads MS c)))"

section \<open>Serving and changing\<close>

definition GetMessageLiteral :: "'s mail_service \<Rightarrow> string \<Rightarrow> 's connector \<Rightarrow> (err + bytes) \<times> 's connector" where
  "GetMessageLiteral MS ident c =
     (case with_service (ms_GetMessageLiteral MS ident) c of
       ((None, e), c) \<Rightarrow> (Inl (ErrWrap ''fetch message'' (case e of Some e \<Rightarrow> e | None \<Rightarrow> ErrNew ''nil'')), c)
     | ((Some literal, e), c) \<Rightarrow> (Inr literal, c))"

definition mailboxTypeOf :: "'s connector \<Rightarrow> string \<Rightarrow> err + Mailbox" where
  "mailboxTypeOf c ident =
     (case map_of (cs_mailboxTypes c) ident of None \<Rightarrow> Inl (ErrNew ''unknown mailbox'') | Some kind \<Rightarrow> Inr kind)"

definition MarkMessagesSeen :: "'s mail_service \<Rightarrow> string list \<Rightarrow> bool \<Rightarrow> 's connector \<Rightarrow> (err + unit) \<times> 's connector" where
  "MarkMessagesSeen MS ids seen c = with_service (ms_MarkRead MS ids seen) c"

definition MarkMessagesFlagged :: "'s mail_service \<Rightarrow> string list \<Rightarrow> bool \<Rightarrow> 's connector \<Rightarrow> (err + unit) \<times> 's connector" where
  "MarkMessagesFlagged MS ids flagged c = with_service (ms_MarkFlagged MS ids flagged) c"

definition MoveMessages :: "'s mail_service \<Rightarrow> string list \<Rightarrow> string \<Rightarrow> string \<Rightarrow> 's connector \<Rightarrow>
    (bool \<times> err option) \<times> 's connector" where
  "MoveMessages MS ids mboxFromID mboxToID c =
     (case mailboxTypeOf c mboxToID of
       Inl e \<Rightarrow> ((False, Some e), c)
     | Inr destination \<Rightarrow>
         (case with_service (ms_Move MS ids destination) c of
           (Inl e, c) \<Rightarrow> ((False, Some e), c)
         | (Inr _, c) \<Rightarrow> ((True, None), c)))"

definition AddMessagesToMailbox :: "'s mail_service \<Rightarrow> string list \<Rightarrow> string \<Rightarrow> 's connector \<Rightarrow>
    (err + unit) \<times> 's connector" where
  "AddMessagesToMailbox MS ids mboxID c =
     (case mailboxTypeOf c mboxID of
       Inl e \<Rightarrow> (Inl e, c)
     | Inr destination \<Rightarrow> with_service (ms_Move MS ids destination) c)"

definition RemoveMessagesFromMailbox :: "'s mail_service \<Rightarrow> string list \<Rightarrow> string \<Rightarrow> 's connector \<Rightarrow>
    (err + unit) \<times> 's connector" where
  "RemoveMessagesFromMailbox MS ids mboxID c =
     (case mailboxTypeOf c mboxID of
       Inl e \<Rightarrow> (Inl e, c)
     | Inr kind \<Rightarrow>
         if kind = MailboxDrafts then with_service (ms_DiscardDrafts MS ids) c
         else if kind = MailboxTrash then with_service (ms_Delete MS ids) c
         else with_service (ms_Move MS ids MailboxTrash) c)"

definition CreateMailbox :: "string list \<Rightarrow> 's connector \<Rightarrow> (err + imap_mailbox) \<times> 's connector" where
  "CreateMailbox name c = (Inl (ErrSentinel ErrOperationNotAllowed), c)"

definition UpdateMailboxName :: "string \<Rightarrow> string list \<Rightarrow> 's connector \<Rightarrow> (err + unit) \<times> 's connector" where
  "UpdateMailboxName mboxID newName c = (Inl (ErrSentinel ErrOperationNotAllowed), c)"

definition DeleteMailbox :: "string \<Rightarrow> 's connector \<Rightarrow> (err + unit) \<times> 's connector" where
  "DeleteMailbox mboxID c = (Inl (ErrSentinel ErrOperationNotAllowed), c)"

text \<open>The message an append answers: its identifier, flags, date and literal.\<close>

definition sentCopy :: "'s mail_service \<Rightarrow> bytes \<Rightarrow> string set \<Rightarrow> int \<Rightarrow> 's connector \<Rightarrow>
    (err + string \<times> string set \<times> int \<times> bytes) \<times> 's connector" where
  "sentCopy MS literal flags date c =
     (case with_service (ms_SentCopyID MS literal) c of
       (None, c) \<Rightarrow> (Inl (ErrSentinel ErrOperationNotAllowed), c)
     | (Some ident, c) \<Rightarrow> (Inr (ident, flags, date, literal), c))"

definition CreateMessage :: "'s mail_service \<Rightarrow> string \<Rightarrow> bytes \<Rightarrow> string set \<Rightarrow> int \<Rightarrow> 's connector \<Rightarrow>
    (err + string \<times> string set \<times> int \<times> bytes) \<times> 's connector" where
  "CreateMessage MS mboxID literal flags date c =
     (case mailboxTypeOf c mboxID of
       Inl e \<Rightarrow> (Inl e, c)
     | Inr destination \<Rightarrow>
         if destination = MailboxDrafts then
           (case with_service (ms_SaveDraft MS literal) c of
             (Inl e, c) \<Rightarrow> (Inl (ErrWrap ''save draft'' e), c)
           | (Inr ident, c) \<Rightarrow> (Inr (ident, flags, date, literal), c))
         else if destination = MailboxSent then sentCopy MS literal flags date c
         else (Inl (ErrSentinel ErrOperationNotAllowed), c))"

section \<open>The rest of the interface\<close>

text \<open>
  \<open>New\<close>, and what Gluon asks of every connector. \<open>Authorize\<close> is never reached behind the wrapper of the
  server. The channel of updates is closed once.
\<close>

definition connector_New :: "'s \<Rightarrow> 's connector" where
  "connector_New service =
     \<lparr>cs_service = service, cs_updates = [], cs_mailboxTypes = [], cs_messages = []\<rparr>"

datatype imap_visibility = Visible

definition connector_Authorize :: "string \<Rightarrow> bytes \<Rightarrow> bool" where
  "connector_Authorize username password = False"

definition GetMailboxVisibility :: "string \<Rightarrow> imap_visibility" where
  "GetMailboxVisibility ident = Visible"

definition GetUpdates :: "'s connector \<Rightarrow> update list" where
  "GetUpdates c = cs_updates c"

record 's closable_connector =
  oc_connector :: "'s connector"
  oc_closed :: bool

definition connector_Close :: "'s closable_connector \<Rightarrow> err option \<times> 's closable_connector" where
  "connector_Close c = (None, if oc_closed c then c else c\<lparr>oc_closed := True\<rparr>)"

end
