(* ===== verification/Announcing.thy ===== *)
theory Announcing
  imports MailConnector "HOL-Library.Multiset"
begin

text \<open>
  The concurrent announcement of new messages. A schedule says which goroutine steps next; whatever
  it is, every goroutine returns, never more than \<open>fetchBodyConcurrency\<close> of them run at once, the
  batches sent are neither empty nor longer than the batch size plus the goroutines that can race
  past it, and every new message is announced exactly once or skipped.
\<close>

section \<open>Maps as lists\<close>

lemma map_of_put [simp]: "map_of (put k v m) = (map_of m)(k \<mapsto> v)"
proof -
  have "map_of (filter (\<lambda>e. fst e \<noteq> k) m) x = (if x = k then None else map_of m x)" for x
    by (induction m) auto
  then show ?thesis by (auto simp: put_def fun_eq_iff)
qed

lemma map_of_drop_key [simp]: "map_of (drop_key k m) = (map_of m)(k := None)"
proof -
  have "map_of (filter (\<lambda>e. fst e \<noteq> k) m) x = (if x = k then None else map_of m x)" for x
    by (induction m) auto
  then show ?thesis by (auto simp: drop_key_def fun_eq_iff)
qed

lemma map_of_fold_drop_key: "map_of (fold drop_key ks m) = (\<lambda>k. if k \<in> set ks then None else map_of m k)"
  by (induction ks arbitrary: m) (auto simp: fun_eq_iff)

lemma map_of_fold_put:
  "distinct (map fst seen) \<Longrightarrow>
     map_of (fold (\<lambda>(k, v). put k v) seen m) = (\<lambda>k. case map_of seen k of Some v \<Rightarrow> Some v | None \<Rightarrow> map_of m k)"
proof (induction seen arbitrary: m)
  case (Cons kv seen)
  obtain k v where kv: "kv = (k, v)" by (cases kv)
  have "map_of seen k = None" using Cons.prems by (simp add: kv map_of_eq_None_iff image_set [symmetric] del: image_set)
  then show ?case using Cons by (auto simp: kv fun_eq_iff split: option.split)
qed simp

lemma distinct_put: "distinct (map fst m) \<Longrightarrow> distinct (map fst (put k v m))"
  by (auto simp: put_def distinct_map_filter_keys)

section \<open>The concurrent announcement\<close>

definition created_ids :: "update list \<Rightarrow> string list" where
  "created_ids us = concat (map (\<lambda>u. case u of MessagesCreated _ ms \<Rightarrow> map mc_ID ms | _ \<Rightarrow> []) us)"

lemma created_ids_append [simp]: "created_ids (us @ us') = created_ids us @ created_ids us'"
  by (simp add: created_ids_def)

lemma created_ids_simps [simp]:
  "created_ids [] = []" "created_ids [MessagesCreated b ms] = map mc_ID ms"
  by (simp_all add: created_ids_def)

fun to_come :: "phase \<Rightarrow> string \<Rightarrow> string multiset" where
  "to_come FullBatch ident = {#}"
| "to_come (Holding batch) ident = mset (map mc_ID batch)"
| "to_come Returned ident = {#}"
| "to_come p ident = {#ident#}"

definition outstanding :: "phase list \<Rightarrow> EmailSummaryResponseDto list \<Rightarrow> string multiset" where
  "outstanding phases summaries = sum_list (map2 (\<lambda>p m. to_come p (su_Id m)) phases summaries)"

lemma outstanding_update:
  "i < length phases \<Longrightarrow> length phases = length summaries \<Longrightarrow>
     outstanding (phases[i := p]) summaries + to_come (phases ! i) (su_Id (summaries ! i)) =
     outstanding phases summaries + to_come p (su_Id (summaries ! i))"
proof (induction phases arbitrary: i summaries)
  case (Cons q phases)
  obtain m ms where m: "summaries = m # ms" using Cons.prems by (cases summaries) auto
  show ?case
  proof (cases i)
    case 0
    then show ?thesis by (simp add: m outstanding_def)
  next
    case (Suc j)
    with Cons.IH [of j ms] Cons.prems show ?thesis by (simp add: m outstanding_def)
  qed
qed simp

text \<open>Everything accounted for: announced, pending, skipped, or still in some goroutine's hands.\<close>

definition accounted :: "EmailSummaryResponseDto list \<Rightarrow> 's announcing \<Rightarrow> string multiset" where
  "accounted summaries a =
     mset (created_ids (cs_updates (an_connector a))) + mset (map mc_ID (an_pending a)) +
     mset (an_skipped a) + outstanding (an_phases a) summaries"

definition announcing_ok :: "EmailSummaryResponseDto list \<Rightarrow> 's announcing \<Rightarrow> bool" where
  "announcing_ok summaries a \<longleftrightarrow>
     length (an_phases a) = length summaries \<and>
     (\<forall>i < length summaries. \<forall>m. an_phases a ! i = Appending m \<longrightarrow> mc_ID m = su_Id (summaries ! i))"

lemma toIMAPMessage_ID: "toIMAPMessage V mailbox summary literal = Inr m \<Longrightarrow> mc_ID m = su_Id summary"
  by (auto simp: toIMAPMessage_def Let_def split: option.splits if_splits)

lemma with_service_updates [simp]:
  "cs_updates (snd (with_service f c)) = cs_updates c" "cs_messages (snd (with_service f c)) = cs_messages c"
  "cs_mailboxTypes (snd (with_service f c)) = cs_mailboxTypes c"
  by (simp_all add: with_service_def split: prod.split)

lemma send_simps [simp]:
  "cs_updates (send u c) = cs_updates c @ [u]" "cs_messages (send u c) = cs_messages c"
  "cs_mailboxTypes (send u c) = cs_mailboxTypes c" "cs_service (send u c) = cs_service c"
  by (simp_all add: send_def)

lemma announce_step_accounted:
  assumes ok: "announcing_ok summaries a"
  shows "announcing_ok summaries (announce_step V MS mailbox summaries i a) \<and>
    accounted summaries (announce_step V MS mailbox summaries i a) = accounted summaries a"
proof (cases "i < length summaries")
  case False
  with ok show ?thesis by (simp add: announce_step_def)
next
  case i: True
  have l: "length (an_phases a) = length summaries" using ok by (simp add: announcing_ok_def)
  note upd = outstanding_update [of i "an_phases a" summaries] 
  show ?thesis
  proof (cases "an_phases a ! i")
    case Waiting
    with i l ok upd [of Started] show ?thesis
      by (auto simp: announce_step_def announcing_ok_def accounted_def set_phase_def nth_list_update)
  next
    case Started
    obtain literal err c where w: "with_service (ms_GetMessageLiteral MS (su_Id (summaries ! i))) (an_connector a) =
        ((literal, err), c)" by (metis prod.exhaust)
    have "cs_updates c = cs_updates (an_connector a)"
      using with_service_updates(1) [of "ms_GetMessageLiteral MS (su_Id (summaries ! i))" "an_connector a"] w by simp
    with Started i l ok upd [of "Fetched literal"] w show ?thesis
      by (auto simp: announce_step_def announcing_ok_def accounted_def set_phase_def nth_list_update)
  next
    case (Fetched literal)
    with i l ok upd [of "Counted literal"] show ?thesis
      by (auto simp: announce_step_def announcing_ok_def accounted_def set_phase_def nth_list_update)
  next
    case (Counted literal)
    show ?thesis
    proof (cases "toIMAPMessage V mailbox (summaries ! i) literal")
      case (Inl e)
      with Counted i l ok upd [of Returned] show ?thesis
        by (auto simp: announce_step_def announcing_ok_def accounted_def set_phase_def nth_list_update ac_simps)
    next
      case (Inr m)
      with Counted i l ok upd [of "Appending m"] toIMAPMessage_ID [OF Inr] show ?thesis
        by (auto simp: announce_step_def announcing_ok_def accounted_def set_phase_def nth_list_update)
    qed
  next
    case (Appending m)
    with i ok have "mc_ID m = su_Id (summaries ! i)" by (simp add: announcing_ok_def)
    with Appending i l ok upd [of Returned] upd [of FullBatch] show ?thesis
      by (auto simp: announce_step_def announcing_ok_def accounted_def set_phase_def nth_list_update Let_def ac_simps)
  next
    case FullBatch
    with i l ok upd [of "Holding (an_pending a)"] show ?thesis
      by (auto simp: announce_step_def announcing_ok_def accounted_def set_phase_def nth_list_update ac_simps)
  next
    case (Holding batch)
    with i l ok upd [of Returned] show ?thesis
      by (auto simp: announce_step_def announcing_ok_def accounted_def set_phase_def nth_list_update ac_simps)
  next
    case Returned
    with i l ok show ?thesis by (simp add: announce_step_def)
  qed
qed

text \<open>Every step brings a started goroutine closer to its end, and only the first waiting one starts.\<close>

fun rank :: "phase \<Rightarrow> nat" where
  "rank Waiting = 7" | "rank Started = 6" | "rank (Fetched l) = 5" | "rank (Counted l) = 4"
| "rank (Appending m) = 3" | "rank FullBatch = 2" | "rank (Holding b) = 1" | "rank Returned = 0"

lemma rank_eq_0 [simp]: "rank p = 0 \<longleftrightarrow> p = Returned"
  by (cases p) auto

lemma rank_le: "rank p \<le> 7"
  by (cases p) auto

definition in_order :: "phase list \<Rightarrow> bool" where
  "in_order ps \<longleftrightarrow> (\<forall>i j. i < j \<longrightarrow> j < length ps \<longrightarrow> ps ! i = Waiting \<longrightarrow> ps ! j = Waiting)"

lemma announce_step_phases:
  "\<exists>p. an_phases (announce_step V MS mailbox summaries i a) = (an_phases a)[i := p] \<and>
     (i < length summaries \<longrightarrow> i < length (an_phases a) \<longrightarrow>
        (an_phases a ! i \<noteq> Waiting \<longrightarrow> rank p \<le> rank (an_phases a ! i) - 1) \<and>
        (an_phases a ! i = Waiting \<longrightarrow>
           (if i = length (takeWhile (\<lambda>p. p \<noteq> Waiting) (an_phases a)) \<and>
               length (filter running (an_phases a)) < fetchBodyConcurrency then p = Started else p = Waiting)))"
proof (cases "length summaries \<le> i \<or> length (an_phases a) \<le> i")
  case True
  then show ?thesis by (intro exI [of _ "an_phases a ! i"]) (auto simp: announce_step_def)
next
  case False
  have same: "(an_phases a)[i := an_phases a ! i] = an_phases a" by simp
  have stay: "an_phases a ! i = q \<Longrightarrow> (an_phases a)[i := q] = an_phases a" for q by auto
  from False stay show ?thesis
    by (cases "an_phases a ! i")
       (auto simp: announce_step_def set_phase_def Let_def split: sum.split prod.split
         intro: exI [of _ Waiting] exI [of _ Started] exI [of _ Returned] exI [of _ FullBatch])
qed

lemma takeWhile_not_waiting:
  assumes "i = length (takeWhile (\<lambda>p. p \<noteq> Waiting) ps)" "j < i"
  shows "ps ! j \<noteq> Waiting"
proof -
  have "takeWhile (\<lambda>p. p \<noteq> Waiting) ps ! j \<in> set (takeWhile (\<lambda>p. p \<noteq> Waiting) ps)" using assms by simp
  then have "takeWhile (\<lambda>p. p \<noteq> Waiting) ps ! j \<noteq> Waiting" using set_takeWhileD by fastforce
  with assms show ?thesis by (simp add: takeWhile_nth)
qed

lemma in_order_step:
  assumes "in_order (an_phases a)" "length (an_phases a) = length summaries"
  shows "in_order (an_phases (announce_step V MS mailbox summaries i a)) \<and>
    length (an_phases (announce_step V MS mailbox summaries i a)) = length summaries"
proof -
  obtain p where step: "an_phases (announce_step V MS mailbox summaries i a) = (an_phases a)[i := p]"
    "i < length summaries \<longrightarrow> i < length (an_phases a) \<longrightarrow>
        (an_phases a ! i \<noteq> Waiting \<longrightarrow> rank p \<le> rank (an_phases a ! i) - 1) \<and>
        (an_phases a ! i = Waiting \<longrightarrow>
           (if i = length (takeWhile (\<lambda>p. p \<noteq> Waiting) (an_phases a)) \<and>
               length (filter running (an_phases a)) < fetchBodyConcurrency then p = Started else p = Waiting))"
    using announce_step_phases by blast
  have p: "i < length summaries \<Longrightarrow> an_phases a ! i \<noteq> Waiting \<Longrightarrow> p \<noteq> Waiting"
    "i < length summaries \<Longrightarrow> an_phases a ! i = Waiting \<Longrightarrow> p \<noteq> Waiting \<Longrightarrow>
       i = length (takeWhile (\<lambda>p. p \<noteq> Waiting) (an_phases a))"
    using step(2) assms(2) rank_le [of "an_phases a ! i"] by (auto split: if_splits)
  have "in_order ((an_phases a)[i := p])"
  proof (cases "i < length summaries")
    case False
    then have "(an_phases a)[i := p] = an_phases a" using assms(2) by (simp add: list_update_beyond)
    with assms(1) show ?thesis by simp
  next
    case i: True
    show ?thesis
      unfolding in_order_def
    proof (intro allI impI)
      fix k j
      assume kj: "k < j" "j < length ((an_phases a)[i := p])" "(an_phases a)[i := p] ! k = Waiting"
      have old: "an_phases a ! k = Waiting"
        using kj p(1) [OF i] i by (cases "k = i") (auto simp: nth_list_update)
      then have oj: "an_phases a ! j = Waiting"
        using assms(1) kj by (auto simp: in_order_def)
      show "(an_phases a)[i := p] ! j = Waiting"
      proof (cases "j = i \<and> p \<noteq> Waiting")
        case True
        with p(2) [OF i] oj have "i = length (takeWhile (\<lambda>p. p \<noteq> Waiting) (an_phases a))" by simp
        from takeWhile_not_waiting [OF this, of k] True kj(1) old show ?thesis by simp
      next
        case False
        with oj kj show ?thesis by (cases "j = i") (auto simp: nth_list_update)
      qed
    qed
  qed
  with step(1) assms(2) show ?thesis by simp
qed

lemma fold_in_order:
  "in_order (an_phases a) \<Longrightarrow> length (an_phases a) = length summaries \<Longrightarrow>
     in_order (an_phases (fold (announce_step V MS mailbox summaries) sched a)) \<and>
     length (an_phases (fold (announce_step V MS mailbox summaries) sched a)) = length summaries"
proof (induction sched arbitrary: a)
  case (Cons i sched)
  then show ?case using in_order_step [OF Cons.prems] by simp
qed simp

lemma block_step:
  assumes "in_order (an_phases a)" "length (an_phases a) = length summaries" "i < length summaries"
    and "\<forall>j < i. an_phases a ! j = Returned"
  shows "rank (an_phases (announce_step V MS mailbox summaries i a) ! i) \<le> rank (an_phases a ! i) - 1 \<and>
    (\<forall>j < i. an_phases (announce_step V MS mailbox summaries i a) ! j = Returned)"
proof -
  obtain p where p: "an_phases (announce_step V MS mailbox summaries i a) = (an_phases a)[i := p]"
    "an_phases a ! i \<noteq> Waiting \<longrightarrow> rank p \<le> rank (an_phases a ! i) - 1"
    "an_phases a ! i = Waiting \<longrightarrow>
           (if i = length (takeWhile (\<lambda>p. p \<noteq> Waiting) (an_phases a)) \<and>
               length (filter running (an_phases a)) < fetchBodyConcurrency then p = Started else p = Waiting)"
    using announce_step_phases [of V MS mailbox summaries i a] assms(2,3) by metis
  have "rank p \<le> rank (an_phases a ! i) - 1"
  proof (cases "an_phases a ! i = Waiting")
    case True
    have split: "an_phases a = take i (an_phases a) @ Waiting # drop (Suc i) (an_phases a)"
      using True assms(2,3) by (metis id_take_nth_drop)
    have before: "\<forall>p \<in> set (take i (an_phases a)). p = Returned"
      using assms(2-4) by (auto simp: in_set_conv_nth)
    have after: "\<forall>p \<in> set (drop (Suc i) (an_phases a)). p = Waiting"
    proof
      fix q
      assume "q \<in> set (drop (Suc i) (an_phases a))"
      then obtain j where "j < length (an_phases a) - Suc i" "q = an_phases a ! (Suc i + j)"
        by (auto simp: in_set_conv_nth)
      moreover from this(1) have "i < Suc i + j" "Suc i + j < length (an_phases a)" by simp_all
      with assms(1) True have "an_phases a ! (Suc i + j) = Waiting" unfolding in_order_def by blast
      ultimately show "q = Waiting" by simp
    qed
    have "takeWhile (\<lambda>p. p \<noteq> Waiting) (an_phases a) = take i (an_phases a)"
      using before by (subst split) (subst takeWhile_append2, auto)
    then have "length (takeWhile (\<lambda>p. p \<noteq> Waiting) (an_phases a)) = i" using assms(2,3) by simp
    moreover have "filter running (an_phases a) = []"
      using before after by (subst split) (auto simp: running_def filter_empty_conv)
    ultimately show ?thesis using p(3) True by (simp add: fetchBodyConcurrency_def)
  next
    case False
    with p(2) show ?thesis by simp
  qed
  with p(1) assms(2-4) show ?thesis by simp
qed

lemma block_steps:
  "in_order (an_phases a) \<Longrightarrow> length (an_phases a) = length summaries \<Longrightarrow> i < length summaries \<Longrightarrow>
   \<forall>j < i. an_phases a ! j = Returned \<Longrightarrow>
     rank (an_phases (fold (announce_step V MS mailbox summaries) (replicate m i) a) ! i) \<le> rank (an_phases a ! i) - m \<and>
     (\<forall>j < i. an_phases (fold (announce_step V MS mailbox summaries) (replicate m i) a) ! j = Returned)"
proof (induction m arbitrary: a)
  case (Suc m)
  note b = block_step [OF Suc.prems, of V MS mailbox]
  note o = in_order_step [OF Suc.prems(1,2), of V MS mailbox i]
  from Suc.IH [OF conjunct1 [OF o] conjunct2 [OF o] Suc.prems(3) conjunct2 [OF b]] conjunct1 [OF b]
  show ?case by auto
qed simp

lemma completion:
  "in_order (an_phases a) \<Longrightarrow> length (an_phases a) = length summaries \<Longrightarrow> k \<le> length summaries \<Longrightarrow>
     \<forall>j < k. an_phases (fold (announce_step V MS mailbox summaries) (concat (map (\<lambda>i. replicate 7 i) [0..<k])) a) ! j = Returned"
proof (induction k)
  case (Suc k)
  let ?a = "fold (announce_step V MS mailbox summaries) (concat (map (\<lambda>i. replicate 7 i) [0..<k])) a"
  have "\<forall>j < k. an_phases ?a ! j = Returned" using Suc by simp
  note o = fold_in_order [OF Suc.prems(1,2), of V MS mailbox "concat (map (\<lambda>i. replicate 7 i) [0..<k])"]
  from block_steps [OF conjunct1 [OF o] conjunct2 [OF o] _ \<open>\<forall>j < k. an_phases ?a ! j = Returned\<close>, of V MS mailbox 7]
    Suc.prems(3) rank_le [of "an_phases ?a ! k"]
  have "\<forall>j < Suc k. an_phases (fold (announce_step V MS mailbox summaries) (replicate 7 k) ?a) ! j = Returned"
    by (auto simp: less_Suc_eq)
  then show ?case by simp
qed simp

lemma fold_accounted:
  "announcing_ok summaries a \<Longrightarrow>
     announcing_ok summaries (fold (announce_step V MS mailbox summaries) sched a) \<and>
     accounted summaries (fold (announce_step V MS mailbox summaries) sched a) = accounted summaries a"
proof (induction sched arbitrary: a)
  case (Cons i sched)
  then show ?case using announce_step_accounted [OF Cons.prems, of V MS mailbox i] by simp
qed simp

lemma outstanding_waiting: "outstanding (replicate (length summaries) Waiting) summaries = mset (map su_Id summaries)"
  by (induction summaries) (simp_all add: outstanding_def)

lemma outstanding_returned:
  "length ps = length summaries \<Longrightarrow> \<forall>j < length summaries. ps ! j = Returned \<Longrightarrow> outstanding ps summaries = {#}"
proof -
  assume "length ps = length summaries" "\<forall>j < length summaries. ps ! j = Returned"
  then have "ps = replicate (length summaries) Returned" by (auto intro: nth_equalityI)
  then show ?thesis by (induction summaries arbitrary: ps) (simp_all add: outstanding_def)
qed


lemma length_filter_update:
  "i < length xs \<Longrightarrow>
     length (filter P (xs[i := y])) + (if P (xs ! i) then 1 else 0) = length (filter P xs) + (if P y then 1 else 0)"
proof (induction xs arbitrary: i)
  case (Cons x xs)
  then show ?case by (cases i) (force simp: Cons.IH [of "i - 1"])+
qed simp

subsection \<open>Concurrency and batch sizes\<close>

definition is_full :: "phase \<Rightarrow> bool" where
  "is_full p \<longleftrightarrow> p = FullBatch"

definition good_batch :: "message_created list \<Rightarrow> bool" where
  "good_batch b \<longleftrightarrow> 0 < length b \<and> length b \<le> messageAnnounceBatch + fetchBodyConcurrency - 1"

definition good_update :: "update \<Rightarrow> bool" where
  "good_update u \<longleftrightarrow> (case u of MessagesCreated b ms \<Rightarrow> b \<and> good_batch ms | _ \<Rightarrow> False)"

definition kept :: "update list \<Rightarrow> 's announcing \<Rightarrow> bool" where
  "kept us a \<longleftrightarrow>
     length (filter running (an_phases a)) \<le> fetchBodyConcurrency \<and>
     length (an_pending a) < messageAnnounceBatch + length (filter is_full (an_phases a)) \<and>
     (\<forall>b. Holding b \<in> set (an_phases a) \<longrightarrow> length b \<le> messageAnnounceBatch + fetchBodyConcurrency - 1) \<and>
     (\<exists>sent. cs_updates (an_connector a) = us @ sent \<and> list_all good_update sent)"

lemma full_le_running: "length (filter is_full ps) \<le> length (filter running ps)"
  by (induction ps) (auto simp: is_full_def running_def)

lemma kept_pending:
  "kept us a \<Longrightarrow> length (an_pending a) \<le> messageAnnounceBatch + fetchBodyConcurrency - 1"
  using full_le_running [of "an_phases a"] by (auto simp: kept_def)

lemma kept_set_phase:
  assumes "kept us a" "i < length (an_phases a)"
    and "running p \<longrightarrow> running (an_phases a ! i) \<or> length (filter running (an_phases a)) < fetchBodyConcurrency"
    and "is_full (an_phases a ! i) \<longrightarrow> is_full p \<or> an_pending a' = []" "\<not> is_full p \<or> is_full (an_phases a ! i)"
    and "\<And>b. p = Holding b \<Longrightarrow> length b \<le> messageAnnounceBatch + fetchBodyConcurrency - 1"
    and "an_phases a' = an_phases a" "an_pending a' = an_pending a \<or> an_pending a' = []"
    and "\<exists>sent. cs_updates (an_connector a') = cs_updates (an_connector a) @ sent \<and> list_all good_update sent"
  shows "kept us (set_phase i p a')"
proof -
  note r = length_filter_update [OF assms(2), of running p]
  note f = length_filter_update [OF assms(2), of is_full p]
  from assms(1,9) have "\<exists>sent. cs_updates (an_connector a') = us @ sent \<and> list_all good_update sent"
    unfolding kept_def by (metis append.assoc list_all_append)
  moreover have "length (filter running ((an_phases a)[i := p])) \<le> fetchBodyConcurrency"
    using r assms(1,3) by (auto simp: kept_def split: if_splits)
  moreover have "length (an_pending a') < messageAnnounceBatch + length (filter is_full ((an_phases a)[i := p]))"
    using f assms(1,4,5,8) by (auto simp: kept_def messageAnnounceBatch_def split: if_splits)
  moreover have "length b \<le> messageAnnounceBatch + fetchBodyConcurrency - 1" if "Holding b \<in> set ((an_phases a)[i := p])" for b
    using that assms(1,6) set_update_subset_insert [of "an_phases a" i p] by (auto simp: kept_def)
  ultimately show ?thesis using assms(7) by (simp add: kept_def set_phase_def)
qed


lemma kept_step:
  assumes k: "kept us a"
  shows "kept us (announce_step V MS mailbox summaries i a)"
proof (cases "length summaries \<le> i \<or> length (an_phases a) \<le> i")
  case True
  with k show ?thesis by (simp add: announce_step_def)
next
  case False
  then have i: "i < length (an_phases a)" "i < length summaries" by auto
  note set = kept_set_phase [OF k i(1)]
  show ?thesis
  proof (cases "an_phases a ! i")
    case Waiting
    have "kept us (set_phase i Started a)" if "length (filter running (an_phases a)) < fetchBodyConcurrency"
      by (rule set) (auto simp: Waiting is_full_def that)
    moreover have "announce_step V MS mailbox summaries i a =
        (if i = length (takeWhile (\<lambda>p. p \<noteq> Waiting) (an_phases a)) \<and>
            length (filter running (an_phases a)) < fetchBodyConcurrency then set_phase i Started a else a)"
      unfolding announce_step_def Waiting using i by (simp only: not_le [symmetric] if_False phase.case simp_thms)
    ultimately show ?thesis using k by presburger
  next
    case Started
    obtain literal err c where w: "with_service (ms_GetMessageLiteral MS (su_Id (summaries ! i))) (an_connector a) =
        ((literal, err), c)" by (metis prod.exhaust)
    have "cs_updates c = cs_updates (an_connector a)"
      using with_service_updates(1) [of "ms_GetMessageLiteral MS (su_Id (summaries ! i))" "an_connector a"] w by simp
    with Started i w show ?thesis
      by (auto simp: announce_step_def running_def is_full_def intro!: set)
  next
    case (Fetched literal)
    with i show ?thesis by (auto simp: announce_step_def running_def is_full_def intro!: set)
  next
    case (Counted literal)
    with i show ?thesis
      by (auto simp: announce_step_def running_def is_full_def split: sum.split intro!: set)
  next
    case (Appending m)
    note r = length_filter_update [OF i(1), of running] and f = length_filter_update [OF i(1), of is_full]
    from k i Appending r [of FullBatch] r [of Returned] f [of FullBatch] f [of Returned]
      set_update_subset_insert [of "an_phases a" i FullBatch] set_update_subset_insert [of "an_phases a" i Returned]
    show ?thesis
      by (auto simp: announce_step_def kept_def set_phase_def Let_def running_def is_full_def messageAnnounceBatch_def)
  next
    case FullBatch
    with i kept_pending [OF k] show ?thesis
      by (auto simp: announce_step_def running_def is_full_def intro!: set)
  next
    case (Holding batch)
    with i k have "length batch \<le> messageAnnounceBatch + fetchBodyConcurrency - 1"
      by (metis kept_def nth_mem)
    with Holding i show ?thesis
      by (auto simp: announce_step_def running_def is_full_def good_update_def good_batch_def intro!: set)
  next
    case Returned
    with i k show ?thesis by (simp add: announce_step_def)
  qed
qed

lemma kept_fold: "kept us a \<Longrightarrow> kept us (fold (announce_step V MS mailbox summaries) sched a)"
  by (induction sched arbitrary: a) (auto intro: kept_step)

definition announcing_start :: "EmailSummaryResponseDto list \<Rightarrow> 's connector \<Rightarrow> progress option \<times> sync_event list \<Rightarrow>
    nat \<Rightarrow> 's announcing" where
  "announcing_start summaries c pe ticks =
     \<lparr>an_connector = c, an_progress = pe, an_ticks = ticks, an_pending = [], an_skipped = [],
      an_phases = replicate (length summaries) Waiting\<rparr>"

lemma start_facts:
  "kept (cs_updates c) (announcing_start summaries c pe ticks)"
  "announcing_ok summaries (announcing_start summaries c pe ticks)"
  "in_order (an_phases (announcing_start summaries c pe ticks))"
  "accounted summaries (announcing_start summaries c pe ticks) =
     mset (created_ids (cs_updates c)) + mset (map su_Id summaries)"
proof -
  have "filter running (replicate (length summaries) Waiting) = []" by (auto simp: running_def filter_empty_conv)
  then show "kept (cs_updates c) (announcing_start summaries c pe ticks)"
    by (simp add: kept_def announcing_start_def messageAnnounceBatch_def)
  show "announcing_ok summaries (announcing_start summaries c pe ticks)"
    by (simp add: announcing_ok_def announcing_start_def)
  show "in_order (an_phases (announcing_start summaries c pe ticks))"
    by (simp add: in_order_def announcing_start_def)
  show "accounted summaries (announcing_start summaries c pe ticks) =
     mset (created_ids (cs_updates c)) + mset (map su_Id summaries)"
    by (simp add: accounted_def announcing_start_def outstanding_waiting)
qed

lemma final_flush_facts:
  assumes "kept us a" "filter is_full (an_phases a) = []"
  shows "\<exists>sent. cs_updates (an_connector (final_flush a)) = us @ sent \<and> list_all good_update sent"
    "an_pending (final_flush a) = []" "an_skipped (final_flush a) = an_skipped a"
    "an_phases (final_flush a) = an_phases a"
    "mset (created_ids (cs_updates (an_connector (final_flush a)))) =
       mset (created_ids (cs_updates (an_connector a))) + mset (map mc_ID (an_pending a))"
proof -
  obtain sent where sent: "cs_updates (an_connector a) = us @ sent" "list_all good_update sent"
    using assms(1) by (auto simp: kept_def)
  have "length (an_pending a) \<le> messageAnnounceBatch + fetchBodyConcurrency - 1" by (rule kept_pending [OF assms(1)])
  then show "\<exists>sent. cs_updates (an_connector (final_flush a)) = us @ sent \<and> list_all good_update sent"
    using sent by (auto simp: final_flush_def Let_def good_update_def good_batch_def)
qed (auto simp: final_flush_def Let_def)

lemma announceNewMessages_facts:
  assumes "a = announceNewMessages V MS schedule mailbox summaries c pe ticks"
  shows "an_phases a = replicate (length summaries) Returned" "an_pending a = []"
    "\<exists>sent. cs_updates (an_connector a) = cs_updates c @ sent \<and> list_all good_update sent \<and>
       mset (created_ids sent) + mset (an_skipped a) = mset (map su_Id summaries)"
proof -
  let ?s = "announcing_start summaries c pe ticks"
  let ?b = "fold (announce_step V MS mailbox summaries) schedule ?s"
  let ?f = "fold (announce_step V MS mailbox summaries) (concat (map (\<lambda>i. replicate 7 i) [0..<length summaries])) ?b"
  note s = start_facts [where summaries = summaries and c = c and pe = pe and ticks = ticks]
  have len: "length (an_phases ?s) = length summaries" by (simp add: announcing_start_def)
  note bo = fold_in_order [OF s(3) len, of V MS mailbox schedule]
  note fo = fold_in_order [OF conjunct1 [OF bo] conjunct2 [OF bo], of V MS mailbox
    "concat (map (\<lambda>i. replicate 7 i) [0..<length summaries])"]
  have ret: "\<forall>j < length summaries. an_phases ?f ! j = Returned"
    using completion [OF conjunct1 [OF bo] conjunct2 [OF bo], of "length summaries" V MS mailbox] by simp
  with fo have ph: "an_phases ?f = replicate (length summaries) Returned" by (auto intro: nth_equalityI)
  have kept: "kept (cs_updates c) ?f" by (intro kept_fold s(1))
  note acc = fold_accounted [OF s(2), of V MS mailbox schedule]
  note acc2 = fold_accounted [OF conjunct1 [OF acc], of V MS mailbox
    "concat (map (\<lambda>i. replicate 7 i) [0..<length summaries])"]
  have acc3: "accounted summaries ?f = mset (created_ids (cs_updates c)) + mset (map su_Id summaries)"
    using acc acc2 s(4) by simp
  have nf: "filter is_full (an_phases ?f) = []" by (simp add: ph filter_empty_conv is_full_def)
  have a: "a = (if length summaries = 0 then ?s else final_flush ?f)"
    by (simp add: assms announceNewMessages_def announcing_start_def)
  note ff = final_flush_facts [OF kept nf]
  show "an_phases a = replicate (length summaries) Returned"
    using ph ff(4) by (auto simp: a announcing_start_def)
  show "an_pending a = []" using ff(2) by (simp add: a announcing_start_def)
  show "\<exists>sent. cs_updates (an_connector a) = cs_updates c @ sent \<and> list_all good_update sent \<and>
       mset (created_ids sent) + mset (an_skipped a) = mset (map su_Id summaries)"
  proof (cases "length summaries = 0")
    case True
    then show ?thesis by (simp add: a announcing_start_def)
  next
    case False
    obtain sent where sent: "cs_updates (an_connector (final_flush ?f)) = cs_updates c @ sent" "list_all good_update sent"
      using ff(1) by auto
    have "outstanding (an_phases ?f) summaries = {#}" using outstanding_returned ret fo by blast
    with acc3 have "mset (created_ids (cs_updates (an_connector (final_flush ?f)))) + mset (an_skipped ?f) =
        mset (created_ids (cs_updates c)) + mset (map su_Id summaries)"
      unfolding ff(5) accounted_def by simp
    then have "mset (created_ids sent) + mset (an_skipped ?f) = mset (map su_Id summaries)"
      unfolding sent(1) by (simp add: add.assoc)
    with sent ff(3) False show ?thesis by (auto simp: a)
  qed
qed


section \<open>Properties\<close>

lemma good_update_iff:
  "good_update = (\<lambda>u. \<exists>batch. u = MessagesCreated True batch \<and> 1 \<le> length batch \<and> length batch \<le> 22)"
  by (auto simp: fun_eq_iff good_update_def good_batch_def messageAnnounceBatch_def fetchBodyConcurrency_def
    Suc_le_eq split: update.split)

lemma toIMAPMessage_parses: "ce_parse V = (\<lambda>_. None) \<Longrightarrow> \<exists>m. toIMAPMessage V mailbox summary literal = Inr m"
  by (simp add: toIMAPMessage_def Let_def)

lemma skipped_step:
  assumes "ce_parse V = (\<lambda>_. None)"
  shows "an_skipped (announce_step V MS mailbox summaries i a) = an_skipped a"
proof -
  obtain m where "toIMAPMessage V mailbox (summaries ! i) l = Inr (m l)" for l
    using toIMAPMessage_parses [OF assms] by metis
  then show ?thesis
    by (auto simp: announce_step_def set_phase_def Let_def split: phase.split prod.split)
qed

lemma skipped_fold:
  "ce_parse V = (\<lambda>_. None) \<Longrightarrow> an_skipped (fold (announce_step V MS mailbox summaries) sched a) = an_skipped a"
  by (induction sched arbitrary: a) (simp_all add: skipped_step)

lemma skipped_none:
  "ce_parse V = (\<lambda>_. None) \<Longrightarrow> an_skipped (announceNewMessages V MS schedule mailbox summaries c pe ticks) = []"
  by (auto simp: announceNewMessages_def Let_def final_flush_def skipped_fold simp del: fold_append)

text \<open>
  C5: whatever the interleaving of the downloads, all goroutines return, nothing stays pending, only
  batches of between 1 and 22 messages are sent, and together the announced and the skipped messages
  are exactly the new ones, each once; nothing is skipped when every message parses. A batch can be
  larger than \<open>messageAnnounceBatch\<close> (15), which \<open>sync_test.go\<close> says and asserts it never is: \<open>flush\<close>
  takes the mutex anew after the append that filled the batch, and the seven other goroutines may append in
  between. The bound is 15 + 7, and the witness below reaches it.
\<close>

theorem announced_exactly_once:
  assumes "announceNewMessages V MS schedule mailbox summaries c pe ticks = a"
  shows "an_phases a = replicate (length summaries) Returned \<and> an_pending a = [] \<and>
    (\<exists>sent. cs_updates (an_connector a) = cs_updates c @ sent \<and>
       list_all (\<lambda>u. \<exists>batch. u = MessagesCreated True batch \<and> 1 \<le> length batch \<and> length batch \<le> 22) sent \<and>
       mset (created_ids sent) + mset (an_skipped a) = mset (map su_Id summaries)) \<and>
    (ce_parse V = (\<lambda>_. None) \<longrightarrow> an_skipped a = [])"
  using announceNewMessages_facts [OF assms [symmetric]] skipped_none [of V MS schedule mailbox summaries c pe ticks]
  by (simp only: good_update_iff assms) blast

text \<open>
  C35: at every moment of every interleaving at most eight downloads run, and they are started in the
  order of the summaries.
\<close>

theorem downloads_bounded:
  assumes "fold (announce_step V MS mailbox summaries) schedule (announcing_start summaries c pe ticks) = a"
  shows "length (filter running (an_phases a)) \<le> 8 \<and>
    (\<forall>i j. i < j \<and> j < length summaries \<and> an_phases a ! j \<noteq> Waiting \<longrightarrow> an_phases a ! i \<noteq> Waiting)"
proof -
  have "kept (cs_updates c) a" unfolding assms [symmetric] by (intro kept_fold start_facts)
  moreover have "in_order (an_phases a) \<and> length (an_phases a) = length summaries"
    unfolding assms [symmetric] by (intro fold_in_order start_facts) (simp add: announcing_start_def)
  ultimately show ?thesis by (auto simp: kept_def fetchBodyConcurrency_def in_order_def)
qed

section \<open>Witnesses\<close>

text \<open>A service that always answers from one account of folders and the messages in them.\<close>

type_synonym toy_account = "(MailboxResponseDto \<times> EmailSummaryResponseDto list) list"

definition toy_service :: "toy_account \<Rightarrow> unit mail_service" where
  "toy_service account =
     \<lparr>ms_ListMailboxes = (\<lambda>s. (Inr (map fst account), s)),
      ms_ListAllEmails = (\<lambda>opts s. (Inr (concat (map snd (filter (\<lambda>e. mailboxType (fst e) = lo_Mailbox opts) account))), s)),
      ms_GetMessageLiteral = (\<lambda>ident s. ((Some [1, 2], None), s)),
      ms_ForgetThreads = id,
      ms_MarkRead = (\<lambda>ids read s. (Inr (), s)),
      ms_MarkFlagged = (\<lambda>ids flagged s. (Inr (), s)),
      ms_Move = (\<lambda>ids mailbox s. (Inr (), s)),
      ms_Delete = (\<lambda>ids s. (Inr (), s)),
      ms_SaveDraft = (\<lambda>literal s. (Inr ''d'', s)),
      ms_SentCopyID = (\<lambda>literal s. (None, s)),
      ms_DiscardDrafts = (\<lambda>ids s. (Inr (), s))\<rparr>"

definition toy_env :: connector_env where
  "toy_env = \<lparr>ce_mime = toy_mime, ce_now = 0, ce_parse = (\<lambda>_. None), ce_onStarted = True,
     ce_onProgress = True, ce_onFinished = True, ce_clock = int\<rparr>"

definition toy_folder :: "string \<Rightarrow> MailboxResponseDto" where
  "toy_folder kind = \<lparr>mb_Id = ''box-'' @ kind, mb_Name = kind, mb_ParentId = None, mb_TotalEmails = 0,
     mb_Type = Some kind, mb_UnreadEmails = 0\<rparr>"

definition toy_summary :: "string \<Rightarrow> EmailSummaryResponseDto" where
  "toy_summary ident = zero_summary\<lparr>su_Id := ident, su_MailboxIds := [''box-inbox'']\<rparr>"

definition toy_connector :: "unit connector" where
  "toy_connector = \<lparr>cs_service = (), cs_updates = [], cs_mailboxTypes = [], cs_messages = []\<rparr>"

text \<open>
  Fourteen goroutines run to their end, and then eight stand before the append of theirs: all of them append
  before the first one takes what is pending.
\<close>

definition racing_schedule :: "nat list" where
  "racing_schedule =
     concat (map (replicate 5) [0..<14]) @ concat (map (replicate 4) [14..<22]) @ [14..<22] @ [14, 14]"

definition racing_summaries :: "EmailSummaryResponseDto list" where
  "racing_summaries = map (\<lambda>i. toy_summary (replicate i CHR ''m'')) [0..<22]"

lemma racing_batch:
  "map (\<lambda>u. case u of MessagesCreated _ batch \<Rightarrow> length batch | _ \<Rightarrow> 0)
     (cs_updates (an_connector (announceNewMessages toy_env (toy_service []) racing_schedule (toy_folder ''inbox'')
       racing_summaries toy_connector (None, []) 0))) = [22]"
  by code_simp

theorem announced_exactly_once_witness:
  "\<exists>batch. cs_updates (an_connector (announceNewMessages toy_env (toy_service []) racing_schedule (toy_folder ''inbox'')
       racing_summaries toy_connector (None, []) 0)) = [MessagesCreated True batch] \<and>
     messageAnnounceBatch < length batch \<and> length batch = 22 \<and>
     mset (map mc_ID batch) = mset (map su_Id racing_summaries)"
proof -
  let ?a = "announceNewMessages toy_env (toy_service []) racing_schedule (toy_folder ''inbox'') racing_summaries
    toy_connector (None, []) 0"
  from announced_exactly_once [of toy_env "toy_service []" racing_schedule "toy_folder ''inbox''" racing_summaries
      toy_connector "(None, [])" 0, OF refl]
  have good: "list_all (\<lambda>u. \<exists>batch. u = MessagesCreated True batch \<and> 1 \<le> length batch \<and> length batch \<le> 22)
      (cs_updates (an_connector ?a))"
    and all: "mset (created_ids (cs_updates (an_connector ?a))) = mset (map su_Id racing_summaries)"
    by (auto simp: toy_env_def toy_connector_def)
  from racing_batch obtain u where u: "cs_updates (an_connector ?a) = [u]"
    "(case u of MessagesCreated _ batch \<Rightarrow> length batch | _ \<Rightarrow> 0) = 22" by auto
  with good obtain batch where "u = MessagesCreated True batch" by auto
  with u all show ?thesis by (auto simp: messageAnnounceBatch_def)
qed

theorem downloads_bounded_witness:
  "length (filter running (an_phases (fold (announce_step toy_env (toy_service []) (toy_folder ''inbox'')
     [toy_summary ''a'', toy_summary ''b'']) [0, 1]
     (announcing_start [toy_summary ''a'', toy_summary ''b''] toy_connector (None, []) 0)))) = 2 \<and> (2::nat) \<le> 8"
proof -
  let ?a = "fold (announce_step toy_env (toy_service []) (toy_folder ''inbox'')
     [toy_summary ''a'', toy_summary ''b'']) [0, 1]
     (announcing_start [toy_summary ''a'', toy_summary ''b''] toy_connector (None, []) 0)"
  have "length (filter running (an_phases ?a)) = 2"
    by (simp add: announce_step_def announcing_start_def set_phase_def running_def fetchBodyConcurrency_def)
  with downloads_bounded [of toy_env "toy_service []" "toy_folder ''inbox''" "[toy_summary ''a'', toy_summary ''b'']" "[0, 1]"
    toy_connector "(None, [])" 0, OF refl] show ?thesis by simp
qed

end
