(* ===== verification/MailConnectorProps.thy ===== *)
theory MailConnectorProps
  imports Announcing
begin

text \<open>
  What a sync of the connector guarantees. The reference is \<open>folder_answers\<close>, what the mail service
  answers for each folder in turn; over it, \<open>Sync\<close> deletes exactly the messages that are gone when
  every folder answered and none otherwise, remembers the last state of each message, and a sync of an
  unchanged account says nothing. Progress ends at the total and 100%.
\<close>

section \<open>What the folders answer\<close>

definition folder_options :: "MailboxResponseDto \<Rightarrow> ListEmailsOptions" where
  "folder_options mailbox = \<lparr>lo_Mailbox = mailboxType mailbox, lo_Limit = listEmailsLimit,
     lo_Position = 0, lo_AnchorID = [], lo_Unread = None\<rparr>"

fun folder_answers :: "'s mail_service \<Rightarrow> MailboxResponseDto list \<Rightarrow> 's \<Rightarrow> (err + EmailSummaryResponseDto list) list" where
  "folder_answers MS [] s = []"
| "folder_answers MS (mailbox # mailboxes) s =
     (case ms_ListAllEmails MS (folder_options mailbox) s of (r, s) \<Rightarrow> r # folder_answers MS mailboxes s)"

definition answered :: "(err + EmailSummaryResponseDto list) list \<Rightarrow> EmailSummaryResponseDto list" where
  "answered answers = concat (map (\<lambda>r. case r of Inl _ \<Rightarrow> [] | Inr summaries \<Rightarrow> summaries) answers)"

definition states_of :: "EmailSummaryResponseDto list \<Rightarrow> string \<Rightarrow> messageState option" where
  "states_of summaries = map_of (rev (map (\<lambda>m. (su_Id m, stateOf m)) summaries))"

lemma answered_simps [simp]:
  "answered [] = []" "answered (Inl e # rs) = answered rs" "answered (Inr xs # rs) = xs @ answered rs"
  by (simp_all add: answered_def)

lemma states_of_simps [simp]:
  "states_of [] = Map.empty" "states_of (m # ms) = [su_Id m \<mapsto> stateOf m] ++ states_of ms"
  "states_of (xs @ ys) = states_of xs ++ states_of ys"
  by (simp_all add: states_of_def map_add_def fun_eq_iff)

lemma dom_states_of: "dom (states_of ms) = su_Id ` set ms"
  by (induction ms) (auto simp: states_of_def dom_map_of_conv_image_fst)

definition deleted_ids :: "update list \<Rightarrow> string list" where
  "deleted_ids us = concat (map (\<lambda>u. case u of MessagesDeleted ids \<Rightarrow> ids | _ \<Rightarrow> []) us)"

lemma deleted_ids_simps [simp]:
  "deleted_ids [] = []" "deleted_ids (us @ us') = deleted_ids us @ deleted_ids us'"
  "deleted_ids [MailboxCreated mb] = []" "deleted_ids [MessagesCreated b ms] = []"
  "deleted_ids [MessageMailboxesUpdated i ids fl] = []" "deleted_ids [MessagesDeleted ids] = ids"
  by (simp_all add: deleted_ids_def)

section \<open>Scanning\<close>

text \<open>Everything in the list is remembered as it is.\<close>

definition all_known :: "'s connector \<Rightarrow> EmailSummaryResponseDto list \<Rightarrow> bool" where
  "all_known c summaries \<longleftrightarrow> (\<forall>m \<in> set summaries. \<exists>k. knownMessage c (su_Id m) = Some k \<and> sameAs k (stateOf m))"

lemma all_known_simps [simp]:
  "all_known c []"
  "all_known c (m # ms) \<longleftrightarrow> (\<exists>k. knownMessage c (su_Id m) = Some k \<and> sameAs k (stateOf m)) \<and> all_known c ms"
  "all_known c (xs @ ys) \<longleftrightarrow> all_known c xs \<and> all_known c ys"
  by (auto simp: all_known_def)

lemma all_known_cong: "cs_messages c' = cs_messages c \<Longrightarrow> all_known c' = all_known c"
  by (simp add: all_known_def [abs_def] knownMessage_def)

lemma scan_summary_one:
  assumes "scan_summary m (seen, created, c) = (seen', created', c')"
  shows "seen' = put (su_Id m) (stateOf m) seen"
    "created' = created @ filter (\<lambda>m. knownMessage c (su_Id m) = None) [m]"
    "cs_messages c' = cs_messages c" "cs_service c' = cs_service c" "cs_mailboxTypes c' = cs_mailboxTypes c"
    "\<exists>new. cs_updates c' = cs_updates c @ new \<and> deleted_ids new = [] \<and> (all_known c [m] \<longrightarrow> new = [])"
  using assms by (auto simp: scan_summary_def Let_def split: option.splits if_splits)

lemma scan_summaries:
  assumes "fold scan_summary summaries (seen, created, c) = (seen', created', c')"
    and "distinct (map fst seen)"
  shows "map_of seen' = map_of seen ++ states_of summaries \<and> distinct (map fst seen') \<and>
    created' = created @ filter (\<lambda>m. knownMessage c (su_Id m) = None) summaries \<and>
    cs_messages c' = cs_messages c \<and> cs_service c' = cs_service c \<and> cs_mailboxTypes c' = cs_mailboxTypes c \<and>
    (\<exists>new. cs_updates c' = cs_updates c @ new \<and> deleted_ids new = [] \<and> (all_known c summaries \<longrightarrow> new = []))"
  using assms
proof (induction summaries arbitrary: seen created c)
  case Nil
  then show ?case by simp
next
  case (Cons m ms)
  obtain seen1 created1 c1 where s: "scan_summary m (seen, created, c) = (seen1, created1, c1)"
    by (metis prod.exhaust)
  note one = scan_summary_one [OF s]
  have k: "knownMessage c1 = knownMessage c" by (simp add: knownMessage_def [abs_def] one)
  have f: "fold scan_summary ms (seen1, created1, c1) = (seen', created', c')" using Cons.prems(1) s by simp
  have d: "distinct (map fst seen1)" using distinct_put [OF Cons.prems(2)] by (simp add: one(1))
  note IH = Cons.IH [OF f d]
  obtain new1 where new1: "cs_updates c1 = cs_updates c @ new1" "deleted_ids new1 = []" "all_known c [m] \<longrightarrow> new1 = []"
    using one(6) by blast
  from IH obtain new2 where new2: "cs_updates c' = cs_updates c1 @ new2" "deleted_ids new2 = []"
    "all_known c ms \<longrightarrow> new2 = []" using all_known_cong [OF one(3)] by auto
  have "cs_updates c' = cs_updates c @ (new1 @ new2)" "deleted_ids (new1 @ new2) = []"
    "all_known c (m # ms) \<longrightarrow> new1 @ new2 = []" using new1 new2 by auto
  then have "\<exists>new. cs_updates c' = cs_updates c @ new \<and> deleted_ids new = [] \<and> (all_known c (m # ms) \<longrightarrow> new = [])"
    by blast
  moreover have "map_of seen' = map_of seen ++ states_of (m # ms)"
    using IH by (simp add: one(1) map_add_assoc fun_upd_def [symmetric] flip: map_add_upd_left)
  ultimately show ?case using IH by (simp add: k one(2-5))
qed

lemma scanMailbox_facts:
  assumes "scanMailbox MS mailbox seen c = (r, seen', c')" and "distinct (map fst seen)"
    and "ms_ListAllEmails MS (folder_options mailbox) (cs_service c) = (answer, s)"
  shows "r = map_sum (ErrWrap ''list emails'') (filter (\<lambda>m. knownMessage c (su_Id m) = None)) answer \<and>
    map_of seen' = map_of seen ++ states_of (answered [answer]) \<and>
    distinct (map fst seen') \<and> cs_messages c' = cs_messages c \<and> cs_service c' = s \<and>
    cs_mailboxTypes c' = cs_mailboxTypes (rememberMailboxType mailbox c) \<and>
    (\<exists>new. cs_updates c' = cs_updates c @ new \<and> deleted_ids new = [] \<and>
       (knownMailbox c (mb_Id mailbox) \<and> all_known c (answered [answer]) \<longrightarrow> new = []))"
proof -
  let ?c = "rememberMailboxType mailbox
    (if \<not> knownMailbox c (mb_Id mailbox) then send (MailboxCreated (toIMAPMailbox mailbox)) c else c)"
  have c: "cs_messages ?c = cs_messages c" "cs_service ?c = cs_service c"
    "cs_mailboxTypes ?c = cs_mailboxTypes (rememberMailboxType mailbox c)"
    by (simp_all add: rememberMailboxType_def Let_def)
  have u: "\<exists>new. cs_updates ?c = cs_updates c @ new \<and> deleted_ids new = [] \<and> (knownMailbox c (mb_Id mailbox) \<longrightarrow> new = [])"
    by (simp add: rememberMailboxType_def Let_def)
  have k: "knownMessage (?c\<lparr>cs_service := s\<rparr>) = knownMessage c" by (simp add: knownMessage_def [abs_def] c)
  have w: "with_service (ms_ListAllEmails MS (folder_options mailbox)) ?c = (answer, ?c\<lparr>cs_service := s\<rparr>)"
    unfolding with_service_def c(2) assms(3) by simp
  show ?thesis
  proof (cases answer)
    case (Inl e)
    with assms(1,2) w c u show ?thesis by (auto simp: scanMailbox_def Let_def folder_options_def [symmetric])
  next
    case (Inr summaries)
    obtain seen1 created c1 where f: "fold scan_summary summaries (seen, [], ?c\<lparr>cs_service := s\<rparr>) = (seen1, created, c1)"
      by (metis prod.exhaust)
    from assms(1) w Inr f have r: "r = Inr created" "seen' = seen1" "c' = c1"
      by (auto simp: scanMailbox_def Let_def folder_options_def [symmetric])
    note sc = scan_summaries [OF f assms(2)]
    from u obtain new1 where new1: "cs_updates ?c = cs_updates c @ new1" "deleted_ids new1 = []"
      "knownMailbox c (mb_Id mailbox) \<longrightarrow> new1 = []" by blast
    from sc obtain new2 where new2: "cs_updates c1 = cs_updates ?c @ new2" "deleted_ids new2 = []"
      "all_known c summaries \<longrightarrow> new2 = []" using all_known_cong [of "?c\<lparr>cs_service := s\<rparr>" c] c(1) by auto
    have "cs_updates c' = cs_updates c @ (new1 @ new2) \<and> deleted_ids (new1 @ new2) = [] \<and>
       (knownMailbox c (mb_Id mailbox) \<and> all_known c (answered [answer]) \<longrightarrow> new1 @ new2 = [])"
      using new1 new2 by (auto simp: r Inr)
    then have "\<exists>new. cs_updates c' = cs_updates c @ new \<and> deleted_ids new = [] \<and>
       (knownMailbox c (mb_Id mailbox) \<and> all_known c (answered [answer]) \<longrightarrow> new = [])" by blast
    with sc c show ?thesis by (simp add: r Inr k)
  qed
qed


lemma knownMailbox_remember:
  "knownMailbox (rememberMailboxType mailbox c) x \<longleftrightarrow>
     knownMailbox c x \<or> mailboxType mailbox \<noteq> [] \<and> x = mb_Id mailbox"
  by (simp add: knownMailbox_def rememberMailboxType_def Let_def)

lemma knownMailbox_cong: "cs_mailboxTypes c' = cs_mailboxTypes c \<Longrightarrow> knownMailbox c' = knownMailbox c"
  by (simp add: knownMailbox_def [abs_def])

text \<open>A scan finds everything known when the folders and what they hold are.\<close>

definition settled :: "'s connector \<Rightarrow> MailboxResponseDto list \<Rightarrow> EmailSummaryResponseDto list \<Rightarrow> bool" where
  "settled c mailboxes summaries \<longleftrightarrow> (\<forall>mb \<in> set mailboxes. knownMailbox c (mb_Id mb)) \<and> all_known c summaries"

lemma scan_all_facts:
  assumes "scan_all MS mailboxes seen c = (seen', work, whole, c')" and "distinct (map fst seen)"
    and "folder_answers MS mailboxes (cs_service c) = answers"
  shows "(whole \<longleftrightarrow> list_all is_ok answers) \<and> map_of seen' = map_of seen ++ states_of (answered answers) \<and>
    distinct (map fst seen') \<and> cs_messages c' = cs_messages c \<and>
    concat (map wk_created work) = filter (\<lambda>m. knownMessage c (su_Id m) = None) (answered answers) \<and>
    list_all (\<lambda>w. wk_created w \<noteq> []) work \<and>
    (\<forall>x. knownMailbox c' x \<longleftrightarrow> knownMailbox c x \<or> (\<exists>mb \<in> set mailboxes. mailboxType mb \<noteq> [] \<and> x = mb_Id mb)) \<and>
    (\<exists>new. cs_updates c' = cs_updates c @ new \<and> deleted_ids new = [] \<and>
       (settled c mailboxes (answered answers) \<longrightarrow> new = []))"
  using assms
proof (induction mailboxes arbitrary: seen c work whole answers seen' c')
  case Nil
  then show ?case by (auto simp: answered_def)
next
  case (Cons mb mbs)
  obtain r seen1 c1 where s: "scanMailbox MS mb seen c = (r, seen1, c1)" by (metis prod.exhaust)
  obtain answer s1 where a: "ms_ListAllEmails MS (folder_options mb) (cs_service c) = (answer, s1)" by fastforce
  note one = scanMailbox_facts [OF s Cons.prems(2) a]
  obtain seen2 work2 whole2 c2 where rest: "scan_all MS mbs seen1 c1 = (seen2, work2, whole2, c2)"
    by (metis prod.exhaust)
  define answers2 where "answers2 = folder_answers MS mbs (cs_service c1)"
  have d: "distinct (map fst seen1)" using one by blast
  note IH = Cons.IH [OF rest d answers2_def [symmetric]]
  have k: "knownMessage c1 = knownMessage c" using one by (simp add: knownMessage_def [abs_def])
  have mono: "knownMailbox c1 x \<longleftrightarrow> knownMailbox c x \<or> mailboxType mb \<noteq> [] \<and> x = mb_Id mb" for x
    using one knownMailbox_cong [of c1 "rememberMailboxType mb c"] by (simp add: knownMailbox_remember)
  have answers: "answers = answer # answers2" using Cons.prems(3) a one by (simp add: answers2_def)
  have ans: "answered answers = answered [answer] @ answered answers2" by (simp add: answers answered_def)
  obtain new1 where new1: "cs_updates c1 = cs_updates c @ new1" "deleted_ids new1 = []"
    "knownMailbox c (mb_Id mb) \<and> all_known c (answered [answer]) \<longrightarrow> new1 = []" using one by blast
  obtain new2 where new2: "cs_updates c2 = cs_updates c1 @ new2" "deleted_ids new2 = []"
    "settled c1 mbs (answered answers2) \<longrightarrow> new2 = []" using IH by blast
  have "settled c (mb # mbs) (answered answers) \<longrightarrow> settled c1 mbs (answered answers2)"
    using mono all_known_cong [of c1 c] one by (auto simp: settled_def ans)
  then have new: "cs_updates c2 = cs_updates c @ (new1 @ new2) \<and> deleted_ids (new1 @ new2) = [] \<and>
      (settled c (mb # mbs) (answered answers) \<longrightarrow> new1 @ new2 = [])"
    using new1 new2 by (auto simp: settled_def ans)
  then have upd: "\<exists>new. cs_updates c2 = cs_updates c @ new \<and> deleted_ids new = [] \<and>
      (settled c (mb # mbs) (answered answers) \<longrightarrow> new = [])" by blast
  show ?case
  proof (cases answer)
    case (Inl e)
    then have "seen' = seen2" "work = work2" "whole = False" "c' = c2"
      using Cons.prems(1) s rest one by auto
    with IH one upd mono show ?thesis by (auto simp: answers Inl k is_ok_iff)
  next
    case (Inr summaries)
    then have "seen' = seen2" "work = (if filter (\<lambda>m. knownMessage c (su_Id m) = None) summaries \<noteq> []
        then [\<lparr>wk_mailbox = mb, wk_created = filter (\<lambda>m. knownMessage c (su_Id m) = None) summaries\<rparr>] else []) @ work2"
      "whole = whole2" "c' = c2"
      using Cons.prems(1) s rest one by auto
    with IH one upd mono show ?thesis by (auto simp: answers Inr k is_ok_iff)
  qed
qed

section \<open>Downloading\<close>

lemma announce_step_connector:
  "cs_messages (an_connector (announce_step V MS mailbox summaries i a)) = cs_messages (an_connector a) \<and>
   cs_mailboxTypes (an_connector (announce_step V MS mailbox summaries i a)) = cs_mailboxTypes (an_connector a)"
proof -
  obtain literal err c where w: "with_service (ms_GetMessageLiteral MS (su_Id (summaries ! i))) (an_connector a) =
      ((literal, err), c)" by (metis prod.exhaust)
  have "cs_messages c = cs_messages (an_connector a)" "cs_mailboxTypes c = cs_mailboxTypes (an_connector a)"
    using with_service_updates(2,3) [of "ms_GetMessageLiteral MS (su_Id (summaries ! i))" "an_connector a"] w by simp_all
  then show ?thesis
    by (cases "an_phases a ! i") (auto simp: announce_step_def set_phase_def Let_def w split: sum.split)
qed

lemma announce_fold_connector:
  "cs_messages (an_connector (fold (announce_step V MS mailbox summaries) sched a)) = cs_messages (an_connector a) \<and>
   cs_mailboxTypes (an_connector (fold (announce_step V MS mailbox summaries) sched a)) = cs_mailboxTypes (an_connector a)"
  by (induction sched arbitrary: a) (simp_all add: announce_step_connector)

lemma announceNewMessages_connector:
  "cs_messages (an_connector (announceNewMessages V MS schedule mailbox summaries c pe ticks)) = cs_messages c \<and>
   cs_mailboxTypes (an_connector (announceNewMessages V MS schedule mailbox summaries c pe ticks)) = cs_mailboxTypes c"
  by (auto simp: announceNewMessages_def Let_def final_flush_def announce_fold_connector simp del: fold_append)

lemma deleted_ids_good: "list_all good_update us \<Longrightarrow> deleted_ids us = []"
  by (auto simp: deleted_ids_def list_all_iff good_update_def split: update.splits)

lemma download_each_facts:
  "download_each_mailbox V MS schedules k work c pe ticks = (c', pe') \<Longrightarrow>
     cs_messages c' = cs_messages c \<and> cs_mailboxTypes c' = cs_mailboxTypes c \<and>
     (\<exists>new. cs_updates c' = cs_updates c @ new \<and> deleted_ids new = [] \<and> (work = [] \<longrightarrow> new = []))"
proof (induction work arbitrary: k c pe ticks)
  case (Cons w work)
  let ?a = "announceNewMessages V MS (schedules k) (wk_mailbox w) (wk_created w) c pe ticks"
  obtain sent where sent: "cs_updates (an_connector ?a) = cs_updates c @ sent" "list_all good_update sent"
    using announceNewMessages_facts(3) [OF refl, of V MS "schedules k" "wk_mailbox w" "wk_created w" c pe ticks] by blast
  have "download_each_mailbox V MS schedules (k + 1) work (an_connector ?a) (an_progress ?a) (an_ticks ?a) = (c', pe')"
    using Cons.prems by (simp add: Let_def)
  from Cons.IH [OF this] sent deleted_ids_good [OF sent(2)] show ?case
    by (auto simp: announceNewMessages_connector)
qed simp


section \<open>Remembering and forgetting\<close>

lemma fold_send_deleted:
  "cs_updates (fold (\<lambda>ident. send (MessagesDeleted [ident])) ids c) = cs_updates c @ map (\<lambda>i. MessagesDeleted [i]) ids \<and>
   cs_messages (fold (\<lambda>ident. send (MessagesDeleted [ident])) ids c) = cs_messages c \<and>
   cs_mailboxTypes (fold (\<lambda>ident. send (MessagesDeleted [ident])) ids c) = cs_mailboxTypes c"
  by (induction ids arbitrary: c) simp_all

lemma deleted_ids_singles [simp]: "deleted_ids (map (\<lambda>i. MessagesDeleted [i]) ids) = ids"
  by (induction ids) (simp_all add: deleted_ids_def)

lemma map_of_missing:
  "distinct (map fst m) \<Longrightarrow> set (filter (\<lambda>k. k \<notin> fst ` set seen) (map fst m)) = dom (map_of m) - dom (map_of seen)"
  by (auto simp: dom_map_of_conv_image_fst)

lemma distinct_fold_put: "distinct (map fst m) \<Longrightarrow> distinct (map fst (fold (\<lambda>(k, v). put k v) seen m))"
  by (induction seen arbitrary: m) (auto simp: distinct_put)

lemma distinct_drop_keys: "distinct (map fst m) \<Longrightarrow> distinct (map fst (fold drop_key ks m))"
  by (induction ks arbitrary: m) (simp_all add: drop_key_def distinct_map_filter_keys)

lemma forgetDeleted_facts:
  assumes "distinct (map fst (cs_messages c))"
  shows "cs_updates (forgetDeleted seen c) = cs_updates c @ map (\<lambda>i. MessagesDeleted [i]) (missingMessages c seen)"
    "map_of (cs_messages (forgetDeleted seen c)) = (\<lambda>k. if k \<in> dom (map_of seen) then map_of (cs_messages c) k else None)"
    "distinct (map fst (cs_messages (forgetDeleted seen c)))"
    "cs_mailboxTypes (forgetDeleted seen c) = cs_mailboxTypes c"
    "distinct (missingMessages c seen)"
    "set (missingMessages c seen) = dom (map_of (cs_messages c)) - dom (map_of seen)"
  using fold_send_deleted [of "missingMessages c seen" c] map_of_missing [OF assms, of seen] assms
  by (auto simp: forgetDeleted_def forgetMessages_def Let_def missingMessages_def map_of_fold_drop_key fun_eq_iff
    distinct_drop_keys domIff)

text \<open>The state of a sync once the folders are listed: everything the rest of it does.\<close>

lemma Sync_facts:
  assumes msgs: "distinct (map fst (cs_messages c))"
    and boxes: "ms_ListMailboxes MS (cs_service c) = (Inr mailboxes, s)"
    and answers: "folder_answers MS mailboxes s = answers"
    and sync: "Sync V MS schedules requested c = (r, evs, c')"
  shows "r = Inr ()" "distinct (map fst (cs_messages c'))"
    "\<forall>x. knownMailbox c' x \<longleftrightarrow> knownMailbox c x \<or> (\<exists>mb \<in> set mailboxes. mailboxType mb \<noteq> [] \<and> x = mb_Id mb)"
    "map_of (cs_messages c') =
       (if list_all is_ok answers then Map.empty else map_of (cs_messages c)) ++ states_of (answered answers)"
    "\<exists>new gone. cs_updates c' = cs_updates c @ new @ map (\<lambda>i. MessagesDeleted [i]) gone \<and> deleted_ids new = [] \<and>
       (settled c mailboxes (answered answers) \<longrightarrow> new = []) \<and> distinct gone \<and>
       set gone = (if list_all is_ok answers then dom (map_of (cs_messages c)) - su_Id ` set (answered answers) else {})"
proof -
  define c0 where "c0 = c\<lparr>cs_service := s\<rparr>"
  have w: "with_service (ms_ListMailboxes MS) c = (Inr mailboxes, c0)"
    by (simp add: with_service_def boxes c0_def)
  have c0: "cs_messages c0 = cs_messages c" "cs_updates c0 = cs_updates c" "cs_service c0 = s"
    "knownMessage c0 = knownMessage c" "knownMailbox c0 = knownMailbox c" "all_known c0 = all_known c"
    by (simp_all add: c0_def knownMessage_def [abs_def] knownMailbox_def [abs_def] all_known_def [abs_def])
  obtain seen work whole c1 where sc: "scan_all MS mailboxes [] c0 = (seen, work, whole, c1)" by (metis prod.exhaust)
  have ans: "folder_answers MS mailboxes (cs_service c0) = answers" using answers by (simp add: c0)
  note scan = scan_all_facts [OF sc _ ans, simplified]
  obtain c2 evs' where dl: "downloadNewMessages V MS schedules requested work c1 = (c2, evs')" by fastforce
  then obtain pe where each: "download_each_mailbox V MS schedules 0 work c1 (newProgressReporter V requested
      (sum_list (map (\<lambda>w. int (length (wk_created w))) work))) 0 = (c2, pe)"
    by (auto simp: downloadNewMessages_def Let_def split: prod.splits)
  note down = download_each_facts [OF each]
  define c3 where "c3 = rememberMessages seen c2"
  define c4 where "c4 = (if whole then forgetDeleted seen c3 else c3)"
  have r: "r = Inr ()" "c' = forget_threads MS c4"
    using sync by (auto simp: Sync_def w sc dl c3_def c4_def Let_def)
  show "r = Inr ()" by (rule r(1))
  have c': "cs_messages c' = cs_messages c4" "cs_updates c' = cs_updates c4" "cs_mailboxTypes c' = cs_mailboxTypes c4"
    by (simp_all add: r(2) forget_threads_def)
  have c2: "cs_messages c2 = cs_messages c" "cs_mailboxTypes c2 = cs_mailboxTypes c1"
    using scan down c0 by simp_all
  have d3: "distinct (map fst (cs_messages c3))"
    unfolding c3_def rememberMessages_def by (simp add: distinct_fold_put msgs c2)
  note fd = forgetDeleted_facts [OF d3, of seen]
  have seen: "map_of seen = states_of (answered answers)" "distinct (map fst seen)" using scan by auto
  have m3: "map_of (cs_messages c3) = map_of (cs_messages c) ++ states_of (answered answers)"
    using map_of_fold_put [OF seen(2), of "cs_messages c"]
    by (simp add: c3_def rememberMessages_def c2 seen(1) map_add_def)
  have u3: "cs_updates c3 = cs_updates c2" "cs_mailboxTypes c3 = cs_mailboxTypes c2"
    by (simp_all add: c3_def rememberMessages_def)
  have t4: "cs_mailboxTypes c4 = cs_mailboxTypes c1" by (simp add: c4_def fd u3 c2)
  show "distinct (map fst (cs_messages c'))" by (simp add: c' c4_def d3 fd)
  show "\<forall>x. knownMailbox c' x \<longleftrightarrow> knownMailbox c x \<or> (\<exists>mb \<in> set mailboxes. mailboxType mb \<noteq> [] \<and> x = mb_Id mb)"
    using scan knownMailbox_cong [of c' c1] t4 c0(5) by (simp add: c')
  show "map_of (cs_messages c') =
       (if list_all is_ok answers then Map.empty else map_of (cs_messages c)) ++ states_of (answered answers)"
    using scan by (auto simp: c' c4_def m3 fd seen(1) fun_eq_iff map_add_def domIff split: option.split)
  obtain new1 where new1: "cs_updates c1 = cs_updates c @ new1" "deleted_ids new1 = []"
    "settled c mailboxes (answered answers) \<longrightarrow> new1 = []"
    using scan by (auto simp: c0 settled_def)
  obtain new2 where new2: "cs_updates c2 = cs_updates c1 @ new2" "deleted_ids new2 = []" "work = [] \<longrightarrow> new2 = []"
    using down by blast
  have work: "settled c mailboxes (answered answers) \<longrightarrow> work = []"
  proof
    assume "settled c mailboxes (answered answers)"
    then have "filter (\<lambda>m. knownMessage c (su_Id m) = None) (answered answers) = []"
      by (auto simp: settled_def all_known_def filter_empty_conv)
    with scan show "work = []" by (cases work) (auto simp: c0)
  qed
  define gone where "gone = (if whole then missingMessages c3 seen else [])"
  have "cs_updates c' = cs_updates c @ (new1 @ new2) @ map (\<lambda>i. MessagesDeleted [i]) gone"
    by (simp add: c' c4_def fd gone_def u3 new1 new2)
  moreover have "settled c mailboxes (answered answers) \<longrightarrow> new1 @ new2 = []" using new1 new2 work by simp
  moreover have "distinct gone" by (simp add: gone_def fd)
  moreover have "set gone = (if list_all is_ok answers then dom (map_of (cs_messages c)) - su_Id ` set (answered answers) else {})"
    using scan by (auto simp: gone_def fd m3 seen(1) dom_states_of)
  ultimately show "\<exists>new gone. cs_updates c' = cs_updates c @ new @ map (\<lambda>i. MessagesDeleted [i]) gone \<and> deleted_ids new = [] \<and>
       (settled c mailboxes (answered answers) \<longrightarrow> new = []) \<and> distinct gone \<and>
       set gone = (if list_all is_ok answers then dom (map_of (cs_messages c)) - su_Id ` set (answered answers) else {})"
    using new1(2) new2(2) by (intro exI [of _ "new1 @ new2"] exI [of _ gone]) simp
qed


section \<open>Properties of a sync\<close>

text \<open>
  C4: a sync deletes messages only when every folder answered, and then exactly the remembered ones
  no folder answered with, each once. Afterwards the connector remembers the last state answered for
  every message, and after a complete sync nothing else.
\<close>

theorem Sync_deletes_exactly_the_gone:
  assumes "distinct (map fst (cs_messages c))"
    and "ms_ListMailboxes MS (cs_service c) = (Inr mailboxes, s)"
    and "folder_answers MS mailboxes s = answers"
    and "Sync V MS schedules requested c = (r, evs, c')"
  shows "r = Inr () \<and>
    (\<exists>new. cs_updates c' = cs_updates c @ new \<and> distinct (deleted_ids new) \<and>
       set (deleted_ids new) =
         (if list_all is_ok answers then dom (map_of (cs_messages c)) - su_Id ` set (answered answers) else {})) \<and>
    map_of (cs_messages c') =
      (if list_all is_ok answers then Map.empty else map_of (cs_messages c)) ++ states_of (answered answers)"
proof -
  note facts = Sync_facts [OF assms]
  from facts(5) obtain new gone where n: "cs_updates c' = cs_updates c @ (new @ map (\<lambda>i. MessagesDeleted [i]) gone)"
    "deleted_ids new = []" "distinct gone" 
    "set gone = (if list_all is_ok answers then dom (map_of (cs_messages c)) - su_Id ` set (answered answers) else {})"
    by auto
  have "\<exists>new. cs_updates c' = cs_updates c @ new \<and> distinct (deleted_ids new) \<and> set (deleted_ids new) =
      (if list_all is_ok answers then dom (map_of (cs_messages c)) - su_Id ` set (answered answers) else {})"
    using n by (intro exI [of _ "new @ map (\<lambda>i. MessagesDeleted [i]) gone"]) simp
  with facts(1,4) show ?thesis by blast
qed

lemma sameAs_refl [simp]: "sameAs state state"
  by (simp add: sameAs_def list_all_iff)

lemma states_of_consistent:
  assumes "\<forall>m \<in> set ms. \<forall>m' \<in> set ms. su_Id m = su_Id m' \<longrightarrow> stateOf m = stateOf m'" "m \<in> set ms"
  shows "states_of ms (su_Id m) = Some (stateOf m)"
proof -
  have "su_Id m \<in> dom (states_of ms)" using assms(2) by (simp add: dom_states_of)
  then obtain state where state: "states_of ms (su_Id m) = Some state" by auto
  then have "(su_Id m, state) \<in> set (rev (map (\<lambda>m. (su_Id m, stateOf m)) ms))"
    unfolding states_of_def by (rule map_of_SomeD)
  then obtain m' where "m' \<in> set ms" "su_Id m = su_Id m'" "state = stateOf m'" by auto
  with assms(1) [rule_format, OF assms(2), of m'] state show ?thesis by simp
qed

section \<open>What the client does\<close>

text \<open>
  What Gluon asks of the connector on behalf of a mail client, one request at a time. None of it touches
  what the sync remembers or what Gluon was told.
\<close>

datatype client_request =
    Seen "string list" bool
  | Flagged "string list" bool
  | MoveTo "string list" string string
  | CopyTo "string list" string
  | RemoveFrom "string list" string
  | Append string bytes "string set" int
  | Fetch string

fun act :: "'s mail_service \<Rightarrow> client_request \<Rightarrow> 's connector \<Rightarrow> 's connector" where
  "act MS (Seen ids on) c = snd (MarkMessagesSeen MS ids on c)"
| "act MS (Flagged ids on) c = snd (MarkMessagesFlagged MS ids on c)"
| "act MS (MoveTo ids from_box to_box) c = snd (MoveMessages MS ids from_box to_box c)"
| "act MS (CopyTo ids mbox) c = snd (AddMessagesToMailbox MS ids mbox c)"
| "act MS (RemoveFrom ids mbox) c = snd (RemoveMessagesFromMailbox MS ids mbox c)"
| "act MS (Append mbox literal flags date) c = snd (CreateMessage MS mbox literal flags date c)"
| "act MS (Fetch ident) c = snd (GetMessageLiteral MS ident c)"

definition same_memory :: "'s connector \<Rightarrow> 's connector \<Rightarrow> bool" where
  "same_memory c c' \<longleftrightarrow> cs_updates c' = cs_updates c \<and> cs_messages c' = cs_messages c \<and>
     cs_mailboxTypes c' = cs_mailboxTypes c"

lemma same_memory_simps [simp]:
  "same_memory c c" "same_memory c (c'\<lparr>cs_service := s\<rparr>) \<longleftrightarrow> same_memory c c'"
  by (simp_all add: same_memory_def)

lemma same_memory_service: "same_memory c (snd (with_service f c))"
  by (simp add: with_service_def split: prod.split)

lemma same_memory_serviceE: "with_service f c = (r, c') \<Longrightarrow> same_memory c c'"
  using same_memory_service [of c f] by simp

lemma act_same_memory: "same_memory c (act MS request c)"
  by (cases request)
     (auto simp: MarkMessagesSeen_def MarkMessagesFlagged_def MoveMessages_def AddMessagesToMailbox_def
        RemoveMessagesFromMailbox_def CreateMessage_def sentCopy_def GetMessageLiteral_def same_memory_service
        dest: same_memory_serviceE split: sum.split option.split prod.split)

lemma acts_same_memory: "same_memory c (fold (act MS) requests c)"
proof (induction requests arbitrary: c)
  case (Cons request requests)
  from act_same_memory [of c MS request] Cons [of "act MS request c"] show ?case
    by (simp add: same_memory_def)
qed simp

text \<open>
  C12: once a sync has gone through every folder, the next one that gets the same answers sends
  nothing and remembers the same, whatever the mail client asked for in between and whatever became of
  the service. So an unchanged account costs Gluon nothing, and a change the client made that was taken
  back elsewhere before the next sync is never taken back in Gluon. (It asks that the folders have a type, since one without is never
  remembered, and that a message answered twice is answered in one state.)
\<close>

theorem second_Sync_is_silent:
  assumes "distinct (map fst (cs_messages c))"
    and "ms_ListMailboxes MS (cs_service c) = (Inr mailboxes, s)" "folder_answers MS mailboxes s = answers"
    and "list_all is_ok answers"
    and "\<forall>m \<in> set (answered answers). \<forall>m' \<in> set (answered answers). su_Id m = su_Id m' \<longrightarrow> stateOf m = stateOf m'"
    and "\<forall>mb \<in> set mailboxes. mailboxType mb \<noteq> []"
    and "Sync V MS schedules requested c = (r, evs, c')"
    and "ms_ListMailboxes MS s1 = (Inr mailboxes, s2)" "folder_answers MS mailboxes s2 = answers"
    and "Sync V MS schedules' requested' ((fold (act MS) requests c')\<lparr>cs_service := s1\<rparr>) = (r', evs', c'')"
  shows "r' = Inr () \<and> cs_updates c'' = cs_updates c' \<and> map_of (cs_messages c'') = map_of (cs_messages c')"
proof -
  let ?c = "(fold (act MS) requests c')\<lparr>cs_service := s1\<rparr>"
  note first = Sync_facts [OF assms(1-3,7)]
  have same: "cs_updates ?c = cs_updates c'" "cs_messages ?c = cs_messages c'" "cs_mailboxTypes ?c = cs_mailboxTypes c'"
    "cs_service ?c = s1"
    using acts_same_memory [of c' MS requests] by (simp_all add: same_memory_def)
  note second = Sync_facts [of ?c MS mailboxes s2 answers, unfolded same, OF first(2) assms(8-10)]
  have m: "map_of (cs_messages c') = states_of (answered answers)" using first(4) assms(4) by simp
  have known: "knownMessage ?c (su_Id m) = Some (stateOf m)" if "m \<in> set (answered answers)" for m
    unfolding knownMessage_def same m by (rule states_of_consistent [OF assms(5) that])
  have "knownMailbox ?c x = knownMailbox c' x" for x by (simp only: knownMailbox_def same)
  then have "settled ?c mailboxes (answered answers)"
    unfolding settled_def all_known_def using known first(3) assms(6) sameAs_refl by blast
  moreover obtain new gone where gone: "cs_updates c'' = cs_updates c' @ new @ map (\<lambda>i. MessagesDeleted [i]) gone"
    "settled ?c mailboxes (answered answers) \<longrightarrow> new = []"
    "set gone = (if list_all is_ok answers then dom (map_of (cs_messages c')) - su_Id ` set (answered answers) else {})"
    using second(5) by (elim exE conjE) (rule that)
  moreover have "gone = []" using gone(3) assms(4) by (simp only: m dom_states_of if_True Diff_cancel set_empty)
  ultimately have "cs_updates c'' = cs_updates c'" by simp
  moreover have "map_of (cs_messages c'') = map_of (cs_messages c')"
    unfolding m second(4) using assms(4) by simp
  ultimately show ?thesis using second(1) by blast
qed

section \<open>Progress\<close>

definition reports :: "int \<Rightarrow> int list \<Rightarrow> sync_event list" where
  "reports tot ds = map (\<lambda>d. OnProgress d tot (percentOf d tot)) ds"

text \<open>What a reporter has said after some advances: rising counts up to where it is.\<close>

definition reported :: "int \<Rightarrow> sync_event list \<Rightarrow> int \<Rightarrow> progress option \<times> sync_event list \<Rightarrow> bool" where
  "reported tot evs0 n pe \<longleftrightarrow>
     (\<exists>p ds. pe = (Some p, evs0 @ reports tot ds) \<and> pr_total p = tot \<and> pr_done p = n \<and>
        sorted_wrt (<) ds \<and> set ds \<subseteq> {1..n} \<and> (n = tot \<and> 0 < n \<longrightarrow> ds \<noteq> [] \<and> last ds = tot))"

lemma reported_advance:
  assumes "reported tot evs0 n pe" "0 \<le> n" "n < tot"
  shows "reported tot evs0 (n + 1) (advance t pe)"
proof -
  from assms(1) obtain p ds where pe: "pe = (Some p, evs0 @ reports tot ds)" "pr_total p = tot" "pr_done p = n"
    and ds: "sorted_wrt (<) ds" "set ds \<subseteq> {1..n}"
    by (auto simp: reported_def)
  let ?p = "p\<lparr>pr_done := n + 1\<rparr>"
  consider "advance t pe = (Some ?p, evs0 @ reports tot ds)" "n + 1 \<noteq> tot"
    | "advance t pe = (Some (?p\<lparr>pr_lastReport := Some t\<rparr>), evs0 @ reports tot (ds @ [n + 1]))"
  proof (cases "n + 1 \<noteq> tot \<and> (case pr_lastReport p of None \<Rightarrow> False | Some t' \<Rightarrow> t - t' < progressInterval)")
    case True
    have "advance t pe = (Some ?p, evs0 @ reports tot ds)"
      using True by (simp add: advance_def pe Let_def)
    with True that(1) show thesis by blast
  next
    case False
    have "advance t pe = (Some (?p\<lparr>pr_lastReport := Some t\<rparr>), evs0 @ reports tot (ds @ [n + 1]))"
      unfolding advance_def pe prod.case option.case Let_def using False pe(2,3)
      by (simp only: progress.simps if_False reports_def map_append list.map append.assoc) simp
    then show thesis by (rule that(2))
  qed
  then show ?thesis
  proof cases
    case 1
    with pe ds show ?thesis by (auto simp: reported_def intro!: exI [of _ ?p] exI [of _ ds])
  next
    case 2
    have "sorted_wrt (<) (ds @ [n + 1])" "set (ds @ [n + 1]) \<subseteq> {1..n + 1}"
      using ds assms(2) by (auto simp: sorted_wrt_append)
    with 2 pe(2) show ?thesis
      unfolding reported_def
      by (intro exI [of _ "?p\<lparr>pr_lastReport := Some t\<rparr>"] exI [of _ "ds @ [n + 1]"] conjI impI) simp_all
  qed
qed

text \<open>The goroutines that have not counted their message yet.\<close>

definition uncounted :: "phase \<Rightarrow> bool" where
  "uncounted p \<longleftrightarrow> (case p of Waiting \<Rightarrow> True | Started \<Rightarrow> True | Fetched l \<Rightarrow> True | _ \<Rightarrow> False)"

definition left_to_count :: "'s announcing \<Rightarrow> int" where
  "left_to_count a = int (length (filter uncounted (an_phases a)))"

lemma uncounted_update:
  "i < length ps \<Longrightarrow> int (length (filter uncounted (ps[i := p]))) =
     int (length (filter uncounted ps)) - (if uncounted (ps ! i) then 1 else 0) + (if uncounted p then 1 else 0)"
  using length_filter_update [of i ps uncounted p] by (auto split: if_splits)

lemma uncounted_pos:
  "i < length (an_phases a) \<Longrightarrow> uncounted (an_phases a ! i) \<Longrightarrow> 0 < left_to_count a"
  by (auto simp: left_to_count_def filter_empty_conv)

lemma waiting_step:
  "an_phases a ! i = Waiting \<Longrightarrow>
     announce_step V MS mailbox summaries i a \<in> {a, set_phase i Started a}"
  by (auto simp: announce_step_def)

lemma announce_step_progress:
  assumes "reported tot evs0 (m - left_to_count a) (an_progress a)" "left_to_count a \<le> m" "m \<le> tot"
  shows "reported tot evs0 (m - left_to_count (announce_step V MS mailbox summaries i a))
      (an_progress (announce_step V MS mailbox summaries i a)) \<and>
    left_to_count (announce_step V MS mailbox summaries i a) \<le> m"
proof (cases "length summaries \<le> i \<or> length (an_phases a) \<le> i")
  case True
  with assms show ?thesis by (simp add: announce_step_def)
next
  case False
  then have i: "i < length (an_phases a)" "i < length summaries" by auto
  note upd = uncounted_update [OF i(1)]
  show ?thesis
  proof (cases "an_phases a ! i")
    case (Fetched literal)
    have pos: "0 < left_to_count a" by (rule uncounted_pos [OF i(1)]) (simp add: Fetched uncounted_def)
    have step: "announce_step V MS mailbox summaries i a = set_phase i (Counted literal)
        (a\<lparr>an_progress := advance (ce_clock V (an_ticks a)) (an_progress a), an_ticks := an_ticks a + 1\<rparr>)"
      using i by (simp add: announce_step_def Fetched)
    have l: "left_to_count (announce_step V MS mailbox summaries i a) = left_to_count a - 1"
      using upd [of "Counted literal"] by (simp add: step left_to_count_def set_phase_def Fetched uncounted_def)
    have "reported tot evs0 (m - left_to_count a + 1) (advance (ce_clock V (an_ticks a)) (an_progress a))"
      using assms pos by (intro reported_advance) auto
    then show ?thesis
      using assms(2) by (simp add: l) (simp add: step set_phase_def algebra_simps)
  next
    case Waiting
    have "uncounted Started" "uncounted Waiting" by (simp_all add: uncounted_def)
    moreover have "announce_step V MS mailbox summaries i a = a \<or>
        announce_step V MS mailbox summaries i a = set_phase i Started a"
      using waiting_step [OF Waiting, of V MS mailbox summaries] by blast
    ultimately show ?thesis
      using Waiting assms i upd [of Started] by (elim disjE) (simp_all add: left_to_count_def set_phase_def)
  next
    case Started
    obtain literal err c where w: "with_service (ms_GetMessageLiteral MS (su_Id (summaries ! i))) (an_connector a) =
        ((literal, err), c)" by (metis prod.exhaust)
    with Started assms i upd [of "Fetched literal"] show ?thesis
      by (simp add: announce_step_def left_to_count_def set_phase_def uncounted_def)
  next
    case (Counted literal)
    have "\<not> uncounted Returned" "\<not> uncounted (Appending m)" "\<not> uncounted (Counted literal)" for m
      by (simp_all add: uncounted_def)
    with Counted assms i upd show ?thesis
      by (simp add: announce_step_def left_to_count_def set_phase_def split: sum.split)
  next
    case (Appending m)
    with assms i upd show ?thesis
      by (simp add: announce_step_def left_to_count_def set_phase_def uncounted_def Let_def)
  next
    case FullBatch
    with assms i upd show ?thesis
      by (simp add: announce_step_def left_to_count_def set_phase_def uncounted_def)
  next
    case (Holding batch)
    with assms i upd show ?thesis
      by (simp add: announce_step_def left_to_count_def set_phase_def uncounted_def)
  next
    case Returned
    with assms i show ?thesis by (simp add: announce_step_def)
  qed
qed

lemma announce_fold_progress:
  "reported tot evs0 (m - left_to_count a) (an_progress a) \<Longrightarrow> left_to_count a \<le> m \<Longrightarrow> m \<le> tot \<Longrightarrow>
     reported tot evs0 (m - left_to_count (fold (announce_step V MS mailbox summaries) sched a))
       (an_progress (fold (announce_step V MS mailbox summaries) sched a))"
proof (induction sched arbitrary: a)
  case (Cons i sched)
  from Cons.IH announce_step_progress [OF Cons.prems, of V MS mailbox summaries i] Cons.prems(3)
  show ?case by simp
qed simp

lemma left_to_count_start:
  "left_to_count (announcing_start summaries c pe ticks) = int (length summaries)"
  by (simp add: left_to_count_def announcing_start_def uncounted_def)

lemma announceNewMessages_progress:
  assumes "reported tot evs0 n pe" "n + int (length summaries) \<le> tot" "0 \<le> n"
  shows "reported tot evs0 (n + int (length summaries))
    (an_progress (announceNewMessages V MS schedule mailbox summaries c pe ticks))"
proof (cases "length summaries = 0")
  case True
  with assms show ?thesis by (simp add: announceNewMessages_def)
next
  case False
  let ?s = "announcing_start summaries c pe ticks"
  let ?f = "fold (announce_step V MS mailbox summaries)
      (schedule @ concat (map (\<lambda>i. replicate 7 i) [0..<length summaries])) ?s"
  have a: "announceNewMessages V MS schedule mailbox summaries c pe ticks = final_flush ?f"
    using False by (simp only: announceNewMessages_def announcing_start_def Let_def if_False)
  have "an_phases (final_flush ?f) = an_phases ?f" "an_progress (final_flush ?f) = an_progress ?f"
    by (simp_all add: final_flush_def Let_def)
  moreover have "an_phases (final_flush ?f) = replicate (length summaries) Returned"
    using announceNewMessages_facts(1) [OF a [symmetric]] .
  ultimately have ph: "an_phases ?f = replicate (length summaries) Returned"
    and fin: "an_progress (final_flush ?f) = an_progress ?f" by simp_all
  have zero: "left_to_count ?f = 0" unfolding left_to_count_def ph by (simp add: uncounted_def filter_empty_conv)
  have "reported tot evs0 (n + int (length summaries) - left_to_count ?f) (an_progress ?f)"
    by (rule announce_fold_progress) (use assms in \<open>simp_all add: left_to_count_start\<close>,
      use assms in \<open>simp_all add: announcing_start_def\<close>)
  with fin zero show ?thesis by (simp add: a del: fold_append)
qed

definition work_total :: "mailboxWork list \<Rightarrow> int" where
  "work_total work = sum_list (map (\<lambda>w. int (length (wk_created w))) work)"

lemma work_total_simps [simp]:
  "work_total [] = 0" "work_total (w # work) = int (length (wk_created w)) + work_total work"
  by (simp_all add: work_total_def)

lemma work_total_nonneg: "0 \<le> work_total work"
  by (induction work) simp_all

lemma download_each_progress:
  "download_each_mailbox V MS schedules k work c pe ticks = (c', pe') \<Longrightarrow> reported tot evs0 n pe \<Longrightarrow>
     n + work_total work \<le> tot \<Longrightarrow> 0 \<le> n \<Longrightarrow> reported tot evs0 (n + work_total work) pe'"
proof (induction work arbitrary: k c pe ticks n)
  case (Cons w work)
  let ?a = "announceNewMessages V MS (schedules k) (wk_mailbox w) (wk_created w) c pe ticks"
  have "reported tot evs0 (n + int (length (wk_created w))) (an_progress ?a)"
    using Cons.prems(2-4) work_total_nonneg [of work] by (intro announceNewMessages_progress) auto
  moreover have "download_each_mailbox V MS schedules (k + 1) work (an_connector ?a) (an_progress ?a) (an_ticks ?a) = (c', pe')"
    using Cons.prems(1) by (simp add: Let_def)
  moreover have "n + int (length (wk_created w)) + work_total work \<le> tot" using Cons.prems(3) by simp
  ultimately have "reported tot evs0 (n + int (length (wk_created w)) + work_total work) pe'"
    using Cons.prems(4) by (intro Cons.IH) simp_all
  then show ?case by (simp add: add.assoc)
qed simp

lemma download_each_silent:
  "download_each_mailbox V MS schedules k [] c pe ticks = (c, pe)"
  by simp

text \<open>
  C25: the progress of a download is told truly. With new mail to fetch and someone listening, the
  events are the start with the total, rising counts with percentages between 0 and 100, the last of
  which is the total and 100 percent, and the end with everything done and no error code; and a sync
  nobody asked for that finds nothing says nothing.
\<close>

theorem progress_ends_at_the_total:
  assumes "ce_onProgress V" "downloadNewMessages V MS schedules requested work c = (c', evs)"
  shows "if 0 < work_total work
    then \<exists>ds. evs = (if ce_onStarted V then [OnStarted (work_total work)] else []) @ reports (work_total work) ds @
           (if ce_onFinished V then [OnFinished (work_total work) (work_total work) ''''] else []) \<and>
         sorted_wrt (<) ds \<and> set ds \<subseteq> {1..work_total work} \<and> ds \<noteq> [] \<and> last ds = work_total work \<and>
         percentOf (last ds) (work_total work) = 100 \<and>
         list_all (\<lambda>d. 0 \<le> percentOf d (work_total work) \<and> percentOf d (work_total work) \<le> 100) ds
    else requested \<or> evs = []"
proof (cases "0 < work_total work")
  case False
  then have "work_total work \<le> 0" by simp
  have none: "snd (download_each_mailbox V MS schedules k work c (None, []) ticks) = (None, [])"
    if "work_total work \<le> 0" for k c ticks
    using that
  proof (induction work arbitrary: k c ticks)
    case (Cons w work)
    have l: "length (wk_created w) = 0" "work_total work \<le> 0"
      using Cons.prems work_total_nonneg [of work] by (simp_all del: length_0_conv)
    have "an_progress (announceNewMessages V MS (schedules k) (wk_mailbox w) (wk_created w) c (None, []) ticks) = (None, [])"
      using l(1) by (simp add: announceNewMessages_def)
    then show ?case using Cons.IH [OF l(2)] by (simp add: Let_def)
  qed simp
  have "evs = []" if "\<not> requested"
  proof -
    have new: "newProgressReporter V requested (work_total work) = (None, [])"
      using False that by (simp add: newProgressReporter_def)
    obtain c1 pe where d: "download_each_mailbox V MS schedules 0 work c (None, []) 0 = (c1, pe)"
      by (metis prod.exhaust)
    have "pe = (None, [])" using none [of 0 c 0] \<open>work_total work \<le> 0\<close> d by simp
    then show ?thesis
      using assms(2) d new by (simp add: downloadNewMessages_def Let_def work_total_def [symmetric] finish_def)
  qed
  with False show ?thesis by auto
next
  case True
  let ?t = "work_total work"
  let ?start = "if ce_onStarted V then [OnStarted ?t] else []"
  have new: "newProgressReporter V requested ?t = (Some \<lparr>pr_total = ?t, pr_done = 0, pr_lastReport = None\<rparr>, ?start)"
    using assms(1) True by (simp add: newProgressReporter_def)
  have r0: "reported ?t ?start 0 (newProgressReporter V requested ?t)"
    using True by (auto simp: reported_def new reports_def)
  obtain c1 pe where d: "download_each_mailbox V MS schedules 0 work c (newProgressReporter V requested ?t) 0 = (c1, pe)"
    by (metis prod.exhaust)
  have "reported ?t ?start ?t pe" using download_each_progress [OF d r0] by simp
  then obtain p ds where pe: "pe = (Some p, ?start @ reports ?t ds)" "pr_total p = ?t" "pr_done p = ?t"
    and ds: "sorted_wrt (<) ds" "set ds \<subseteq> {1..?t}" "ds \<noteq> []" "last ds = ?t"
    using True by (auto simp: reported_def)
  have "evs = finish V [] pe"
    using assms(2) d by (simp add: downloadNewMessages_def Let_def work_total_def [symmetric])
  then have evs: "evs = ?start @ reports ?t ds @ (if ce_onFinished V then [OnFinished ?t ?t ''''] else [])"
    by (simp add: finish_def pe)
  have "0 \<le> percentOf d ?t \<and> percentOf d ?t \<le> 100" if "d \<in> set ds" for d
  proof -
    have "1 \<le> d" "d \<le> ?t" using ds(2) that by auto
    then have "d * 100 div ?t \<le> 100" using True by (metis div_le_mono2 mult.commute nonzero_mult_div_cancel_right order_less_irrefl zdiv_mono1 mult_left_mono zero_le_numeral)
    with \<open>1 \<le> d\<close> True show ?thesis by (simp add: percentOf_def pos_imp_zdiv_nonneg_iff)
  qed
  moreover have "percentOf (last ds) ?t = 100" using True by (simp add: ds(4) percentOf_def)
  ultimately have "\<exists>ds. evs = ?start @ reports ?t ds @ (if ce_onFinished V then [OnFinished ?t ?t ''''] else []) \<and>
      sorted_wrt (<) ds \<and> set ds \<subseteq> {1..?t} \<and> ds \<noteq> [] \<and> last ds = ?t \<and> percentOf (last ds) ?t = 100 \<and>
      list_all (\<lambda>d. 0 \<le> percentOf d ?t \<and> percentOf d ?t \<le> 100) ds"
    using evs ds by (intro exI [of _ ds]) (simp add: list_all_iff)
  with True show ?thesis by (simp only: if_True)
qed

section \<open>Witnesses\<close>

text \<open>A connector that remembers two messages of an account that has only the first.\<close>

definition toy_account_now :: toy_account where
  "toy_account_now = [(toy_folder ''inbox'', [toy_summary ''a''])]"

definition toy_stale :: "unit connector" where
  "toy_stale = toy_connector\<lparr>cs_messages :=
     [(''a'', stateOf (toy_summary ''a'')), (''gone'', stateOf (toy_summary ''gone''))]\<rparr>"

lemma toy_answers:
  "ms_ListMailboxes (toy_service toy_account_now) () = (Inr [toy_folder ''inbox''], ())"
  "folder_answers (toy_service toy_account_now) [toy_folder ''inbox''] () = [Inr [toy_summary ''a'']]"
  by (simp_all add: toy_service_def toy_account_now_def folder_options_def)

lemma toy_stale_messages: "cs_messages toy_stale = [(''a'', stateOf (toy_summary ''a'')), (''gone'', stateOf (toy_summary ''gone''))]"
  by (simp add: toy_stale_def)

theorem Sync_deletes_exactly_the_gone_witness:
  "\<exists>new. cs_updates (snd (snd (Sync toy_env (toy_service toy_account_now) (\<lambda>k. []) True toy_stale))) =
      cs_updates toy_stale @ new \<and> set (deleted_ids new) = {''gone''}"
proof -
  obtain r evs c' where sync: "Sync toy_env (toy_service toy_account_now) (\<lambda>k. []) True toy_stale = (r, evs, c')"
    by (metis prod.exhaust)
  have d: "distinct (map fst (cs_messages toy_stale))" by (simp add: toy_stale_messages)
  have l: "ms_ListMailboxes (toy_service toy_account_now) (cs_service toy_stale) = (Inr [toy_folder ''inbox''], ())"
    using toy_answers(1) by simp
  have "dom (map_of (cs_messages toy_stale)) - su_Id ` set (answered [Inr [toy_summary ''a'']]) = {''gone''}"
    by (auto simp: toy_stale_messages toy_summary_def)
  then show ?thesis
    using Sync_deletes_exactly_the_gone [OF d l toy_answers(2) sync] by (auto simp: sync is_ok_iff)
qed

theorem second_Sync_is_silent_witness:
  "\<exists>c' c''. c' = snd (snd (Sync toy_env (toy_service toy_account_now) (\<lambda>k. []) True toy_stale)) \<and>
     c'' = snd (snd (Sync toy_env (toy_service toy_account_now) (\<lambda>k. [0]) False
       (act (toy_service toy_account_now) (Seen [''a''] True) c'))) \<and> cs_updates c'' = cs_updates c'"
proof -
  let ?MS = "toy_service toy_account_now"
  obtain r evs c' where sync: "Sync toy_env ?MS (\<lambda>k. []) True toy_stale = (r, evs, c')"
    by (metis prod.exhaust)
  have c1: "(fold (act ?MS) [Seen [''a''] True] c')\<lparr>cs_service := ()\<rparr> = act ?MS (Seen [''a''] True) c'" by simp
  obtain r' evs' c'' where sync': "Sync toy_env ?MS (\<lambda>k. [0]) False (act ?MS (Seen [''a''] True) c') = (r', evs', c'')"
    by (metis prod.exhaust)
  have d: "distinct (map fst (cs_messages toy_stale))" by (simp add: toy_stale_messages)
  have l: "ms_ListMailboxes ?MS s = (Inr [toy_folder ''inbox''], ())" for s
    using toy_answers(1) by simp
  have "cs_updates c'' = cs_updates c'"
    using second_Sync_is_silent [OF d l toy_answers(2) _ _ _ sync l toy_answers(2) sync' [folded c1]]
    by (simp add: is_ok_iff toy_folder_def mailboxType_def)
  then show ?thesis using sync sync' by simp
qed

theorem progress_ends_at_the_total_witness:
  "\<exists>ds. snd (downloadNewMessages toy_env (toy_service []) (\<lambda>k. [1, 0]) False
       [\<lparr>wk_mailbox = toy_folder ''inbox'', wk_created = [toy_summary ''a'', toy_summary ''b'']\<rparr>] toy_connector) =
     OnStarted 2 # reports 2 ds @ [OnFinished 2 2 ''''] \<and> last ds = 2"
proof -
  let ?work = "[\<lparr>wk_mailbox = toy_folder ''inbox'', wk_created = [toy_summary ''a'', toy_summary ''b'']\<rparr>]"
  have t: "work_total ?work = 2" by simp
  obtain c' evs where d: "downloadNewMessages toy_env (toy_service []) (\<lambda>k. [1, 0]) False ?work toy_connector = (c', evs)"
    by (metis prod.exhaust)
  have "ce_onProgress toy_env" "ce_onStarted toy_env" "ce_onFinished toy_env" by (simp_all add: toy_env_def)
  from progress_ends_at_the_total [OF this(1) d] this(2,3) show ?thesis
    unfolding t by (auto simp: d simp del: One_nat_def)
qed

end
