(* ===== verification/Outgoing.thy ===== *)
theory Outgoing
  imports Mime Commands
begin

text \<open>
  \<open>internal/mail/outgoing.go\<close>: what an SMTP client hands over, read into an \<open>OutgoingMessage\<close>. The
  readers of the standard library this rests on (message headers, encoded words, address lists, media
  types, multipart bodies, quoted-printable and the streaming base64 decoder) are the fields of
  \<open>mail_lib\<close>; what is read whole is the bytes it holds. The only thing relied on for the recursion
  over nested multiparts to end is documented of \<open>multipart.Reader\<close>: a part's content is a proper
  piece of the body it was read from, which is the type \<open>multipart_reader\<close>.
\<close>

section \<open>Headers\<close>

type_synonym mime_header = "string \<rightharpoonup> string list"

definition header_token_char :: "char \<Rightarrow> bool" where
  "header_token_char c =
     (let n = (of_char c :: nat) in
      48 \<le> n \<and> n \<le> 57 \<or> 65 \<le> n \<and> n \<le> 90 \<or> 97 \<le> n \<and> n \<le> 122 \<or>
      n \<in> set [33, 35, 36, 37, 38, 39, 42, 43, 45, 46, 94, 95, 96, 124, 126])"

definition upper_char :: "char \<Rightarrow> char" where
  "upper_char c = (let n = (of_char c :: nat) in if 97 \<le> n \<and> n \<le> 122 then char_of (n - 32) else c)"

text \<open>\<open>textproto.CanonicalMIMEHeaderKey\<close>; the flag says that the next letter is to be a capital.\<close>

fun canonical_from :: "bool \<Rightarrow> string \<Rightarrow> string" where
  "canonical_from upper [] = []"
| "canonical_from upper (c # s) =
     (if upper then upper_char c else lower_char c) # canonical_from (c = CHR ''-'') s"

definition canonical_key :: "string \<Rightarrow> string" where
  "canonical_key k = (if list_all header_token_char k then canonical_from True k else k)"

definition header_get :: "mime_header \<Rightarrow> string \<Rightarrow> string" where
  "header_get header k = (case header (canonical_key k) of Some (v # vs) \<Rightarrow> v | _ \<Rightarrow> [])"

section \<open>The library\<close>

text \<open>
  A reader of multipart bodies gives, for a body and a boundary, the parts before the end or the first
  error, and that error (\<open>io.EOF\<close> is None); a part is its header and its content.
\<close>

typedef multipart_reader =
  "{f :: bytes \<Rightarrow> string \<Rightarrow> (mime_header \<times> bytes) list \<times> err option.
      \<forall>body b. \<forall>p \<in> set (fst (f body b)). length (snd p) < length body}"
  by (rule exI [of _ "\<lambda>body b. ([], None)"]) simp

definition parts_of :: "multipart_reader \<Rightarrow> bytes \<Rightarrow> string \<Rightarrow> (mime_header \<times> bytes) list" where
  "parts_of f body b = fst (Rep_multipart_reader f body b)"

definition parts_end :: "multipart_reader \<Rightarrow> bytes \<Rightarrow> string \<Rightarrow> err option" where
  "parts_end f body b = snd (Rep_multipart_reader f body b)"

lemma parts_shrink: "p \<in> set (parts_of f body b) \<Longrightarrow> length (snd p) < length body"
  using Rep_multipart_reader [of f] by (auto simp: parts_of_def)

record mail_lib =
  ml_ReadMessage :: "bytes \<Rightarrow> err + mime_header \<times> bytes"
  ml_DecodeHeader :: "string \<Rightarrow> err + string"
  ml_AddressList :: "string \<Rightarrow> err + (string \<times> string) list"
  ml_ParseMediaType :: "string \<Rightarrow> err + string \<times> (string \<rightharpoonup> string)"
  ml_multipart :: multipart_reader
  ml_quotedprintable :: "bytes \<Rightarrow> err + bytes"
  ml_base64 :: "bytes \<Rightarrow> err + bytes"
  ml_unicode :: unicode

section \<open>Addresses\<close>

text \<open>\<open>ids[len(ids)-1]\<close> panics when the value has no field at all, which is None here.\<close>

definition repliedEmailID :: "string \<Rightarrow> string option" where
  "repliedEmailID inReplyTo =
     (if inReplyTo = [] then Some []
      else let ids = go_fields inReplyTo
        in if ids = [] then None
           else case EmailIDFromMessageID (last ids) of None \<Rightarrow> Some [] | Some emailID \<Rightarrow> Some emailID)"

definition decodeSubject :: "mail_lib \<Rightarrow> string \<Rightarrow> err + string" where
  "decodeSubject L raw = (if raw = [] then Inr [] else ml_DecodeHeader L raw)"

text \<open>A nil slice without the field, else a slice of what is parsed, which an empty group leaves empty.\<close>

definition header_addressList :: "mail_lib \<Rightarrow> mime_header \<Rightarrow> string \<Rightarrow> err + EmailAddressDto list option" where
  "header_addressList L header field =
     (if header_get header field = [] then Inr None
      else bind_err (wrap_err (''parse '' @ field) (ml_AddressList L (header_get header field))) (\<lambda>parsed.
        Inr (Some (map (\<lambda>(name, address). \<lparr>ad_Email = address, ad_Name = (if name \<noteq> [] then Some name else None)\<rparr>) parsed))))"

definition bccFrom :: "unicode \<Rightarrow> EmailAddressDto list \<Rightarrow> EmailAddressDto list \<Rightarrow> string list \<Rightarrow> EmailAddressDto list" where
  "bccFrom U to cc envelopeRecipients =
     (let addressed = (\<lambda>a. to_lower U (ad_Email a)) ` (set to \<union> set cc)
      in map (\<lambda>recipient. \<lparr>ad_Email = recipient, ad_Name = None\<rparr>)
           (filter (\<lambda>recipient. to_lower U recipient \<notin> addressed) envelopeRecipients))"

section \<open>Bodies\<close>

definition mediaTypeOf :: "mail_lib \<Rightarrow> string \<Rightarrow> string \<times> (string \<rightharpoonup> string)" where
  "mediaTypeOf L contentType =
     (if contentType = [] then (''text/plain'', Map.empty)
      else case ml_ParseMediaType L contentType of
          Inl e \<Rightarrow> (''text/plain'', Map.empty)
        | Inr (mediaType, params) \<Rightarrow> (mediaType, params))"

definition param :: "(string \<rightharpoonup> string) \<Rightarrow> string \<Rightarrow> string" where
  "param params k = (case params k of None \<Rightarrow> [] | Some v \<Rightarrow> v)"

text \<open>
  \<open>newlineStripper.Read\<close> on a reader given by the results its reads will have: it drops the line
  breaks, and reads again when nothing is left and the reader has not failed.
\<close>

fun newlineStripper_Read :: "(bytes \<times> err option) list \<Rightarrow> (bytes \<times> err option) \<times> (bytes \<times> err option) list" where
  "newlineStripper_Read [] = (([], Some (ErrSentinel IoEOF)), [])"
| "newlineStripper_Read ((p, e) # reads) =
     (let kept = filter (\<lambda>b. b \<noteq> 13 \<and> b \<noteq> 10) p
      in if kept = [] \<and> e = None then newlineStripper_Read reads else ((kept, e), reads))"

text \<open>The content a part decodes to, all of it read.\<close>

definition decodedPart :: "mail_lib \<Rightarrow> mime_header \<Rightarrow> bytes \<Rightarrow> err + bytes" where
  "decodedPart L header content =
     (let encoding = to_lower (ml_unicode L) (trim_space (header_get header ''Content-Transfer-Encoding''))
      in if encoding = ''quoted-printable'' then ml_quotedprintable L content
         else if encoding = ''base64'' then ml_base64 L (filter (\<lambda>b. b \<noteq> 13 \<and> b \<noteq> 10) content)
         else Inr content)"

definition attachmentName :: "mail_lib \<Rightarrow> mime_header \<Rightarrow> (string \<rightharpoonup> string) \<Rightarrow> string" where
  "attachmentName L header contentTypeParams =
     (let (disposition, dispositionParams) = mediaTypeOf L (header_get header ''Content-Disposition'');
          name = param dispositionParams ''filename'';
          name = (if name = [] then param contentTypeParams ''name'' else name)
      in if name = [] then (if equal_fold (ml_unicode L) disposition ''attachment'' then ''attachment'' else [])
         else case ml_DecodeHeader L name of Inr decoded \<Rightarrow> decoded | Inl e \<Rightarrow> name)"

record messageContent =
  ct_text :: string
  ct_html :: string
  ct_attachments :: "OutgoingAttachment list"

definition no_content :: messageContent where
  "no_content = \<lparr>ct_text = [], ct_html = [], ct_attachments = []\<rparr>"

definition part_type :: "mail_lib \<Rightarrow> mime_header \<Rightarrow> string" where
  "part_type L header = fst (mediaTypeOf L (header_get header ''Content-Type''))"

definition part_params :: "mail_lib \<Rightarrow> mime_header \<Rightarrow> string \<rightharpoonup> string" where
  "part_params L header = snd (mediaTypeOf L (header_get header ''Content-Type''))"

text \<open>\<open>readPart\<close> of a part that is not itself a multipart.\<close>

definition readLeaf :: "mail_lib \<Rightarrow> messageContent \<Rightarrow> mime_header \<times> bytes \<Rightarrow> err + messageContent" where
  "readLeaf L content part =
     (let mediaType = part_type L (fst part); params = part_params L (fst part)
      in bind_err (wrap_err ''read part'' (decodedPart L (fst part) (snd part))) (\<lambda>decoded.
         let name = attachmentName L (fst part) params
         in if name \<noteq> []
            then Inr (content\<lparr>ct_attachments := ct_attachments content @
                   [\<lparr>oa_Name = name, oa_ContentType = mediaType, oa_Content = decoded\<rparr>]\<rparr>)
            else if mediaType = ''text/plain'' then Inr (content\<lparr>ct_text := bytes_str decoded\<rparr>)
            else if mediaType = ''text/html'' then Inr (content\<lparr>ct_html := bytes_str decoded\<rparr>)
            else Inr content))"

definition is_multipart :: "mail_lib \<Rightarrow> mime_header \<Rightarrow> bool" where
  "is_multipart L header = has_prefix (part_type L header) ''multipart/''"

text \<open>The longest content among some parts, plus one.\<close>

definition longest :: "(mime_header \<times> bytes) list \<Rightarrow> nat" where
  "longest parts = foldr (\<lambda>p m. max (Suc (length (snd p))) m) parts 0"

lemma longest_le: "(\<And>p. p \<in> set parts \<Longrightarrow> length (snd p) < n) \<Longrightarrow> longest parts \<le> n"
  by (induction parts) (auto simp: longest_def Suc_le_eq)

lemma longest_Cons: "longest (p # parts) = max (Suc (length (snd p))) (longest parts)"
  by (simp add: longest_def)

text \<open>\<open>readParts\<close> and, for the parts one reader gives, the loop over \<open>readPart\<close>.\<close>

function readParts :: "mail_lib \<Rightarrow> messageContent \<Rightarrow> bytes \<Rightarrow> string \<Rightarrow> err + messageContent"
  and readEach :: "mail_lib \<Rightarrow> messageContent \<Rightarrow> (mime_header \<times> bytes) list \<Rightarrow> err + messageContent" where
  "readParts L content body b =
     (if b = [] then Inl (ErrNew ''read multipart body: no boundary'')
      else bind_err (readEach L content (parts_of (ml_multipart L) body b)) (\<lambda>content.
        case parts_end (ml_multipart L) body b of
          None \<Rightarrow> Inr content
        | Some e \<Rightarrow> Inl (ErrWrap ''read multipart body'' e)))"
| "readEach L content [] = Inr content"
| "readEach L content (part # parts) =
     bind_err
       (if is_multipart L (fst part) then readParts L content (snd part) (param (part_params L (fst part)) ''boundary'')
        else readLeaf L content part)
       (\<lambda>content. readEach L content parts)"
  by pat_completeness auto

termination
proof (relation "inv_image (less_than <*lex*> less_than <*lex*> less_than)
    (\<lambda>x. case x of Inl (L, c, body, b) \<Rightarrow> (length body, 1, 0)
       | Inr (L, c, parts) \<Rightarrow> (longest parts, 0, length parts))", goal_cases)
  case 1
  show ?case by (intro wf_inv_image wf_lex_prod wf_less_than)
next
  case (2 L content body b)
  then show ?case
    using longest_le [of "parts_of (ml_multipart L) body b" "length body"] parts_shrink by fastforce
qed (auto simp: longest_Cons max_def)

declare readParts.simps [simp del]

definition readBody :: "mail_lib \<Rightarrow> mime_header \<Rightarrow> bytes \<Rightarrow> err + messageContent" where
  "readBody L header body =
     (if is_multipart L header then readParts L no_content body (param (part_params L header) ''boundary'')
      else bind_err (wrap_err ''read body'' (decodedPart L header body)) (\<lambda>text.
        if part_type L header = ''text/html'' then Inr (no_content\<lparr>ct_html := bytes_str text\<rparr>)
        else Inr (no_content\<lparr>ct_text := bytes_str text\<rparr>)))"

section \<open>The message\<close>

text \<open>None is a panic.\<close>

definition parseOutgoingMessage :: "mail_lib \<Rightarrow> bytes \<Rightarrow> string list \<Rightarrow> (err + OutgoingMessage) option" where
  "parseOutgoingMessage L raw envelopeRecipients =
     (case bind_err (ml_ReadMessage L raw) (\<lambda>(header, body).
          bind_err (wrap_err ''decode subject'' (decodeSubject L (header_get header ''Subject''))) (\<lambda>subject.
          bind_err (header_addressList L header ''To'') (\<lambda>to.
          bind_err (header_addressList L header ''Cc'') (\<lambda>cc.
          bind_err (readBody L header body) (\<lambda>content.
          Inr (header, subject, to, cc, content)))))) of
       Inl e \<Rightarrow> Some (Inl e)
     | Inr (header, subject, to, cc, content) \<Rightarrow>
         (case repliedEmailID (header_get header ''In-Reply-To'') of
           None \<Rightarrow> None
         | Some replied \<Rightarrow> Some (Inr
             \<lparr>om_Subject = subject, om_HTMLBody = ct_html content, om_TextBody = ct_text content,
              om_Attachments = ct_attachments content, om_InReplyToEmailID = replied, om_To = to, om_Cc = addresses_of cc,
              om_Bcc = bccFrom (ml_unicode L) (addresses_of to) (addresses_of cc) envelopeRecipients\<rparr>)))"

definition ParseOutgoingMessage :: "mail_lib \<Rightarrow> bytes \<Rightarrow> string list \<Rightarrow> (err + OutgoingMessage) option" where
  "ParseOutgoingMessage L raw envelopeRecipients =
     map_option (wrap_err ''parse outgoing message'') (parseOutgoingMessage L raw envelopeRecipients)"

text \<open>\<open>messageIDHeaderOf\<close> of \<open>mime.go\<close>, which reads with the same library.\<close>

definition messageIDHeaderOf :: "mail_lib \<Rightarrow> bytes \<Rightarrow> string" where
  "messageIDHeaderOf L raw =
     (case ml_ReadMessage L raw of Inl e \<Rightarrow> []
      | Inr (header, body) \<Rightarrow> trim_space (header_get header ''Message-Id''))"

end
