(* ===== verification/OutgoingProps.thy ===== *)
theory OutgoingProps
  imports Outgoing CommandsProps
begin

text \<open>
  What reading a composed message guarantees: everyone the envelope names is addressed, nested parts
  are read in document order, a reply leads back to the email the bridge served, and the stripping of
  line breaks is the filter of the whole content.
\<close>

section \<open>Fields of a header\<close>

lemma graphic_space_width: "graphic_char c \<Longrightarrow> space_width (c # s) = 0"
  using graphic_not_space [of c] by (intro space_width_Cons_first) blast

lemma go_fields_from_graphic:
  "list_all graphic_char w \<Longrightarrow> go_fields_from cur (w @ s) = go_fields_from (cur @ w) s"
proof (induction w arbitrary: cur)
  case (Cons c w)
  then show ?case by (simp add: go_fields_from.simps [of cur "c # w @ s"] graphic_space_width)
qed simp

lemma blank_only_alone: "\<forall>u \<in> set utf8_spaces. CHR '' '' \<notin> set (tl u)"
  by code_simp

lemma space_width_before_blank:
  assumes "s \<noteq> []"
  shows "space_width (s @ CHR '' '' # w) \<le> length s"
proof (cases "find (has_prefix (s @ CHR '' '' # w)) utf8_spaces")
  case None
  then show ?thesis by (simp add: space_width_def)
next
  case (Some u)
  then have u: "u \<in> set utf8_spaces" "has_prefix (s @ CHR '' '' # w) u" by (blast dest: find_Some_in_set)+
  have "length u \<le> length s"
  proof (rule ccontr)
    assume "\<not> length u \<le> length s"
    moreover have "u = take (length u) (s @ CHR '' '' # w)" using u(2) by (simp add: has_prefix_def)
    ultimately have "u = s @ take (length u - length s) (CHR '' '' # w)" "length u - length s \<noteq> 0" by simp_all
    then obtain v where "u = s @ CHR '' '' # v" by (cases "length u - length s") auto
    then have "CHR '' '' \<in> set (tl u)" using assms by (cases s) auto
    with u(1) blank_only_alone show False by blast
  qed
  with Some show ?thesis by (simp add: space_width_def)
qed

lemma space_width_blank: "space_width (CHR '' '' # w) = 1"
proof -
  have "find (has_prefix (CHR '' '' # w)) utf8_spaces = Some [CHR '' '']"
    by (simp add: utf8_spaces_def has_prefix_def)
  then show ?thesis by (simp add: space_width_def)
qed

lemma go_fields_from_last:
  assumes w: "list_all graphic_char w" "w \<noteq> []"
  shows "\<exists>fs. go_fields_from cur (s @ CHR '' '' # w) = fs @ [w]"
proof (induction "length s" arbitrary: cur s rule: less_induct)
  case less
  have base: "go_fields_from cur (CHR '' '' # w) = (if cur = [] then [] else [cur]) @ [w]"
    using go_fields_from_graphic [OF w(1), of "[]" "[]"] w(2)
    by (simp add: go_fields_from.simps [of cur "CHR '' '' # w"] space_width_blank fields_from_Nil)
  show ?case
  proof (cases s)
    case Nil
    with base show ?thesis by simp
  next
    case (Cons c t)
    let ?n = "space_width (s @ CHR '' '' # w)"
    have n: "?n \<le> length s" using Cons by (intro space_width_before_blank) simp
    show ?thesis
    proof (cases "?n = 0")
      case True
      then show ?thesis
        using less [of t "cur @ [c]"] Cons by (simp add: go_fields_from.simps [of cur "c # t @ CHR '' '' # w"])
    next
      case False
      obtain fs where fs: "go_fields_from [] (drop ?n s @ CHR '' '' # w) = fs @ [w]"
        using less [of "drop ?n s" "[]"] Cons False by auto
      moreover have "drop ?n s @ CHR '' '' # w = drop ?n (s @ CHR '' '' # w)" using n by simp
      ultimately have "go_fields_from cur (s @ CHR '' '' # w) = ((if cur = [] then [] else [cur]) @ fs) @ [w]"
        using False by (simp add: go_fields_from.simps [of cur "s @ CHR '' '' # w"] del: drop_append)
      then show ?thesis by blast
    qed
  qed
qed

lemma go_fields_last:
  assumes "list_all graphic_char w" "w \<noteq> []"
  shows "\<exists>fs. go_fields (s @ CHR '' '' # w) = fs @ [w]" "go_fields w = [w]"
  using go_fields_from_last [OF assms] go_fields_from_graphic [OF assms(1), of "[]" "[]"] assms(2)
  by (simp_all add: go_fields_def fields_from_Nil)


section \<open>Recipients\<close>

text \<open>
  C27: everyone the SMTP envelope names ends up addressed, and with letter case aside sealed for: an
  envelope recipient that neither To nor Cc names is in Bcc, Bcc names nobody else and nobody twice
  addressed, and the addresses \<open>SendEmail\<close> looks up keys for include them all.
\<close>

theorem envelope_recipients_covered:
  assumes "ParseOutgoingMessage L raw recipients = Some (Inr msg)"
  shows "(\<forall>r \<in> set recipients. \<exists>a \<in> set (addresses_of (om_To msg)) \<union> set (om_Cc msg) \<union> set (om_Bcc msg).
            to_lower (ml_unicode L) (ad_Email a) = to_lower (ml_unicode L) r) \<and>
    (\<forall>a \<in> set (om_Bcc msg). ad_Email a \<in> set recipients \<and>
       (\<forall>b \<in> set (addresses_of (om_To msg)) \<union> set (om_Cc msg).
          to_lower (ml_unicode L) (ad_Email b) \<noteq> to_lower (ml_unicode L) (ad_Email a))) \<and>
    to_lower (ml_unicode L) ` set recipients - {[]} \<subseteq>
      to_lower (ml_unicode L) ` set (uniqueAddresses (ml_unicode L) [addresses_of (om_To msg), om_Cc msg, om_Bcc msg])"
proof -
  let ?low = "to_lower (ml_unicode L)"
  from assms have bcc: "om_Bcc msg = bccFrom (ml_unicode L) (addresses_of (om_To msg)) (om_Cc msg) recipients"
    by (auto simp: ParseOutgoingMessage_def parseOutgoingMessage_def split: sum.splits option.splits)
  have b: "ad_Email ` set (om_Bcc msg) =
      {r \<in> set recipients. ?low r \<notin> (\<lambda>a. ?low (ad_Email a)) ` (set (addresses_of (om_To msg)) \<union> set (om_Cc msg))}"
    by (auto simp: bcc bccFrom_def Let_def image_image)
  have cover: "\<exists>a \<in> set (addresses_of (om_To msg)) \<union> set (om_Cc msg) \<union> set (om_Bcc msg). ?low (ad_Email a) = ?low r"
    if r: "r \<in> set recipients" for r
  proof (cases "?low r \<in> (\<lambda>a. ?low (ad_Email a)) ` (set (addresses_of (om_To msg)) \<union> set (om_Cc msg))")
    case True
    then show ?thesis by (auto simp: eq_commute)
  next
    case False
    with r have "r \<in> ad_Email ` set (om_Bcc msg)" by (simp add: b)
    then show ?thesis by auto
  qed
  have u: "?low ` set (uniqueAddresses (ml_unicode L) [addresses_of (om_To msg), om_Cc msg, om_Bcc msg]) =
      ?low ` ad_Email ` (set (addresses_of (om_To msg)) \<union> set (om_Cc msg) \<union> set (om_Bcc msg)) - {[]}"
    using unique_from_spec [of "ml_unicode L" "{}" "concat [addresses_of (om_To msg), om_Cc msg, om_Bcc msg]"]
    by (simp add: uniqueAddresses_def Un_assoc)
  have "?low r \<in> ?low ` ad_Email ` (set (addresses_of (om_To msg)) \<union> set (om_Cc msg) \<union> set (om_Bcc msg))"
    if "r \<in> set recipients" for r using cover [OF that] by (metis imageI)
  then have "?low ` set recipients - {[]} \<subseteq> ?low ` set (uniqueAddresses (ml_unicode L) [addresses_of (om_To msg), om_Cc msg, om_Bcc msg])"
    unfolding u by blast
  moreover have "\<forall>a \<in> set (om_Bcc msg). ad_Email a \<in> set recipients \<and>
       (\<forall>b \<in> set (addresses_of (om_To msg)) \<union> set (om_Cc msg). ?low (ad_Email b) \<noteq> ?low (ad_Email a))"
  proof
    fix a assume "a \<in> set (om_Bcc msg)"
    then have "ad_Email a \<in> {r \<in> set recipients. ?low r \<notin> (\<lambda>a. ?low (ad_Email a)) ` (set (addresses_of (om_To msg)) \<union> set (om_Cc msg))}"
      unfolding b [symmetric] by blast
    then show "ad_Email a \<in> set recipients \<and>
       (\<forall>b \<in> set (addresses_of (om_To msg)) \<union> set (om_Cc msg). ?low (ad_Email b) \<noteq> ?low (ad_Email a))"
      by (metis (mono_tags, lifting) image_eqI mem_Collect_eq)
  qed
  ultimately show ?thesis using cover by blast
qed

section \<open>Replies\<close>

text \<open>
  C38: an In-Reply-To whose last identifier is the Message-ID the bridge wrote for an email names that
  email, whatever stands before it; and a value with nothing but white space is not an error but a
  panic (a header of one no-break space is such a value).
\<close>

theorem reply_leads_back:
  assumes "em_Id email \<noteq> []" "CHR 0x40 \<notin> set (em_Id email)" "list_all graphic_char (em_Id email)"
  shows "repliedEmailID (messageID email) = Some (em_Id email) \<and>
    repliedEmailID (before @ '' '' @ messageID email) = Some (em_Id email) \<and>
    (repliedEmailID v = None \<longleftrightarrow> v \<noteq> [] \<and> go_fields v = []) \<and>
    repliedEmailID [CHR 0xC2, CHR 0xA0] = None"
proof -
  have d: "list_all graphic_char MessageIDDomain" by code_simp
  have g: "list_all graphic_char (messageID email)"
    using assms(3) d by (simp add: messageID_def list_all_append) (simp add: graphic_char_def)
  have n: "messageID email \<noteq> []" by (simp add: messageID_def)
  have e: "EmailIDFromMessageID (messageID email) = Some (em_Id email)"
    using EmailIDFromMessageID_messageID [of email] assms by simp
  obtain fs where fs: "go_fields (before @ CHR '' '' # messageID email) = fs @ [messageID email]"
    using go_fields_last(1) [OF g n] by blast
  have "repliedEmailID (messageID email) = Some (em_Id email)"
    using go_fields_last(2) [OF g n] n by (simp add: repliedEmailID_def e)
  moreover have "repliedEmailID (before @ '' '' @ messageID email) = Some (em_Id email)"
    using fs by (simp add: repliedEmailID_def e)
  moreover have "repliedEmailID v = None \<longleftrightarrow> v \<noteq> [] \<and> go_fields v = []"
    by (auto simp: repliedEmailID_def Let_def split: option.split)
  moreover have "repliedEmailID [CHR 0xC2, CHR 0xA0] = None" by code_simp
  ultimately show ?thesis by blast
qed

theorem reply_leads_back_witness:
  "repliedEmailID (''<x@y>'' @ '' '' @ ''<42@mail-bridge.internxt.local>'') = Some ''42''"
  using reply_leads_back [of "zero_email\<lparr>em_Id := ''42''\<rparr>" "''<x@y>''"]
  by (simp add: messageID_def MessageIDDomain_def graphic_char_def)


section \<open>Nested parts\<close>

text \<open>
  The reference: the parts that are not multiparts themselves, in document order, and the first error
  of a reader where it stops.
\<close>

datatype leaf = Leaf "mime_header \<times> bytes" | Fail err

function leaves :: "mail_lib \<Rightarrow> bytes \<Rightarrow> string \<Rightarrow> leaf list"
  and leaves_each :: "mail_lib \<Rightarrow> (mime_header \<times> bytes) list \<Rightarrow> leaf list" where
  "leaves L body b =
     (if b = [] then [Fail (ErrNew ''read multipart body: no boundary'')]
      else leaves_each L (parts_of (ml_multipart L) body b) @
        (case parts_end (ml_multipart L) body b of
          None \<Rightarrow> [] | Some e \<Rightarrow> [Fail (ErrWrap ''read multipart body'' e)]))"
| "leaves_each L [] = []"
| "leaves_each L (part # parts) =
     (if is_multipart L (fst part) then leaves L (snd part) (param (part_params L (fst part)) ''boundary'')
      else [Leaf part]) @ leaves_each L parts"
  by pat_completeness auto
termination
proof (relation "inv_image (less_than <*lex*> less_than <*lex*> less_than)
    (\<lambda>x. case x of Inl (L, body, b) \<Rightarrow> (length body, 1, 0)
       | Inr (L, parts) \<Rightarrow> (longest parts, 0, length parts))", goal_cases)
  case 1
  show ?case by (intro wf_inv_image wf_lex_prod wf_less_than)
next
  case (2 L body b)
  then show ?case
    using longest_le [of "parts_of (ml_multipart L) body b" "length body"] parts_shrink by fastforce
qed (auto simp: longest_Cons max_def)

declare leaves.simps [simp del]

fun read_leaves :: "mail_lib \<Rightarrow> messageContent \<Rightarrow> leaf list \<Rightarrow> err + messageContent" where
  "read_leaves L content [] = Inr content"
| "read_leaves L content (Leaf part # ls) = bind_err (readLeaf L content part) (\<lambda>content. read_leaves L content ls)"
| "read_leaves L content (Fail e # ls) = Inl e"

lemma bind_err_assoc: "bind_err (bind_err r f) g = bind_err r (\<lambda>x. bind_err (f x) g)"
  by (cases r) simp_all

lemma read_leaves_append:
  "read_leaves L content (ls @ ls') = bind_err (read_leaves L content ls) (\<lambda>content. read_leaves L content ls')"
proof (induction ls arbitrary: content)
  case (Cons l ls)
  then show ?case by (cases l) (simp_all add: bind_err_assoc)
qed simp

lemma readParts_leaves:
  "readParts L content body b = read_leaves L content (leaves L body b)"
  "readEach L content parts = read_leaves L content (leaves_each L parts)"
proof (induction L content body b and L content parts rule: readParts_readEach.induct)
  case (1 L content body b)
  then show ?case
    by (auto simp: readParts.simps leaves.simps read_leaves_append split: option.split intro!: bind_err_cong)
next
  case (3 L content part parts)
  then show ?case
    by (cases "is_multipart L (fst part)") (auto simp: read_leaves_append intro!: bind_err_cong)
qed simp

definition leaf_files :: "mail_lib \<Rightarrow> leaf \<Rightarrow> OutgoingAttachment list" where
  "leaf_files L l =
     (case l of Fail e \<Rightarrow> []
      | Leaf part \<Rightarrow>
          (case decodedPart L (fst part) (snd part) of Inl e \<Rightarrow> []
           | Inr decoded \<Rightarrow>
               (let name = attachmentName L (fst part) (part_params L (fst part))
                in if name = [] then []
                   else [\<lparr>oa_Name = name, oa_ContentType = part_type L (fst part), oa_Content = decoded\<rparr>])))"

lemma readLeaf_files:
  "readLeaf L content part = Inr content' \<Longrightarrow>
     ct_attachments content' = ct_attachments content @ leaf_files L (Leaf part)"
  by (cases "attachmentName L (fst part) (part_params L (fst part)) = []")
     (auto simp: readLeaf_def leaf_files_def Let_def split: if_splits)

lemma read_leaves_files:
  "read_leaves L content ls = Inr content' \<Longrightarrow>
     ct_attachments content' = ct_attachments content @ concat (map (leaf_files L) ls)"
proof (induction ls arbitrary: content)
  case (Cons l ls)
  then show ?case by (cases l) (auto dest: readLeaf_files)
qed simp

text \<open>
  C37: however deeply the parts of a message are nested, reading them is reading their leaves one after
  the other in document order, up to the first error; a message that is read carries exactly the files
  of the leaves that have a file name, in that order. (Reading always ends: the function is total.)
\<close>

theorem readParts_in_document_order:
  "readParts L content body b = read_leaves L content (leaves L body b) \<and>
   (case readParts L content body b of Inl e \<Rightarrow> True
    | Inr content' \<Rightarrow>
        ct_attachments content' = ct_attachments content @ concat (map (leaf_files L) (leaves L body b)))"
  using readParts_leaves(1) [of L content body b] read_leaves_files [of L content "leaves L body b"]
  by (auto split: sum.split)

section \<open>Stripping line breaks\<close>

text \<open>What \<open>io.ReadAll\<close> gets from a reader, and from the same reader behind a \<open>newlineStripper\<close>.\<close>

fun read_all :: "(bytes \<times> err option) list \<Rightarrow> bytes \<times> err" where
  "read_all [] = ([], ErrSentinel IoEOF)"
| "read_all ((p, None) # reads) = (p @ fst (read_all reads), snd (read_all reads))"
| "read_all ((p, Some e) # reads) = (p, e)"

lemma newlineStripper_shorter:
  "newlineStripper_Read reads = ((p, None), rest) \<Longrightarrow> length rest < length reads"
  by (induction reads rule: newlineStripper_Read.induct) (auto simp: Let_def split: if_splits)

function strip_all :: "(bytes \<times> err option) list \<Rightarrow> bytes \<times> err" where
  "strip_all reads =
     (case newlineStripper_Read reads of
       ((p, None), rest) \<Rightarrow> (p @ fst (strip_all rest), snd (strip_all rest))
     | ((p, Some e), rest) \<Rightarrow> (p, e))"
  by pat_completeness auto
termination
  by (relation "measure length") (auto dest: newlineStripper_shorter [OF sym])

declare strip_all.simps [simp del]

text \<open>
  Behind a \<open>newlineStripper\<close> a reader has the same content less its line breaks and ends with the
  same error, however its reads were split; and no read answers with nothing and no error.
\<close>

theorem newlineStripper_filters:
  "strip_all reads = (filter (\<lambda>b. b \<noteq> 13 \<and> b \<noteq> 10) (fst (read_all reads)), snd (read_all reads)) \<and>
   fst (newlineStripper_Read reads) \<noteq> ([], None)"
proof
  show "strip_all reads = (filter (\<lambda>b. b \<noteq> 13 \<and> b \<noteq> 10) (fst (read_all reads)), snd (read_all reads))"
  proof (induction reads)
    case Nil
    then show ?case by (simp add: strip_all.simps [of "[]"])
  next
    case (Cons r reads)
    obtain p e where r: "r = (p, e)" by (cases r)
    show ?case
    proof (cases "filter (\<lambda>b. b \<noteq> 13 \<and> b \<noteq> 10) p = [] \<and> e = None")
      case True
      then have "newlineStripper_Read (r # reads) = newlineStripper_Read reads" by (simp add: r)
      then have "strip_all (r # reads) = strip_all reads"
        by (subst (1 2) strip_all.simps) (simp only:)
      with True Cons show ?thesis by (simp add: r)
    next
      case False
      then have "newlineStripper_Read (r # reads) = ((filter (\<lambda>b. b \<noteq> 13 \<and> b \<noteq> 10) p, e), reads)"
        by (auto simp: r)
      with Cons show ?thesis
        by (subst strip_all.simps) (cases e, simp_all add: r)
    qed
  qed
  show "fst (newlineStripper_Read reads) \<noteq> ([], None)"
    by (induction reads rule: newlineStripper_Read.induct) (auto simp: Let_def)
qed

end
