(* ===== verification/MailService.thy ===== *)
theory MailService
  imports Outgoing
begin

text \<open>
  \<open>internal/mail/mail.go\<close>: the service that holds the account's session, the messages remembered
  during a sync and the identifiers of the last copies sent, and calls the commands with them. Its
  mutexes make each access to that state one step; the state is passed explicitly. The client's state
  is part of it. Every operation that draws random values does so from its own source \<open>mv_rand\<close>, by
  the count of such operations.
\<close>

record MailAccount =
  mac_Token :: string
  mac_Address :: string
  mac_PrivateKey :: bytes
  mac_PublicKey :: bytes

text \<open>What does not change: the client, the server's key, and the libraries.\<close>

record 's mail_env =
  mv_deps :: deps
  mv_client :: "'s client"
  mv_mime :: mime_env
  mv_lib :: mail_lib
  mv_rand :: "nat \<Rightarrow> rand"
  mv_serverPublicKey :: bytes

record 's service_state =
  sv_api :: 's
  sv_account :: MailAccount
  sv_threads :: "string \<rightharpoonup> EmailResponseDto"
  sv_sentCopies :: "string \<rightharpoonup> string"
  sv_sentOrder :: "string list"
  sv_draws :: nat

definition sentCopiesKept :: nat where "sentCopiesKept = 32"

definition svc_New :: "'s \<Rightarrow> MailAccount \<Rightarrow> 's service_state" where
  "svc_New api account =
     \<lparr>sv_api = api, sv_account = account, sv_threads = Map.empty, sv_sentCopies = Map.empty,
      sv_sentOrder = [], sv_draws = 0\<rparr>"

definition SetToken :: "string \<Rightarrow> 's service_state \<Rightarrow> 's service_state" where
  "SetToken token s = s\<lparr>sv_account := (sv_account s)\<lparr>mac_Token := token\<rparr>\<rparr>"

definition svc_token :: "'s service_state \<Rightarrow> string" where
  "svc_token s = mac_Token (sv_account s)"

definition decryptionAccount :: "'s service_state \<Rightarrow> Account" where
  "decryptionAccount s =
     \<lparr>ac_Address = mac_Address (sv_account s), ac_PrivateKey = mac_PrivateKey (sv_account s),
      ac_PublicKey = mac_PublicKey (sv_account s)\<rparr>"

text \<open>An operation of the client, run on the client's part of the state.\<close>

definition on_api :: "('s \<Rightarrow> 'r \<times> 's) \<Rightarrow> 's service_state \<Rightarrow> 'r \<times> 's service_state" where
  "on_api f s = (case f (sv_api s) of (r, api) \<Rightarrow> (r, s\<lparr>sv_api := api\<rparr>))"

section \<open>Remembered threads\<close>

definition ForgetThreads :: "'s service_state \<Rightarrow> 's service_state" where
  "ForgetThreads s = s\<lparr>sv_threads := Map.empty\<rparr>"

definition rememberThread :: "EmailResponseDto list \<Rightarrow> 's service_state \<Rightarrow> 's service_state" where
  "rememberThread thread s = s\<lparr>sv_threads := fold (\<lambda>email m. m(em_Id email \<mapsto> email)) thread (sv_threads s)\<rparr>"

definition rememberedEmail :: "'s service_state \<Rightarrow> string \<Rightarrow> EmailResponseDto option" where
  "rememberedEmail s emailID = sv_threads s emailID"

text \<open>The message as it is remembered: decrypted, or as it arrived when that fails.\<close>

definition opened_email :: "deps \<Rightarrow> EmailResponseDto list \<Rightarrow> Account \<Rightarrow> EmailResponseDto \<Rightarrow> EmailResponseDto" where
  "opened_email D thread account email =
     (case PickFromThread D thread (em_Id email) account of (opened, None) \<Rightarrow> opened | (_, Some e) \<Rightarrow> email)"

definition svc_email :: "'s mail_env \<Rightarrow> string \<Rightarrow> 's service_state \<Rightarrow> (EmailResponseDto \<times> err option) \<times> 's service_state" where
  "svc_email V emailID s =
     (case rememberedEmail s emailID of
       Some email \<Rightarrow> ((email, None), s)
     | None \<Rightarrow>
         (case on_api (cl_GetThread (mv_client V) (svc_token s) emailID) s of
           (Inl e, s) \<Rightarrow> ((zero_email, Some e), s)
         | (Inr thread, s) \<Rightarrow>
             let decrypted = map (opened_email (mv_deps V) thread (decryptionAccount s)) thread;
                 s = rememberThread decrypted s
             in (PickFromThread (mv_deps V) decrypted emailID (decryptionAccount s), s)))"

definition rawEmail :: "'s mail_env \<Rightarrow> string \<Rightarrow> ('s service_state, EmailResponseDto) op" where
  "rawEmail V emailID s =
     (case on_api (cl_GetThread (mv_client V) (svc_token s) emailID) s of
       (Inl e, s) \<Rightarrow> (Inl e, s)
     | (Inr thread, s) \<Rightarrow>
         (case find (\<lambda>email. em_Id email = emailID) thread of
           Some email \<Rightarrow> (Inr email, s)
         | None \<Rightarrow>
             if length thread = 1 then (Inr (thread ! 0), s)
             else (Inl (ErrWrap ''get email'' (ErrSentinel ErrEmailNotFound)), s)))"

section \<open>Reading\<close>

definition svc_ListMailboxes :: "'s mail_env \<Rightarrow> ('s service_state, MailboxResponseDto list) op" where
  "svc_ListMailboxes V s = on_api (ListMailboxes (mv_client V) (svc_token s)) s"

definition svc_ListEmails :: "'s mail_env \<Rightarrow> ListEmailsOptions \<Rightarrow> ('s service_state, EmailListResponseDto) op" where
  "svc_ListEmails V opts s = on_api (ListEmails (mv_client V) (svc_token s) opts) s"

text \<open>None is a listing that never ends. The errors of the previews are only logged.\<close>

definition svc_ListAllEmails :: "'s mail_env \<Rightarrow> ListEmailsOptions \<Rightarrow> 's service_state \<Rightarrow>
    ((err + EmailSummaryResponseDto list) \<times> 's service_state) option" where
  "svc_ListAllEmails V opts s =
     map_option (\<lambda>(r, errs, api). (r, s\<lparr>sv_api := api\<rparr>))
       (ListAllEmails (mv_deps V) (mv_client V) (svc_token s) opts (decryptionAccount s) (sv_api s))"

text \<open>A literal can come with an error: the message is then served undecrypted.\<close>

definition svc_GetMessageLiteral :: "'s mail_env \<Rightarrow> string \<Rightarrow> 's service_state \<Rightarrow> (bytes option \<times> err option) \<times> 's service_state" where
  "svc_GetMessageLiteral V emailID s =
     (case svc_email V emailID s of
       ((email, decryptErr), s) \<Rightarrow>
         if em_Id email = [] then ((None, decryptErr), s)
         else case BuildLiteralWithAttachments (mv_mime V) email Map.empty of
             Inl e \<Rightarrow> ((None, Some e), s)
           | Inr literal \<Rightarrow> ((Some (str_bytes literal), decryptErr), s))"

definition svc_ResolveAttachments :: "'s mail_env \<Rightarrow> string \<Rightarrow> bytes \<Rightarrow> ('s service_state, bytes) op" where
  "svc_ResolveAttachments V emailID literal s =
     bind_st (rawEmail V emailID s) (\<lambda>email s.
     if length (em_Attachments email) = 0 then (Inr literal, s)
     else
       (case on_api (DownloadAttachments (mv_deps V) (mv_client V) (svc_token s) email (decryptionAccount s)) s of
         ((Inl e, errs), s) \<Rightarrow> (Inl e, s)
       | ((Inr blobs, errs), s) \<Rightarrow>
           (case PickFromThread (mv_deps V) [email] emailID (decryptionAccount s) of
             (opened, Some e) \<Rightarrow> (Inl e, s)
           | (opened, None) \<Rightarrow>
               (map_sum id str_bytes (BuildLiteralWithAttachments (mv_mime V) opened blobs), s))))"

section \<open>Changing\<close>

definition svc_MarkRead :: "'s mail_env \<Rightarrow> string list \<Rightarrow> bool \<Rightarrow> ('s service_state, unit) op" where
  "svc_MarkRead V emailIDs read s = on_api (MarkRead (mv_client V) (svc_token s) emailIDs read) s"

definition svc_MarkFlagged :: "'s mail_env \<Rightarrow> string list \<Rightarrow> bool \<Rightarrow> ('s service_state, unit) op" where
  "svc_MarkFlagged V emailIDs flagged s = on_api (MarkFlagged (mv_client V) (svc_token s) emailIDs flagged) s"

definition svc_Move :: "'s mail_env \<Rightarrow> string list \<Rightarrow> Mailbox \<Rightarrow> ('s service_state, unit) op" where
  "svc_Move V emailIDs mailbox s = on_api (Move (mv_client V) (svc_token s) emailIDs mailbox) s"

definition svc_Delete :: "'s mail_env \<Rightarrow> string list \<Rightarrow> ('s service_state, unit) op" where
  "svc_Delete V emailIDs s = on_api (Delete (mv_client V) (svc_token s) emailIDs) s"

definition svc_DiscardDrafts :: "'s mail_env \<Rightarrow> string list \<Rightarrow> ('s service_state, unit) op" where
  "svc_DiscardDrafts V draftIDs s = on_api (DiscardDrafts (mv_client V) (svc_token s) draftIDs) s"

section \<open>Sending\<close>

text \<open>The loop that forgets the oldest copies.\<close>

fun forget_oldest :: "(string \<rightharpoonup> string) \<Rightarrow> string list \<Rightarrow> (string \<rightharpoonup> string) \<times> string list" where
  "forget_oldest copies [] = (copies, [])"
| "forget_oldest copies (oldest # order) =
     (if sentCopiesKept < length (oldest # order) then forget_oldest (copies(oldest := None)) order
      else (copies, oldest # order))"

text \<open>\<open>rememberSentCopy\<close> once the Message-ID is read from the raw message.\<close>

definition remember_copy :: "string \<Rightarrow> string \<Rightarrow> 's service_state \<Rightarrow> 's service_state" where
  "remember_copy ident sentID s =
     (if ident = [] \<or> sentID = [] then s
      else
        let order = (if sv_sentCopies s ident = None then sv_sentOrder s @ [ident] else sv_sentOrder s);
            copies = (sv_sentCopies s)(ident \<mapsto> sentID);
            (copies, order) = forget_oldest copies order
        in s\<lparr>sv_sentCopies := copies, sv_sentOrder := order\<rparr>)"

definition rememberSentCopy :: "'s mail_env \<Rightarrow> bytes \<Rightarrow> string \<Rightarrow> 's service_state \<Rightarrow> 's service_state" where
  "rememberSentCopy V raw sentID s = remember_copy (messageIDHeaderOf (mv_lib V) raw) sentID s"

definition svc_SentCopyID :: "'s mail_env \<Rightarrow> bytes \<Rightarrow> 's service_state \<Rightarrow> string option \<times> 's service_state" where
  "svc_SentCopyID V raw s =
     (let ident = messageIDHeaderOf (mv_lib V) raw
      in (if ident = [] then None else sv_sentCopies s ident, s))"

text \<open>The next operation draws from the next source.\<close>

definition drawn :: "'s service_state \<Rightarrow> 's service_state" where
  "drawn s = s\<lparr>sv_draws := sv_draws s + 1\<rparr>"

text \<open>None is the panic of reading a blank In-Reply-To.\<close>

definition svc_SendEmail :: "'s mail_env \<Rightarrow> bytes \<Rightarrow> string list \<Rightarrow> 's service_state \<Rightarrow>
    ((err + unit) \<times> 's service_state) option" where
  "svc_SendEmail V raw envelopeRecipients s =
     (case ParseOutgoingMessage (mv_lib V) raw envelopeRecipients of
       None \<Rightarrow> None
     | Some (Inl e) \<Rightarrow> Some (Inl e, s)
     | Some (Inr msg) \<Rightarrow> Some
         (bind_st (on_api (SendEmail (mv_deps V) (mv_rand V (sv_draws s)) (mv_client V) (svc_token s) msg
                     (decryptionAccount s) (mv_serverPublicKey V)) (drawn s))
            (\<lambda>sentID s. (Inr (), rememberSentCopy V raw sentID s))))"

definition svc_SaveDraft :: "'s mail_env \<Rightarrow> bytes \<Rightarrow> 's service_state \<Rightarrow> ((err + string) \<times> 's service_state) option" where
  "svc_SaveDraft V raw s =
     (case ParseOutgoingMessage (mv_lib V) raw [] of
       None \<Rightarrow> None
     | Some (Inl e) \<Rightarrow> Some (Inl e, s)
     | Some (Inr msg) \<Rightarrow> Some
         (bind_st (on_api (SaveDraft (mv_deps V) (mv_rand V (sv_draws s)) (mv_client V) (svc_token s) msg
                     (decryptionAccount s)) (drawn s))
            (\<lambda>draft s. (Inr (em_Id draft), s))))"

end
