(* ===== verification/MailServiceProps.thy ===== *)
theory MailServiceProps
  imports MailService CommandsProps
begin

text \<open>
  What the mail service guarantees: the identifiers of sent copies are a queue of the last 32, a
  thread is fetched once for all its messages until the threads are forgotten, and serving mail only
  ever reads the account.
\<close>

section \<open>Sent copies\<close>

definition sent_inv :: "'s service_state \<Rightarrow> bool" where
  "sent_inv s \<longleftrightarrow> distinct (sv_sentOrder s) \<and> dom (sv_sentCopies s) = set (sv_sentOrder s) \<and>
     length (sv_sentOrder s) \<le> sentCopiesKept"

text \<open>The abstract state: the pairs in the order their identifiers were first remembered.\<close>

definition sent_queue :: "'s service_state \<Rightarrow> (string \<times> string) list" where
  "sent_queue s = map (\<lambda>ident. (ident, the (sv_sentCopies s ident))) (sv_sentOrder s)"

definition enqueue :: "string \<times> string \<Rightarrow> (string \<times> string) list \<Rightarrow> (string \<times> string) list" where
  "enqueue e q =
     (if fst e = [] \<or> snd e = [] then q
      else if fst e \<in> fst ` set q then map (\<lambda>e'. if fst e' = fst e then e else e') q
      else drop (Suc (length q) - 32) (q @ [e]))"

lemma forget_oldest_drop:
  "forget_oldest copies order =
     (copies |` (- set (take (length order - sentCopiesKept) order)), drop (length order - sentCopiesKept) order)"
proof (induction order arbitrary: copies)
  case (Cons i order)
  show ?case
  proof (cases "sentCopiesKept < length (i # order)")
    case True
    then have "length (i # order) - sentCopiesKept = Suc (length order - sentCopiesKept)" by simp
    with True Cons show ?thesis by (auto simp: restrict_map_def fun_eq_iff)
  next
    case False
    then have "length (i # order) - sentCopiesKept = 0" by simp
    with False show ?thesis by (auto simp: restrict_map_def fun_eq_iff)
  qed
qed (simp add: restrict_map_def)

lemma map_of_sent_queue: "sent_inv s \<Longrightarrow> map_of (sent_queue s) = sv_sentCopies s"
proof
  fix x
  assume "sent_inv s"
  then have d: "dom (sv_sentCopies s) = set (sv_sentOrder s)" by (simp add: sent_inv_def)
  have "map_of (map (\<lambda>i. (i, f i)) xs) x = (if x \<in> set xs then Some (f x) else None)" for f :: "string \<Rightarrow> string" and xs
    by (induction xs) auto
  then show "map_of (sent_queue s) x = sv_sentCopies s x"
    using d [symmetric] by (cases "sv_sentCopies s x") (simp_all add: sent_queue_def domIff)
qed

lemma remember_copy_refines:
  assumes inv: "sent_inv s"
  shows "sent_inv (remember_copy ident sentID s) \<and>
    sent_queue (remember_copy ident sentID s) = enqueue (ident, sentID) (sent_queue s)"
proof (cases "ident = [] \<or> sentID = []")
  case True
  with inv show ?thesis by (auto simp: remember_copy_def enqueue_def)
next
  case False
  have i: "distinct (sv_sentOrder s)" "dom (sv_sentCopies s) = set (sv_sentOrder s)"
    "length (sv_sentOrder s) \<le> 32" using inv by (simp_all add: sent_inv_def sentCopiesKept_def)
  have q: "fst ` set (sent_queue s) = set (sv_sentOrder s)" "length (sent_queue s) = length (sv_sentOrder s)"
    by (auto simp: sent_queue_def image_image)
  show ?thesis
  proof (cases "ident \<in> set (sv_sentOrder s)")
    case True
    then obtain old where k: "sv_sentCopies s ident = Some old" using i(2) by auto
    have full: "(sv_sentCopies s)(ident \<mapsto> sentID) |` (- {}) = (sv_sentCopies s)(ident \<mapsto> sentID)"
      by (auto simp: restrict_map_def)
    have "remember_copy ident sentID s = s\<lparr>sv_sentCopies := (sv_sentCopies s)(ident \<mapsto> sentID)\<rparr>"
      using False i(3) full
      by (simp add: remember_copy_def forget_oldest_drop sentCopiesKept_def Let_def k restrict_map_def del: restrict_map_upds)
    then show ?thesis
      using False True i q by (auto simp: sent_inv_def sent_queue_def enqueue_def sentCopiesKept_def)
  next
    case fresh: False
    then have k: "sv_sentCopies s ident = None" using i(2) by auto
    let ?n = "Suc (length (sv_sentOrder s)) - 32"
    let ?order = "sv_sentOrder s @ [ident]"
    have n: "?n \<le> length (sv_sentOrder s)" by simp
    have r: "sv_sentCopies (remember_copy ident sentID s) = (sv_sentCopies s)(ident \<mapsto> sentID) |` (- set (take ?n ?order))"
      "sv_sentOrder (remember_copy ident sentID s) = drop ?n ?order"
      using False k by (simp_all add: remember_copy_def forget_oldest_drop sentCopiesKept_def Let_def)
    have d: "distinct ?order" using i fresh by simp
    then have split: "set (take ?n ?order) \<inter> set (drop ?n ?order) = {}" "distinct (drop ?n ?order)"
      by (metis append_take_drop_id distinct_append)+
    have un: "set ?order = set (take ?n ?order) \<union> set (drop ?n ?order)"
      by (metis append_take_drop_id set_append)
    have "dom (sv_sentCopies (remember_copy ident sentID s)) = set (drop ?n ?order)"
    proof -
      have "dom ((sv_sentCopies s)(ident \<mapsto> sentID)) = set ?order" using i(2) by auto
      with un split(1) show ?thesis unfolding r(1) dom_restrict by blast
    qed
    moreover have "sent_queue (remember_copy ident sentID s) = drop ?n (sent_queue s @ [(ident, sentID)])"
    proof -
      have "sent_queue (remember_copy ident sentID s) =
          map (\<lambda>x. (x, the (((sv_sentCopies s)(ident \<mapsto> sentID)) x))) (drop ?n ?order)"
        unfolding sent_queue_def r using split(1) by (auto simp: restrict_map_def)
      also have "\<dots> = drop ?n (map (\<lambda>x. (x, the (((sv_sentCopies s)(ident \<mapsto> sentID)) x))) ?order)"
        by (rule drop_map [symmetric])
      also have "map (\<lambda>x. (x, the (((sv_sentCopies s)(ident \<mapsto> sentID)) x))) ?order = sent_queue s @ [(ident, sentID)]"
        using fresh by (auto simp: sent_queue_def)
      finally show ?thesis .
    qed
    ultimately show ?thesis
      using False fresh q i(3) split(2) by (auto simp: sent_inv_def r(2) enqueue_def sentCopiesKept_def)
  qed
qed


lemma remember_copies_refine:
  "sent_inv s \<Longrightarrow>
     sent_inv (fold (\<lambda>e. remember_copy (fst e) (snd e)) xs s) \<and>
     sent_queue (fold (\<lambda>e. remember_copy (fst e) (snd e)) xs s) = fold enqueue xs (sent_queue s)"
proof (induction xs arbitrary: s)
  case (Cons e xs)
  from remember_copy_refines [OF Cons.prems, of "fst e" "snd e"] Cons.IH [of "remember_copy (fst e) (snd e) s"]
  show ?case by simp
qed simp

lemma svc_New_inv: "sent_inv (svc_New api account)" "sent_queue (svc_New api account) = []"
  by (simp_all add: sent_inv_def sent_queue_def svc_New_def)

lemma enqueue_distinct:
  assumes "distinct (map fst (q @ xs))" "list_all (\<lambda>e. fst e \<noteq> [] \<and> snd e \<noteq> []) xs" "length q \<le> 32"
  shows "fold enqueue xs q = drop (length (q @ xs) - 32) (q @ xs)"
  using assms
proof (induction xs arbitrary: q)
  case (Cons e xs)
  define n where "n = Suc (length q) - 32"
  let ?q = "drop n (q @ [e])"
  have n: "n \<le> length q" by (simp add: n_def)
  have e: "enqueue e q = ?q" using Cons.prems by (auto simp: enqueue_def n_def)
  have "length ?q \<le> 32" by (simp add: n_def)
  moreover have "distinct (map fst (?q @ xs))"
  proof -
    have "map fst (?q @ xs) = drop n (map fst (q @ e # xs))" using n by (simp add: drop_map)
    then show ?thesis using distinct_drop [OF Cons.prems(1)] by metis
  qed
  ultimately have "fold enqueue xs ?q = drop (length (?q @ xs) - 32) (?q @ xs)"
    using Cons.IH [of ?q] Cons.prems(2) by simp
  moreover have "?q @ xs = drop n (q @ e # xs)" using n by simp
  moreover have "length (q @ e # xs) - 32 = length (drop n (q @ e # xs)) - 32 + n"
    by (simp add: n_def)
  ultimately show ?case by (simp only: e fold_simps drop_drop)
qed simp

text \<open>
  What SentCopyID answers from is a queue of at most 32 copies: remembering one replaces the
  identifier of a known message in place and otherwise appends it, dropping the oldest beyond 32. So
  after any number of different messages exactly the last 32 are answered for.
\<close>

theorem sent_copies_are_a_queue:
  assumes "s = fold (\<lambda>e. remember_copy (fst e) (snd e)) xs (svc_New api account)"
  shows "sv_sentCopies s = map_of (fold enqueue xs []) \<and> length (sv_sentOrder s) \<le> 32 \<and>
    card (dom (sv_sentCopies s)) \<le> 32 \<and>
    (distinct (map fst xs) \<and> list_all (\<lambda>e. fst e \<noteq> [] \<and> snd e \<noteq> []) xs \<longrightarrow>
       sv_sentCopies s = map_of (drop (length xs - 32) xs))"
proof -
  note r = remember_copies_refine [OF svc_New_inv(1) [of api account], of xs, folded assms, unfolded svc_New_inv]
  have m: "sv_sentCopies s = map_of (fold enqueue xs [])" using map_of_sent_queue [of s] r by simp
  have l: "length (sv_sentOrder s) \<le> 32" "card (dom (sv_sentCopies s)) \<le> 32"
    using r card_length [of "sv_sentOrder s"] by (auto simp: sent_inv_def sentCopiesKept_def)
  from m l enqueue_distinct [of "[]" xs] show ?thesis by auto
qed

theorem sent_copies_are_a_queue_witness:
  "sv_sentCopies (fold (\<lambda>e. remember_copy (fst e) (snd e)) [(''<m1>'', ''E1''), (''<m2>'', ''E2''), (''<m1>'', ''E3'')]
     (svc_New () \<lparr>mac_Token = ''t'', mac_Address = ''a'', mac_PrivateKey = [], mac_PublicKey = []\<rparr>)) ''<m1>'' = Some ''E3''"
  using conjunct1 [OF sent_copies_are_a_queue [OF refl], of "[(''<m1>'', ''E1''), (''<m2>'', ''E2''), (''<m1>'', ''E3'')]" "()"
    "\<lparr>mac_Token = ''t'', mac_Address = ''a'', mac_PrivateKey = [], mac_PublicKey = []\<rparr>"]
  by (simp add: enqueue_def)

section \<open>Sending\<close>

lemma remember_copy_found:
  "sent_inv s \<Longrightarrow> ident \<noteq> [] \<Longrightarrow> sentID \<noteq> [] \<Longrightarrow> sv_sentCopies (remember_copy ident sentID s) ident = Some sentID"
proof -
  assume s: "sent_inv s" and ne: "ident \<noteq> []" "sentID \<noteq> []"
  have r: "sent_inv (remember_copy ident sentID s)"
    "sent_queue (remember_copy ident sentID s) = enqueue (ident, sentID) (sent_queue s)"
    using remember_copy_refines [OF s, of ident sentID] by simp_all
  have "map_of (enqueue (ident, sentID) (sent_queue s)) ident = Some sentID"
  proof (cases "ident \<in> fst ` set (sent_queue s)")
    case True
    have "ident \<in> fst ` set q \<Longrightarrow> map_of (map (\<lambda>e'. if fst e' = ident then (ident, sentID) else e') q) ident = Some sentID" for q
      by (induction q) auto
    with True ne show ?thesis by (simp add: enqueue_def)
  next
    case False
    then have "map_of (drop n (sent_queue s)) ident = None" for n
      using set_drop_subset [of n "sent_queue s"] unfolding map_of_eq_None_iff by blast
    moreover have "length (sent_queue s) \<le> 32" using s by (simp add: sent_queue_def sent_inv_def sentCopiesKept_def)
    ultimately show ?thesis using False ne by (simp add: enqueue_def map_add_def)
  qed
  with map_of_sent_queue [OF r(1)] r(2) show ?thesis by simp
qed

lemma SetToken_inv [simp]: "sent_inv (SetToken t s) = sent_inv s"
  by (simp add: sent_inv_def SetToken_def)

lemma on_api_simps:
  "sv_sentCopies (snd (on_api f s)) = sv_sentCopies s" "sv_sentOrder (snd (on_api f s)) = sv_sentOrder s"
  "sv_threads (snd (on_api f s)) = sv_threads s" "sv_account (snd (on_api f s)) = sv_account s"
  "sv_draws (snd (on_api f s)) = sv_draws s"
  by (simp_all add: on_api_def split: prod.split)

lemma svc_SendEmail_Inr:
  assumes "svc_SendEmail V raw recipients s = Some (Inr (), s')"
  shows "\<exists>msg sentID api. ParseOutgoingMessage (mv_lib V) raw recipients = Some (Inr msg) \<and>
    SendEmail (mv_deps V) (mv_rand V (sv_draws s)) (mv_client V) (svc_token s) msg
      (decryptionAccount s) (mv_serverPublicKey V) (sv_api s) = (Inr sentID, api) \<and>
    s' = rememberSentCopy V raw sentID ((drawn s)\<lparr>sv_api := api\<rparr>)"
  using assms
  by (auto simp: svc_SendEmail_def on_api_def drawn_def split: option.splits sum.splits prod.splits)


section \<open>Threads\<close>

lemma fold_remember:
  "distinct (map em_Id thread) \<Longrightarrow> email \<in> set thread \<Longrightarrow>
     fold (\<lambda>email m. m(em_Id email \<mapsto> email)) thread m (em_Id email) = Some email"
proof (induction thread arbitrary: m)
  case (Cons e thread)
  have other: "x \<notin> em_Id ` set thread \<Longrightarrow> fold (\<lambda>email m. m(em_Id email \<mapsto> email)) thread m x = m x" for m x
    by (induction thread arbitrary: m) auto
  show ?case
  proof (cases "email = e")
    case True
    then show ?thesis
      using Cons.prems other [of "em_Id e" "m(em_Id e \<mapsto> e)"] by (simp del: fun_upd_apply add: fun_upd_same)
  next
    case False
    then show ?thesis using Cons by simp
  qed
qed simp

lemma decryptBody_Id: "em_Id (fst (decryptBody D email account)) = em_Id email"
  by (auto simp: decryptBody_def Let_def split: sum.split)

lemma find_distinct:
  "distinct (map em_Id thread) \<Longrightarrow> email \<in> set thread \<Longrightarrow> find (\<lambda>e. em_Id e = em_Id email) thread = Some email"
  by (induction thread) auto

lemma opened_email_Id:
  assumes "distinct (map em_Id thread)" "email \<in> set thread"
  shows "em_Id (opened_email D thread account email) = em_Id email"
proof -
  have "PickFromThread D thread (em_Id email) account = decryptBody D email account"
    by (simp add: PickFromThread_def find_distinct [OF assms])
  then show ?thesis
    using decryptBody_Id [of D email account]
    by (auto simp: opened_email_def split: prod.split option.split)
qed

lemma svc_email_remembers:
  assumes t: "cl_GetThread (mv_client V) (svc_token s) x (sv_api s) = (Inr thread, api)" "rememberedEmail s x = None"
    and d: "distinct (map em_Id thread)" "email \<in> set thread"
  shows "rememberedEmail (snd (svc_email V x s)) (em_Id email) =
      Some (opened_email (mv_deps V) thread (decryptionAccount s) email)"
    "sv_api (snd (svc_email V x s)) = api"
proof -
  let ?open = "opened_email (mv_deps V) thread (decryptionAccount s)"
  have ids: "map em_Id (map ?open thread) = map em_Id thread"
    using opened_email_Id [OF d(1)] by simp
  have "fold (\<lambda>email m. m(em_Id email \<mapsto> email)) (map ?open thread) m (em_Id (?open email)) = Some (?open email)" for m
    by (rule fold_remember) (use d ids in \<open>simp_all del: map_map\<close>)
  then have "fold (\<lambda>email m. m(em_Id email \<mapsto> email)) (map ?open thread) m (em_Id email) = Some (?open email)" for m
    by (simp only: opened_email_Id [OF d])
  then show "rememberedEmail (snd (svc_email V x s)) (em_Id email) = Some (?open email)"
    "sv_api (snd (svc_email V x s)) = api"
    using t by (simp_all add: svc_email_def on_api_def rememberedEmail_def rememberThread_def Let_def
        decryptionAccount_def)
qed


section \<open>Reading only\<close>

fun reading :: "call \<Rightarrow> bool" where
  "reading (CallList t opts) = True"
| "reading (CallMailboxes t) = True"
| "reading (CallThread t x) = True"
| "reading (CallDownload t i b) = True"
| "reading c = False"

text \<open>The calls a client's state has logged.\<close>

definition reads_only :: "('a \<times> call list) \<Rightarrow> bool" where
  "reads_only a \<longleftrightarrow> list_all reading (snd a)"

lemma reads_only_logged: "reads_only a \<Longrightarrow> reading c \<Longrightarrow> reads_only (snd (logged c f a))"
  by (simp add: reads_only_def)

lemma reads_only_step: "logged c f a = (r, a') \<Longrightarrow> reads_only a \<Longrightarrow> reading c \<Longrightarrow> reads_only a'"
  by (auto simp: reads_only_def logged_eq_iff)

lemma ListEmails_reads: "reads_only a \<Longrightarrow> reads_only (snd (ListEmails (recording C) t opts a))"
  by (simp add: ListEmails_def reads_only_def)

lemma list_all_from_reads:
  assumes "list_all_from D (recording C0) t opts account gathered errs a = Some y" "reads_only a"
  shows "reads_only (snd (snd y))"
proof -
  have "recording C0 = recording C0 \<longrightarrow> reads_only a \<longrightarrow> reads_only (snd (snd y))"
  proof (rule list_all_from.raw_induct [where
      P = "\<lambda>D C t opts account gathered errs a y. C = recording C0 \<longrightarrow> reads_only a \<longrightarrow> reads_only (snd (snd y))",
      OF _ assms(1)], intro impI)
    fix f D C t opts account gathered errs a y
    assume IH: "\<And>D C t opts account gathered errs a y. f D C t opts account gathered errs a = Some y \<Longrightarrow>
          C = recording C0 \<longrightarrow> reads_only a \<longrightarrow> reads_only (snd (snd y))"
      and F: "(case ListEmails C t opts a of
             (Inl e, s) \<Rightarrow> Some (Inl e, errs, s)
           | (Inr page, s) \<Rightarrow>
               (let (decrypted, es) = decrypt_page D account (li_Emails page);
                    gathered = gathered @ decrypted; errs = errs @ es
                in if \<not> li_HasMoreMails page \<or> length (li_Emails page) = 0 then Some (Inr gathered, errs, s)
                   else f D C t (opts\<lparr>lo_Position := wrap64 (lo_Position opts + int (length (li_Emails page)))\<rparr>)
                     account gathered errs s)) = Some y"
      and C: "C = recording C0" and a: "reads_only a"
    obtain r a1 where l: "ListEmails C t opts a = (r, a1)" by (metis prod.exhaust)
    have a1: "reads_only a1" using ListEmails_reads [OF a, of C0 t opts] l C by simp
    show "reads_only (snd (snd y))"
      using F l a1 IH C by (auto simp: Let_def split: sum.splits prod.splits if_splits)
  qed
  with assms(2) show ?thesis by blast
qed

lemma download_each_reads:
  "reads_only a \<Longrightarrow> reads_only (snd (snd (download_each D (recording C) t x k as blobs errs a)))"
proof (induction as arbitrary: blobs errs a)
  case (Cons b as)
  obtain r a1 where l: "logged (CallDownload t x (at_BlobId b)) (cl_DownloadAttachment C t x (at_BlobId b)) a = (r, a1)"
    by (metis prod.exhaust)
  have "reads_only a1" by (rule reads_only_step [OF l Cons.prems]) simp
  from Cons.IH [OF this] l show ?case by (cases r) (auto simp: Let_def split: sum.split)
qed simp

lemma on_api_reads: "reads_only (snd (f (sv_api s))) \<Longrightarrow> reads_only (sv_api (snd (on_api f s)))"
  by (auto simp: on_api_def split: prod.split)


lemma svc_email_reads:
  assumes "mv_client V = recording C" "reads_only (sv_api s)"
  shows "reads_only (sv_api (snd (svc_email V x s)))"
proof -
  obtain r s1 where t: "on_api (cl_GetThread (mv_client V) (svc_token s) x) s = (r, s1)" by (metis prod.exhaust)
  have "reads_only (sv_api (snd (on_api (cl_GetThread (mv_client V) (svc_token s) x) s)))"
    using assms by (intro on_api_reads) (simp add: reads_only_def)
  with t have "reads_only (sv_api s1)" by simp
  with assms(2) t show ?thesis
    by (auto simp: svc_email_def rememberThread_def Let_def split: option.split sum.split)
qed

lemma rawEmail_reads:
  assumes "mv_client V = recording C" "reads_only (sv_api s)"
  shows "reads_only (sv_api (snd (rawEmail V x s)))"
proof -
  obtain r s1 where t: "on_api (cl_GetThread (mv_client V) (svc_token s) x) s = (r, s1)" by (metis prod.exhaust)
  have "reads_only (sv_api (snd (on_api (cl_GetThread (mv_client V) (svc_token s) x) s)))"
    using assms by (intro on_api_reads) (simp add: reads_only_def)
  with t show ?thesis by (auto simp: rawEmail_def split: option.split sum.split)
qed

lemma DownloadAttachments_reads:
  "reads_only a \<Longrightarrow> reads_only (snd (DownloadAttachments D (recording C) t email account a))"
  using download_each_reads [of a D C t "em_Id email"]
  by (auto simp: DownloadAttachments_def split: sum.split prod.split) (metis snd_conv)

lemma svc_ResolveAttachments_reads:
  assumes "mv_client V = recording C" "reads_only (sv_api s)"
  shows "reads_only (sv_api (snd (svc_ResolveAttachments V x literal s)))"
proof -
  obtain r s1 where r: "rawEmail V x s = (r, s1)" by (metis prod.exhaust)
  have s1: "reads_only (sv_api s1)" using rawEmail_reads [OF assms, of x] r by simp
  show ?thesis
  proof (cases r)
    case (Inl e)
    with r s1 show ?thesis by (simp add: svc_ResolveAttachments_def)
  next
    case (Inr email)
    obtain d errs s2 where d: "on_api (DownloadAttachments (mv_deps V) (mv_client V) (svc_token s1) email
        (decryptionAccount s1)) s1 = ((d, errs), s2)" by (metis prod.exhaust)
    have "reads_only (sv_api (snd (on_api (DownloadAttachments (mv_deps V) (mv_client V) (svc_token s1) email
        (decryptionAccount s1)) s1)))"
      using assms(1) s1 by (intro on_api_reads) (simp add: DownloadAttachments_reads)
    with d r s1 Inr show ?thesis
      by (auto simp: svc_ResolveAttachments_def split: sum.split option.split prod.split)
  qed
qed

text \<open>
  Showing mail never changes the account. Listing the folders, listing a folder, serving a message
  and completing it with its attachments only make calls that read.
\<close>

theorem serving_only_reads:
  assumes "mv_client V = recording C" "reads_only (sv_api s)"
  shows "reads_only (sv_api (snd (svc_ListMailboxes V s))) \<and>
    reads_only (sv_api (snd (svc_ListEmails V opts s))) \<and>
    (case svc_ListAllEmails V opts s of None \<Rightarrow> True | Some (r, s') \<Rightarrow> reads_only (sv_api s')) \<and>
    reads_only (sv_api (snd (svc_GetMessageLiteral V x s))) \<and>
    reads_only (sv_api (snd (svc_ResolveAttachments V x literal s)))"
proof (intro conjI)
  show "reads_only (sv_api (snd (svc_ListMailboxes V s)))"
    unfolding svc_ListMailboxes_def using assms
    by (intro on_api_reads) (simp add: ListMailboxes_def reads_only_def)
  show "reads_only (sv_api (snd (svc_ListEmails V opts s)))"
    unfolding svc_ListEmails_def using assms by (intro on_api_reads) (simp add: ListEmails_reads)
  show "case svc_ListAllEmails V opts s of None \<Rightarrow> True | Some (r, s') \<Rightarrow> reads_only (sv_api s')"
    using list_all_from_reads [OF _ assms(2)] assms(1)
    by (fastforce simp: svc_ListAllEmails_def ListAllEmails_def split: option.split)
  show "reads_only (sv_api (snd (svc_GetMessageLiteral V x s)))"
    using svc_email_reads [OF assms, of x]
    by (auto simp: svc_GetMessageLiteral_def split: prod.split sum.split)
  show "reads_only (sv_api (snd (svc_ResolveAttachments V x literal s)))"
    by (rule svc_ResolveAttachments_reads [OF assms])
qed

section \<open>Witnesses\<close>

definition toy_lib :: mail_lib where
  "toy_lib = \<lparr>ml_ReadMessage = (\<lambda>raw. Inr ([''Message-Id'' \<mapsto> [''<m1>'']], raw)), ml_DecodeHeader = Inr,
     ml_AddressList = (\<lambda>v. Inr [([], v)]), ml_ParseMediaType = (\<lambda>v. Inr (v, Map.empty)),
     ml_multipart = Abs_multipart_reader (\<lambda>body b. ([], None)), ml_quotedprintable = Inr, ml_base64 = Inr,
     ml_unicode = ascii_unicode\<rparr>"

definition thread_client :: "unit client" where
  "thread_client = kind_client\<lparr>cl_GetThread := (\<lambda>t x s. (Inr
     [zero_email\<lparr>em_Id := ''1'', em_ReceivedAt := ''d''\<rparr>, zero_email\<lparr>em_Id := ''2'', em_ReceivedAt := ''d''\<rparr>], s))\<rparr>"

definition toy_account :: MailAccount where
  "toy_account = \<lparr>mac_Token = ''t'', mac_Address = ''a'', mac_PrivateKey = [], mac_PublicKey = []\<rparr>"

definition toy_mail :: "'s client \<Rightarrow> 's mail_env" where
  "toy_mail C = \<lparr>mv_deps = toy_deps, mv_client = C, mv_mime = toy_mime, mv_lib = toy_lib,
     mv_rand = (\<lambda>k. toy_rand), mv_serverPublicKey = []\<rparr>"


theorem serving_only_reads_witness:
  "reads_only (sv_api (snd (svc_GetMessageLiteral (toy_mail (recording thread_client)) ''1'' (svc_New ((), []) toy_account)))) \<and>
   snd (sv_api (snd (svc_GetMessageLiteral (toy_mail (recording thread_client)) ''1'' (svc_New ((), []) toy_account)))) =
     [CallThread ''t'' ''1'']"
proof
  have "mv_client (toy_mail (recording thread_client)) = recording thread_client"
    "reads_only (sv_api (svc_New ((), []) toy_account))"
    by (simp_all add: toy_mail_def svc_New_def reads_only_def)
  from serving_only_reads [OF this, where x = "''1''"]
  show "reads_only (sv_api (snd (svc_GetMessageLiteral (toy_mail (recording thread_client)) ''1''
      (svc_New ((), []) toy_account))))" by blast
  show "snd (sv_api (snd (svc_GetMessageLiteral (toy_mail (recording thread_client)) ''1'' (svc_New ((), []) toy_account)))) =
     [CallThread ''t'' ''1'']"
    by (simp add: svc_GetMessageLiteral_def svc_email_def rememberedEmail_def svc_New_def on_api_def toy_mail_def
        logged_def thread_client_def Let_def rememberThread_def svc_token_def toy_account_def
        split: prod.split sum.split)
qed

end
