(* ===== verification/AttachmentStore.thy ===== *)
theory AttachmentStore
  imports MailService
begin

text \<open>
  \<open>internal/imapserver/attachmentstore\<close>: the store Gluon keeps messages in, wrapped so that a message
  is completed with its attachments the first time a client asks for its body. The wrapped store, the
  header functions of Gluon's \<open>rfc822\<close> and the resolver (the mail service) are parameters with states
  of their own; what the wrapper adds is the set of messages it need not complete any more.
\<close>

section \<open>What is wrapped\<close>

text \<open>\<open>store.Store\<close> of Gluon. The reader given to \<open>Set\<close> is the bytes it holds.\<close>

record 's message_store =
  gs_Get :: "string \<Rightarrow> ('s, bytes) op"
  gs_Set :: "string \<Rightarrow> bytes \<Rightarrow> ('s, unit) op"
  gs_Delete :: "string list \<Rightarrow> ('s, unit) op"
  gs_List :: "('s, string list) op"
  gs_Close :: "('s, unit) op"

record 's store_builder =
  sb_New :: "string \<Rightarrow> string \<Rightarrow> bytes \<Rightarrow> err + 's"
  sb_Delete :: "string \<Rightarrow> string \<Rightarrow> err + unit"

record ('s, 'r) attachment_env =
  av_inner :: "'s message_store"
  av_builder :: "'s store_builder"
  av_GetHeaderValue :: "bytes \<Rightarrow> string \<Rightarrow> err + string"
  av_SetHeaderValue :: "bytes \<Rightarrow> string \<Rightarrow> string \<Rightarrow> err + bytes"
  av_ResolveAttachments :: "string \<Rightarrow> bytes \<Rightarrow> ('r, bytes) op"

record ('s, 'r) attachment_store =
  as_inner :: 's
  as_resolver :: 'r
  as_resolved :: "string \<Rightarrow> bool"

definition messageIDHeader :: string where "messageIDHeader = ''Message-ID''"
definition internalIDKey :: string where "internalIDKey = ''X-Pm-Gluon-Id''"

definition builder_New :: "('s, 'r) attachment_env \<Rightarrow> string \<Rightarrow> string \<Rightarrow> bytes \<Rightarrow> 'r \<Rightarrow>
    err + ('s, 'r) attachment_store" where
  "builder_New A dir userID passphrase resolver =
     bind_err (sb_New (av_builder A) dir userID passphrase)
       (\<lambda>inner. Inr \<lparr>as_inner = inner, as_resolver = resolver, as_resolved = (\<lambda>_. False)\<rparr>)"

definition builder_Delete :: "('s, 'r) attachment_env \<Rightarrow> string \<Rightarrow> string \<Rightarrow> err + unit" where
  "builder_Delete A dir userID = sb_Delete (av_builder A) dir userID"

section \<open>The wrapper\<close>

definition on_inner :: "('s \<Rightarrow> 'x \<times> 's) \<Rightarrow> ('s, 'r) attachment_store \<Rightarrow> 'x \<times> ('s, 'r) attachment_store" where
  "on_inner f s = (case f (as_inner s) of (x, inner) \<Rightarrow> (x, s\<lparr>as_inner := inner\<rparr>))"

definition on_resolver :: "('r \<Rightarrow> 'x \<times> 'r) \<Rightarrow> ('s, 'r) attachment_store \<Rightarrow> 'x \<times> ('s, 'r) attachment_store" where
  "on_resolver f s = (case f (as_resolver s) of (x, resolver) \<Rightarrow> (x, s\<lparr>as_resolver := resolver\<rparr>))"

definition isResolved :: "('s, 'r) attachment_store \<Rightarrow> string \<Rightarrow> bool" where
  "isResolved s ident = as_resolved s ident"

definition markResolved :: "string \<Rightarrow> ('s, 'r) attachment_store \<Rightarrow> ('s, 'r) attachment_store" where
  "markResolved ident s = s\<lparr>as_resolved := (as_resolved s)(ident := True)\<rparr>"

definition forget :: "string \<Rightarrow> ('s, 'r) attachment_store \<Rightarrow> ('s, 'r) attachment_store" where
  "forget ident s = s\<lparr>as_resolved := (as_resolved s)(ident := False)\<rparr>"

definition emailIDOf :: "('s, 'r) attachment_env \<Rightarrow> bytes \<Rightarrow> string option" where
  "emailIDOf A literal =
     (case av_GetHeaderValue A literal messageIDHeader of
       Inl _ \<Rightarrow> None
     | Inr v \<Rightarrow> if v = [] then None else EmailIDFromMessageID v)"

definition carryInternalID :: "('s, 'r) attachment_env \<Rightarrow> bytes \<Rightarrow> bytes \<Rightarrow> err + bytes" where
  "carryInternalID A stored rebuilt =
     (case av_GetHeaderValue A stored internalIDKey of
       Inl _ \<Rightarrow> Inr rebuilt
     | Inr internalID \<Rightarrow>
         if internalID = [] then Inr rebuilt else av_SetHeaderValue A rebuilt internalIDKey internalID)"

text \<open>
  \<open>Get\<close> holds no lock from its start to its end: it takes the mutex for each look at \<open>resolved\<close>, and
  calls the wrapped store and the resolver between. Where a call stands, and one step of it, which is one
  such call or critical section with what is computed after it.
\<close>

datatype get_phase =
    Reading
  | Checking bytes
  | Unnamed bytes
  | Resolving bytes string
  | Saving bytes
  | Marking bytes
  | Answered "err + bytes"

fun get_step :: "('s, 'r) attachment_env \<Rightarrow> string \<Rightarrow> get_phase \<times> ('s, 'r) attachment_store \<Rightarrow>
    get_phase \<times> ('s, 'r) attachment_store" where
  "get_step A ident (Reading, s) =
     (case on_inner (gs_Get (av_inner A) ident) s of
       (Inl e, s) \<Rightarrow> (Answered (Inl e), s)
     | (Inr literal, s) \<Rightarrow> (Checking literal, s))"
| "get_step A ident (Checking literal, s) =
     (if isResolved s ident then (Answered (Inr literal), s)
      else case emailIDOf A literal of
          None \<Rightarrow> (Unnamed literal, s)
        | Some emailID \<Rightarrow> (Resolving literal emailID, s))"
| "get_step A ident (Unnamed literal, s) = (Answered (Inr literal), markResolved ident s)"
| "get_step A ident (Resolving literal emailID, s) =
     (case on_resolver (av_ResolveAttachments A emailID literal) s of
       (Inl _, s) \<Rightarrow> (Answered (Inr literal), s)
     | (Inr rebuilt, s) \<Rightarrow>
         (case carryInternalID A literal rebuilt of
           Inl _ \<Rightarrow> (Answered (Inr literal), s)
         | Inr completed \<Rightarrow> (Saving completed, s)))"
| "get_step A ident (Saving completed, s) =
     (case on_inner (gs_Set (av_inner A) ident completed) s of (_, s) \<Rightarrow> (Marking completed, s))"
| "get_step A ident (Marking completed, s) = (Answered (Inr completed), markResolved ident s)"
| "get_step A ident (Answered r, s) = (Answered r, s)"

text \<open>
  A whole call with no other call between its steps: five of them are always enough. The lemma gives
  what it does in the order of the code.
\<close>

fun get_answer :: "get_phase \<times> 's \<Rightarrow> (err + bytes) \<times> 's" where
  "get_answer (Answered r, s) = (r, s)"
| "get_answer (p, s) = (Inl (ErrNew ''not answered''), s)"

definition store_Get_message :: "('s, 'r) attachment_env \<Rightarrow> string \<Rightarrow> (('s, 'r) attachment_store, bytes) op" where
  "store_Get_message A ident s = get_answer ((get_step A ident ^^ 5) (Reading, s))"

lemma store_Get_message_eq:
  "store_Get_message A ident s =
     bind_st (on_inner (gs_Get (av_inner A) ident) s) (\<lambda>literal s.
       if isResolved s ident then (Inr literal, s)
       else case emailIDOf A literal of
           None \<Rightarrow> (Inr literal, markResolved ident s)
         | Some emailID \<Rightarrow>
             (case on_resolver (av_ResolveAttachments A emailID literal) s of
               (Inl _, s) \<Rightarrow> (Inr literal, s)
             | (Inr rebuilt, s) \<Rightarrow>
                 (case carryInternalID A literal rebuilt of
                   Inl _ \<Rightarrow> (Inr literal, s)
                 | Inr completed \<Rightarrow>
                     (case on_inner (gs_Set (av_inner A) ident completed) s of
                       (_, s) \<Rightarrow> (Inr completed, markResolved ident s)))))"
  by (simp add: store_Get_message_def numeral_eq_Suc funpow_swap1 split: sum.split prod.split option.split)

definition store_Set_message :: "('s, 'r) attachment_env \<Rightarrow> string \<Rightarrow> bytes \<Rightarrow> (('s, 'r) attachment_store, unit) op" where
  "store_Set_message A ident b s = on_inner (gs_Set (av_inner A) ident b) (forget ident s)"

definition store_Delete_messages :: "('s, 'r) attachment_env \<Rightarrow> string list \<Rightarrow> (('s, 'r) attachment_store, unit) op" where
  "store_Delete_messages A ids s = on_inner (gs_Delete (av_inner A) ids) (fold forget ids s)"

definition store_Close :: "('s, 'r) attachment_env \<Rightarrow> (('s, 'r) attachment_store, unit) op" where
  "store_Close A s = on_inner (gs_Close (av_inner A)) s"

definition store_List :: "('s, 'r) attachment_env \<Rightarrow> (('s, 'r) attachment_store, string list) op" where
  "store_List A s = on_inner (gs_List (av_inner A)) s"

section \<open>The mail service as the resolver\<close>

definition service_attachments :: "'m mail_env \<Rightarrow> 's message_store \<Rightarrow> 's store_builder \<Rightarrow>
    (bytes \<Rightarrow> string \<Rightarrow> err + string) \<Rightarrow> (bytes \<Rightarrow> string \<Rightarrow> string \<Rightarrow> err + bytes) \<Rightarrow>
    ('s, 'm service_state) attachment_env" where
  "service_attachments V inner builder get_header set_header =
     \<lparr>av_inner = inner, av_builder = builder, av_GetHeaderValue = get_header, av_SetHeaderValue = set_header,
      av_ResolveAttachments = svc_ResolveAttachments V\<rparr>"

section \<open>What it keeps\<close>

text \<open>Reading the wrapped store changes nothing, and a \<open>Set\<close> that succeeds stores.\<close>

definition keeps_messages :: "'s message_store \<Rightarrow> bool" where
  "keeps_messages M \<longleftrightarrow>
     (\<forall>i s. snd (gs_Get M i s) = s) \<and>
     (\<forall>i b s s'. gs_Set M i b s = (Inr (), s') \<longrightarrow>
        fst (gs_Get M i s') = Inr b \<and> (\<forall>j. j \<noteq> i \<longrightarrow> fst (gs_Get M j s') = fst (gs_Get M j s)))"

lemma keeps_messagesD:
  assumes "keeps_messages M"
  shows "gs_Get M i s = (fst (gs_Get M i s), s)"
    and "gs_Set M i b s = (Inr (), s') \<Longrightarrow> fst (gs_Get M i s') = Inr b"
proof -
  have "snd (gs_Get M i s) = s" using assms unfolding keeps_messages_def by blast
  then show "gs_Get M i s = (fst (gs_Get M i s), s)" by (metis prod.collapse)
qed (use assms in \<open>unfold keeps_messages_def, blast+\<close>)

text \<open>A completed message is served as the wrapped store has it, and nobody else is asked.\<close>

lemma Get_resolved:
  assumes "isResolved s i"
  shows "store_Get_message A i s = on_inner (gs_Get (av_inner A) i) s"
proof -
  obtain r inner where "gs_Get (av_inner A) i (as_inner s) = (r, inner)"
    by (cases "gs_Get (av_inner A) i (as_inner s)")
  with assms show ?thesis by (cases r) (simp_all add: store_Get_message_eq on_inner_def isResolved_def)
qed

text \<open>
  A message that is not completed yet: what the first \<open>Get\<close> returns, and what it leaves behind.
\<close>

lemma Get_completes:
  assumes "\<not> isResolved s i"
    and "gs_Get (av_inner A) i (as_inner s) = (Inr literal, inner)" and "emailIDOf A literal = Some email"
    and "av_ResolveAttachments A email literal (as_resolver s) = (Inr rebuilt, r')"
    and "carryInternalID A literal rebuilt = Inr completed"
    and "gs_Set (av_inner A) i completed inner = (saved, inner')"
  shows "store_Get_message A i s = (Inr completed,
    s\<lparr>as_inner := inner', as_resolver := r', as_resolved := (as_resolved s)(i := True)\<rparr>)"
  using assms
  by (simp add: store_Get_message_eq on_inner_def on_resolver_def isResolved_def markResolved_def)

text \<open>Whatever is done with the store, a completed message stays so unless it is stored anew or deleted.\<close>

datatype message_op =
    OpGet string
  | OpSet string bytes
  | OpDelete "string list"
  | OpList
  | OpClose

fun run_message_op :: "('s, 'r) attachment_env \<Rightarrow> message_op \<Rightarrow> ('s, 'r) attachment_store \<Rightarrow> ('s, 'r) attachment_store" where
  "run_message_op A (OpGet i) s = snd (store_Get_message A i s)"
| "run_message_op A (OpSet i b) s = snd (store_Set_message A i b s)"
| "run_message_op A (OpDelete ids) s = snd (store_Delete_messages A ids s)"
| "run_message_op A OpList s = snd (store_List A s)"
| "run_message_op A OpClose s = snd (store_Close A s)"

fun renews :: "string \<Rightarrow> message_op \<Rightarrow> bool" where
  "renews i (OpSet j b) = (j = i)"
| "renews i (OpDelete ids) = (i \<in> set ids)"
| "renews i x = False"

lemma on_parts_resolved [simp]:
  "as_resolved (snd (on_inner f s)) = as_resolved s" "as_resolved (snd (on_resolver g s)) = as_resolved s"
  by (simp_all add: on_inner_def on_resolver_def split: prod.split)

lemma get_step_resolved:
  "as_resolved s i \<Longrightarrow> as_resolved (snd (get_step A j (p, s))) i"
proof (cases p)
  case Reading
  then show "as_resolved s i \<Longrightarrow> ?thesis" by (simp add: on_inner_def split: prod.split sum.split)
next
  case (Resolving literal email)
  then show "as_resolved s i \<Longrightarrow> ?thesis" by (simp add: on_resolver_def split: prod.split sum.split)
next
  case (Saving completed)
  then show "as_resolved s i \<Longrightarrow> ?thesis" by (simp add: on_inner_def split: prod.split)
qed (auto simp: markResolved_def split: option.split)

lemma get_steps_resolved: "as_resolved s i \<Longrightarrow> as_resolved (snd ((get_step A j ^^ n) (p, s))) i"
proof (induction n)
  case (Suc n)
  then show ?case using get_step_resolved by (metis funpow.simps(2) comp_apply prod.collapse)
qed simp

lemma fold_forget: "as_resolved (fold forget ids s) i \<longleftrightarrow> as_resolved s i \<and> i \<notin> set ids"
  by (induction ids arbitrary: s) (auto simp: forget_def)

lemma run_message_op_resolved:
  assumes "isResolved s i" and "\<not> renews i x"
  shows "isResolved (run_message_op A x s) i"
proof (cases x)
  case (OpGet j)
  have "snd (get_answer q) = snd q" for q :: "get_phase \<times> ('a, 'b) attachment_store"
    by (cases q rule: get_answer.cases) auto
  with OpGet get_steps_resolved assms(1) show ?thesis
    by (metis run_message_op.simps(1) store_Get_message_def isResolved_def)
qed (use assms in \<open>simp_all add: isResolved_def store_Set_message_def store_Delete_messages_def store_List_def
       store_Close_def fold_forget, simp add: forget_def\<close>)

lemma run_message_ops_resolved:
  "isResolved s i \<Longrightarrow> list_all (\<lambda>x. \<not> renews i x) xs \<Longrightarrow> isResolved (fold (run_message_op A) xs s) i"
  by (induction xs arbitrary: s) (simp_all add: run_message_op_resolved)

section \<open>Attachments are fetched once\<close>


text \<open>
  C39: a completion that cannot be stored is not tried again. When the first read of a message completed it
  and the wrapped store refused the result, the read still answers with the completed message and reports
  no error, and the message counts as completed from then on: whatever else is done with the store, until that
  message is stored anew or deleted, a read of it is exactly the wrapped store's answer, and the mail service
  is not asked. A wrapped store that holds what it held before the refused \<open>Set\<close> so serves the message
  with its attachments empty, to every reader but the first. Nothing is assumed of the wrapped store.
\<close>

theorem unsaved_completion_is_lost:
  assumes "\<not> isResolved s i"
    and "gs_Get (av_inner A) i (as_inner s) = (Inr literal, inner)" and "emailIDOf A literal = Some email"
    and "av_ResolveAttachments A email literal (as_resolver s) = (Inr rebuilt, r')"
    and "carryInternalID A literal rebuilt = Inr completed"
    and "gs_Set (av_inner A) i completed inner = (Inl e, inner')"
  shows "\<exists>s'. store_Get_message A i s = (Inr completed, s') \<and> as_inner s' = inner' \<and> as_resolver s' = r'
    \<and> (\<forall>xs r. list_all (\<lambda>x. \<not> renews i x) xs \<longrightarrow>
         (let t = (fold (run_message_op A) xs s')\<lparr>as_resolver := r\<rparr>
          in isResolved t i \<and> store_Get_message A i t = on_inner (gs_Get (av_inner A) i) t))"
proof -
  let ?s' = "s\<lparr>as_inner := inner', as_resolver := r', as_resolved := (as_resolved s)(i := True)\<rparr>"
  have later: "isResolved ((fold (run_message_op A) xs ?s')\<lparr>as_resolver := r\<rparr>) i"
    if "list_all (\<lambda>x. \<not> renews i x) xs" for xs r
    using run_message_ops_resolved [OF _ that, of ?s' A] by (simp add: isResolved_def)
  show ?thesis
    unfolding Let_def
    by (intro exI [of _ ?s'] conjI allI impI Get_completes [OF assms] later Get_resolved) simp_all
qed

text \<open>A store in memory that may be full, headers kept before a colon, and a resolver that counts.\<close>

definition toy_messages :: "bool \<Rightarrow> (string \<Rightarrow> bytes) message_store" where
  "toy_messages full = \<lparr>gs_Get = (\<lambda>i m. (Inr (m i), m)),
     gs_Set = (\<lambda>i b m. if full then (Inl (ErrNew ''full''), m) else (Inr (), m(i := b))),
     gs_Delete = (\<lambda>ids m. (Inr (), m)), gs_List = (\<lambda>m. (Inr [], m)), gs_Close = (\<lambda>m. (Inr (), m))\<rparr>"

definition toy_attachments :: "bool \<Rightarrow> (string \<Rightarrow> bytes, nat) attachment_env" where
  "toy_attachments full = \<lparr>av_inner = toy_messages full,
     av_builder = \<lparr>sb_New = (\<lambda>dir user pass. Inr (\<lambda>_. [])), sb_Delete = (\<lambda>dir user. Inr ())\<rparr>,
     av_GetHeaderValue = (\<lambda>b k. if k = messageIDHeader then Inr ''<a@mail-bridge.internxt.local>'' else Inl (ErrNew ''none'')),
     av_SetHeaderValue = (\<lambda>b k v. Inr b),
     av_ResolveAttachments = (\<lambda>email b n. (Inr (b @ [1]), n + 1))\<rparr>"

definition toy_attached :: "(string \<Rightarrow> bytes, nat) attachment_store" where
  "toy_attached = \<lparr>as_inner = (\<lambda>_. [7]), as_resolver = 0, as_resolved = (\<lambda>_. False)\<rparr>"

lemma toy_keeps: "keeps_messages (av_inner (toy_attachments full))"
  by (simp add: keeps_messages_def toy_attachments_def toy_messages_def)

lemma toy_emailID: "emailIDOf (toy_attachments full) b = Some ''a''"
proof -
  have "EmailIDFromMessageID ''<a@mail-bridge.internxt.local>'' = Some ''a''" by code_simp
  then show ?thesis by (simp add: emailIDOf_def toy_attachments_def)
qed

lemma toy_attached_reads:
  "\<not> isResolved toy_attached ''m''"
  "fst (gs_Get (av_inner (toy_attachments full)) ''m'' (as_inner toy_attached)) = Inr [7]"
  "av_ResolveAttachments (toy_attachments full) ''a'' [7] (as_resolver toy_attached) = (Inr [7, 1], 1)"
  "carryInternalID (toy_attachments full) [7] [7, 1] = Inr [7, 1]"
  by (simp_all add: toy_attached_def toy_attachments_def toy_messages_def isResolved_def carryInternalID_def
      internalIDKey_def messageIDHeader_def)


text \<open>A full store in memory: the second reader, after a third message was stored or not, gets the empty one.\<close>

theorem unsaved_completion_is_lost_witness:
  "\<exists>s'. store_Get_message (toy_attachments True) ''m'' toy_attached = (Inr [7, 1], s') \<and>
     fst (store_Get_message (toy_attachments True) ''m''
       (fold (run_message_op (toy_attachments True)) [OpGet ''m'', OpSet ''n'' [8]] s')) = Inr [7]"
proof -
  have get: "gs_Get (av_inner (toy_attachments True)) ''m'' (as_inner toy_attached) = (Inr [7], as_inner toy_attached)"
    by (simp add: toy_attachments_def toy_messages_def toy_attached_def)
  have full: "gs_Set (av_inner (toy_attachments True)) i b inner = (Inl (ErrNew ''full''), inner)" for i b inner
    by (simp add: toy_attachments_def toy_messages_def)
  from unsaved_completion_is_lost [OF toy_attached_reads(1) get toy_emailID toy_attached_reads(3,4) full]
  obtain s' where s': "store_Get_message (toy_attachments True) ''m'' toy_attached = (Inr [7, 1], s')"
    "as_inner s' = as_inner toy_attached"
    and later: "\<And>xs r t. list_all (\<lambda>x. \<not> renews ''m'' x) xs \<Longrightarrow>
      t = (fold (run_message_op (toy_attachments True)) xs s')\<lparr>as_resolver := r\<rparr> \<Longrightarrow>
        store_Get_message (toy_attachments True) ''m'' t = on_inner (gs_Get (av_inner (toy_attachments True)) ''m'') t"
    by (auto simp: Let_def)
  have same: "t = t\<lparr>as_resolver := as_resolver t\<rparr>" for t :: "(string \<Rightarrow> bytes, nat) attachment_store" by simp
  have again: "store_Get_message (toy_attachments True) ''m'' t = on_inner (gs_Get (av_inner (toy_attachments True)) ''m'') t"
    if "t = fold (run_message_op (toy_attachments True)) xs s'" "list_all (\<lambda>x. \<not> renews ''m'' x) xs" for t xs
    using later [OF that(2), of t "as_resolver t"] that(1) same by metis
  have inner: "as_inner (fold (run_message_op (toy_attachments True)) [OpGet ''m'', OpSet ''n'' [8]] s') =
      as_inner toy_attached"
    using again [of s' "[]"] s'(2)
    by (simp add: store_Set_message_def on_inner_def toy_attachments_def toy_messages_def forget_def)
  show ?thesis
    using s'(1) again [of _ "[OpGet ''m'', OpSet ''n'' [8]]"] inner
    by (intro exI [of _ s']) (simp add: on_inner_def toy_attachments_def toy_messages_def toy_attached_def)
qed

end
