(* ===== verification/LocalSecrets.thy ===== *)
theory LocalSecrets
  imports StoreProps
begin

text \<open>
  What the bridge makes up once and keeps in its store: the passphrase of Gluon's cache
  (\<open>imapserver/credentials.go\<close>) and the certificate of the local servers (\<open>localtls\<close>). The X.509 and
  PEM functions of the standard library, the random source and the clock are parameters; times are in
  seconds. A nil store is \<open>None\<close>.
\<close>

definition KeyStoragePassphrase :: string where "KeyStoragePassphrase = ''storagePassphrase''"
definition KeyTLSCertificate :: string where "KeyTLSCertificate = ''tlsCertificate''"
definition KeyTLSPrivateKey :: string where "KeyTLSPrivateKey = ''tlsPrivateKey''"

definition storagePassphraseBytes :: nat where "storagePassphraseBytes = 32"

section \<open>The passphrase\<close>

definition randomBytes :: "(nat \<Rightarrow> err + bytes) \<Rightarrow> nat \<Rightarrow> err + bytes" where
  "randomBytes rd n = rd n"

text \<open>An operation that needs a store.\<close>

definition on_store :: "string \<Rightarrow> ('s, 'a) op \<Rightarrow> ('s option, 'a) op" where
  "on_store m f credentials =
     (case credentials of
       None \<Rightarrow> (Inl (ErrNew m), None)
     | Some s \<Rightarrow> (case f s of (r, s) \<Rightarrow> (r, Some s)))"

definition ensure_passphrase :: "index_codec \<Rightarrow> 's backend \<Rightarrow> (nat \<Rightarrow> err + bytes) \<Rightarrow> ('s, bytes) op" where
  "ensure_passphrase J B rd s =
     (case store_Get B KeyStoragePassphrase s of
       (Inr passphrase, s) \<Rightarrow> (Inr passphrase, s)
     | (Inl e, s) \<Rightarrow>
         if \<not> errors_is e StoreErrNotFound then (Inl (ErrWrap ''imapserver: read storage passphrase'' e), s)
         else case randomBytes rd storagePassphraseBytes of
             Inl e \<Rightarrow> (Inl (ErrWrap ''imapserver: generate storage passphrase'' e), s)
           | Inr generated \<Rightarrow>
               bind_st (wrap_st ''imapserver: store storage passphrase''
                   (store_Set J B KeyStoragePassphrase generated s))
                 (\<lambda>_ s. (Inr generated, s)))"

definition EnsureStoragePassphrase :: "index_codec \<Rightarrow> 's backend \<Rightarrow> (nat \<Rightarrow> err + bytes) \<Rightarrow> ('s option, bytes) op" where
  "EnsureStoragePassphrase J B rd = on_store ''imapserver: credential store is required'' (ensure_passphrase J B rd)"

section \<open>The certificate\<close>

definition hour :: int where "hour = 3600"
definition validity :: int where "validity = 730 * 24 * hour"
definition renewBefore :: int where "renewBefore = 30 * 24 * hour"
definition keyBits :: nat where "keyBits = 2048"
definition commonName :: string where "commonName = ''Internxt Mail Bridge''"

record x509_template =
  tp_SerialNumber :: nat
  tp_CommonName :: string
  tp_Organization :: "string list"
  tp_NotBefore :: int
  tp_NotAfter :: int
  tp_DNSNames :: "string list"
  tp_IPAddresses :: "string list"
  tp_DigitalSignature :: bool
  tp_KeyEncipherment :: bool
  tp_CertSign :: bool
  tp_ServerAuth :: bool
  tp_BasicConstraintsValid :: bool
  tp_IsCA :: bool

text \<open>\<open>tls.Certificate\<close>: the chain in DER form and the key that goes with it.\<close>

record tls_certificate =
  tc_Certificate :: "bytes list"
  tc_PrivateKey :: bytes

record tls_Config =
  tg_Certificates :: "tls_certificate list"
  tg_MinVersion :: nat

definition VersionTLS12 :: nat where "VersionTLS12 = 0x0303"

record 'k tls_lib =
  tl_GenerateKey :: "nat \<Rightarrow> err + 'k"
  tl_RandInt :: "nat \<Rightarrow> err + nat"
  tl_CreateCertificate :: "x509_template \<Rightarrow> 'k \<Rightarrow> err + bytes"
  tl_MarshalPKCS8 :: "'k \<Rightarrow> err + bytes"
  tl_EncodePEM :: "string \<Rightarrow> bytes \<Rightarrow> bytes"
  tl_X509KeyPair :: "bytes \<Rightarrow> bytes \<Rightarrow> err + tls_certificate"
  tl_ParseCertificate :: "bytes \<Rightarrow> err + int \<times> int"

text \<open>\<open>now.After(NotBefore) && now.Add(renewBefore).Before(NotAfter)\<close>.\<close>

definition usable :: "'k tls_lib \<Rightarrow> int \<Rightarrow> tls_certificate \<Rightarrow> bool" where
  "usable L now certificate =
     (case tl_ParseCertificate L (tc_Certificate certificate ! 0) of
       Inl _ \<Rightarrow> False
     | Inr (notBefore, notAfter) \<Rightarrow> now > notBefore \<and> now + renewBefore < notAfter)"

definition load_certificate :: "'k tls_lib \<Rightarrow> 's backend \<Rightarrow> int \<Rightarrow> ('s, tls_certificate option) op" where
  "load_certificate L B now s =
     (case store_Get B KeyTLSCertificate s of
       (Inl e, s) \<Rightarrow>
         if errors_is e StoreErrNotFound then (Inr None, s) else (Inl (ErrWrap ''localtls: read certificate'' e), s)
     | (Inr certPEM, s) \<Rightarrow>
         (case store_Get B KeyTLSPrivateKey s of
           (Inl e, s) \<Rightarrow>
             if errors_is e StoreErrNotFound then (Inr None, s) else (Inl (ErrWrap ''localtls: read private key'' e), s)
         | (Inr keyPEM, s) \<Rightarrow>
             (case tl_X509KeyPair L certPEM keyPEM of
               Inl _ \<Rightarrow> (Inr None, s)
             | Inr certificate \<Rightarrow> (Inr (if usable L now certificate then Some certificate else None), s))))"

definition certificate_template :: "int \<Rightarrow> nat \<Rightarrow> x509_template" where
  "certificate_template now serial =
     \<lparr>tp_SerialNumber = serial, tp_CommonName = commonName, tp_Organization = [''Internxt''],
      tp_NotBefore = now - hour, tp_NotAfter = now + validity,
      tp_DNSNames = [''localhost''], tp_IPAddresses = [''127.0.0.1'', ''::1''],
      tp_DigitalSignature = True, tp_KeyEncipherment = True, tp_CertSign = True, tp_ServerAuth = True,
      tp_BasicConstraintsValid = True, tp_IsCA = True\<rparr>"

text \<open>
  The part of \<open>generate\<close> before anything is stored: the certificate and the key in PEM form. The serial
  number is drawn below \<open>2 ^ 128\<close>.
\<close>

definition make_certificate :: "'k tls_lib \<Rightarrow> int \<Rightarrow> err + bytes \<times> bytes" where
  "make_certificate L now =
     bind_err (wrap_err ''localtls: generate private key'' (tl_GenerateKey L keyBits)) (\<lambda>key.
     bind_err (wrap_err ''localtls: generate serial number'' (tl_RandInt L (2 ^ 128))) (\<lambda>serial.
     bind_err (wrap_err ''localtls: create certificate'' (tl_CreateCertificate L (certificate_template now serial) key)) (\<lambda>der.
     bind_err (wrap_err ''localtls: encode private key'' (tl_MarshalPKCS8 L key)) (\<lambda>encodedKey.
     Inr (tl_EncodePEM L ''CERTIFICATE'' der, tl_EncodePEM L ''PRIVATE KEY'' encodedKey)))))"

definition generate_certificate :: "'k tls_lib \<Rightarrow> index_codec \<Rightarrow> 's backend \<Rightarrow> int \<Rightarrow> ('s, tls_certificate) op" where
  "generate_certificate L J B now s =
     (case make_certificate L now of
       Inl e \<Rightarrow> (Inl e, s)
     | Inr (certPEM, keyPEM) \<Rightarrow>
         bind_st (wrap_st ''localtls: store certificate'' (store_Set J B KeyTLSCertificate certPEM s)) (\<lambda>_ s.
         bind_st (wrap_st ''localtls: store private key'' (store_Set J B KeyTLSPrivateKey keyPEM s)) (\<lambda>_ s.
         (wrap_err ''localtls: load the certificate just created'' (tl_X509KeyPair L certPEM keyPEM), s))))"

text \<open>\<open>now\<close> is the time \<open>load\<close> looks at the clock, \<open>later\<close> the time \<open>generate\<close> does.\<close>

definition ensure_certificate :: "'k tls_lib \<Rightarrow> index_codec \<Rightarrow> 's backend \<Rightarrow> int \<Rightarrow> int \<Rightarrow> ('s, tls_Config \<times> bytes) op" where
  "ensure_certificate L J B now later s =
     bind_st (load_certificate L B now s) (\<lambda>found s.
     bind_st (case found of Some certificate \<Rightarrow> (Inr certificate, s) | None \<Rightarrow> generate_certificate L J B later s)
       (\<lambda>certificate s.
         (Inr (\<lparr>tg_Certificates = [certificate], tg_MinVersion = VersionTLS12\<rparr>, tc_Certificate certificate ! 0), s)))"

definition Ensure :: "'k tls_lib \<Rightarrow> index_codec \<Rightarrow> 's backend \<Rightarrow> int \<Rightarrow> int \<Rightarrow> ('s option, tls_Config \<times> bytes) op" where
  "Ensure L J B now later =
     on_store ''localtls: credential store is required'' (ensure_certificate L J B now later)"

section \<open>Both survive a restart\<close>

text \<open>What the X.509 functions are documented to do with a certificate just made.\<close>

definition tls_lib_ok :: "'k tls_lib \<Rightarrow> bool" where
  "tls_lib_ok L \<longleftrightarrow>
     (\<forall>t k der encoded. tl_CreateCertificate L t k = Inr der \<longrightarrow> tl_MarshalPKCS8 L k = Inr encoded \<longrightarrow>
        tl_ParseCertificate L der = Inr (tp_NotBefore t, tp_NotAfter t) \<and>
        tl_X509KeyPair L (tl_EncodePEM L ''CERTIFICATE'' der) (tl_EncodePEM L ''PRIVATE KEY'' encoded) =
          Inr \<lparr>tc_Certificate = [der], tc_PrivateKey = encoded\<rparr>)"

lemma make_certificate_loads:
  assumes "tls_lib_ok L" and "make_certificate L now = Inr (certPEM, keyPEM)"
  obtains der encoded where
    "tl_X509KeyPair L certPEM keyPEM = Inr \<lparr>tc_Certificate = [der], tc_PrivateKey = encoded\<rparr>"
    "tl_ParseCertificate L der = Inr (now - hour, now + validity)"
proof -
  obtain key serial der encoded where parts:
    "tl_CreateCertificate L (certificate_template now serial) key = Inr der" "tl_MarshalPKCS8 L key = Inr encoded"
    "certPEM = tl_EncodePEM L ''CERTIFICATE'' der" "keyPEM = tl_EncodePEM L ''PRIVATE KEY'' encoded"
    using assms(2) unfolding make_certificate_def bind_err_Inr_iff wrap_err_Inr_iff sum.inject prod.inject by metis
  have "tl_ParseCertificate L der = Inr (now - hour, now + validity)"
    "tl_X509KeyPair L (tl_EncodePEM L ''CERTIFICATE'' der) (tl_EncodePEM L ''PRIVATE KEY'' encoded) =
      Inr \<lparr>tc_Certificate = [der], tc_PrivateKey = encoded\<rparr>"
    using assms(1) [unfolded tls_lib_ok_def, rule_format, OF parts(1,2)] by (simp_all add: certificate_template_def)
  then show ?thesis using that parts(3,4) by simp
qed

context indexed_store
begin

lemma found_or_not:
  assumes "good s" "key_ok k"
  obtains v s' where "content s k = Some v" "store_Get B k s = (Inr v, s')" "good s'" "content s' = content s"
  | e s' where "content s k = None" "store_Get B k s = (Inl e, s')" "errors_is e StoreErrNotFound" "good s'"
      "content s' = content s"
  using store_Get_reads [OF assms] by (auto split: option.splits)

lemma holds_index_same: "content s' = content s \<Longrightarrow> holds_index s' ks = holds_index s ks"
  by (simp add: holds_index_def)

lemma ensure_passphrase_keeps:
  assumes s: "good s" "holds_index s ks" and k: "key_ok KeyStoragePassphrase" "val_ok new"
    and rd: "rd storagePassphraseBytes = Inr new"
  shows "\<exists>p s' ks'. ensure_passphrase J B rd s = (Inr p, s') \<and> good s' \<and> holds_index s' ks' \<and>
    p = (case content s KeyStoragePassphrase of Some v \<Rightarrow> v | None \<Rightarrow> new) \<and>
    (\<forall>k. k \<noteq> indexKey \<longrightarrow> content s' k = ((content s)(KeyStoragePassphrase \<mapsto> p)) k)"
proof (rule found_or_not [OF s(1) k(1)])
  fix v s' assume g: "content s KeyStoragePassphrase = Some v" "store_Get B KeyStoragePassphrase s = (Inr v, s')"
    "good s'" "content s' = content s"
  have "holds_index s' ks" using s(2) holds_index_same [OF g(4)] by simp
  then show ?thesis using g
    by (intro exI [of _ v] exI [of _ s'] exI [of _ ks]) (simp add: ensure_passphrase_def)
next
  fix e s1 assume g: "content s KeyStoragePassphrase = None" "store_Get B KeyStoragePassphrase s = (Inl e, s1)"
    "errors_is e StoreErrNotFound" "good s1" "content s1 = content s"
  have "holds_index s1 ks" using s(2) holds_index_same [OF g(5)] by simp
  moreover have "KeyStoragePassphrase \<noteq> []" "KeyStoragePassphrase \<noteq> indexKey"
    by (simp_all add: KeyStoragePassphrase_def indexKey_def)
  ultimately obtain s' ks' where "store_Set J B KeyStoragePassphrase new s1 = (Inr (), s')" "good s'" "holds_index s' ks'"
    "\<forall>k'. k' \<noteq> indexKey \<longrightarrow> content s' k' = ((content s1)(KeyStoragePassphrase \<mapsto> new)) k'"
    using store_Set_stores [OF g(4) _ k(1) _ _ k(2)] by blast
  then show ?thesis using g rd
    by (intro exI [of _ new] exI [of _ s'] exI [of _ ks']) (simp add: ensure_passphrase_def randomBytes_def)
qed

lemma load_certificate_found:
  assumes s: "good s" "key_ok KeyTLSCertificate" "key_ok KeyTLSPrivateKey"
    and found: "content s KeyTLSCertificate = Some certPEM" "content s KeyTLSPrivateKey = Some keyPEM"
    and pair: "tl_X509KeyPair L certPEM keyPEM = Inr certificate"
  shows "\<exists>s'. load_certificate L B now s = (Inr (if usable L now certificate then Some certificate else None), s')
    \<and> good s' \<and> content s' = content s"
proof -
  obtain s1 where s1: "store_Get B KeyTLSCertificate s = (Inr certPEM, s1)" "good s1" "content s1 = content s"
    using found_or_not [OF s(1,2)] found(1) by (metis option.distinct(1) option.inject)
  moreover obtain s2 where "store_Get B KeyTLSPrivateKey s1 = (Inr keyPEM, s2)" "good s2" "content s2 = content s1"
    using found_or_not [OF s1(2) s(3)] found(2) s1(3) by (metis option.distinct(1) option.inject)
  ultimately show ?thesis using pair by (simp add: load_certificate_def)
qed

lemma load_certificate_absent:
  assumes "good s" "key_ok KeyTLSCertificate" "content s KeyTLSCertificate = None"
  shows "\<exists>s'. load_certificate L B now s = (Inr None, s') \<and> good s' \<and> content s' = content s"
  using found_or_not [OF assms(1,2)] assms(3) by (force simp: load_certificate_def)

lemma generate_certificate_stores:
  assumes s: "good s" "holds_index s ks" and k: "key_ok KeyTLSCertificate" "key_ok KeyTLSPrivateKey"
    and made: "make_certificate L now = Inr (certPEM, keyPEM)" "val_ok certPEM" "val_ok keyPEM"
    and pair: "tl_X509KeyPair L certPEM keyPEM = Inr certificate"
  shows "\<exists>s' ks'. generate_certificate L J B now s = (Inr certificate, s') \<and> good s' \<and> holds_index s' ks' \<and>
    (\<forall>k. k \<noteq> indexKey \<longrightarrow>
       content s' k = ((content s)(KeyTLSCertificate \<mapsto> certPEM, KeyTLSPrivateKey \<mapsto> keyPEM)) k)"
proof -
  have names: "KeyTLSCertificate \<noteq> []" "KeyTLSCertificate \<noteq> indexKey" "KeyTLSPrivateKey \<noteq> []"
    "KeyTLSPrivateKey \<noteq> indexKey"
    by (simp_all add: KeyTLSCertificate_def KeyTLSPrivateKey_def indexKey_def)
  obtain s1 ks1 where s1: "store_Set J B KeyTLSCertificate certPEM s = (Inr (), s1)" "good s1" "holds_index s1 ks1"
    "\<forall>k'. k' \<noteq> indexKey \<longrightarrow> content s1 k' = ((content s)(KeyTLSCertificate \<mapsto> certPEM)) k'"
    using store_Set_stores [OF s k(1) names(1,2) made(2)] by blast
  obtain s2 ks2 where s2: "store_Set J B KeyTLSPrivateKey keyPEM s1 = (Inr (), s2)" "good s2" "holds_index s2 ks2"
    "\<forall>k'. k' \<noteq> indexKey \<longrightarrow> content s2 k' = ((content s1)(KeyTLSPrivateKey \<mapsto> keyPEM)) k'"
    using store_Set_stores [OF s1(2,3) k(2) names(3,4) made(3)] by blast
  have "content s2 k = ((content s)(KeyTLSCertificate \<mapsto> certPEM, KeyTLSPrivateKey \<mapsto> keyPEM)) k" if "k \<noteq> indexKey" for k
    using s1(4) s2(4) that by simp
  then show ?thesis using s1 s2 made(1) pair
    by (intro exI [of _ s2] exI [of _ ks2]) (simp add: generate_certificate_def)
qed

lemma ensure_certificate_makes:
  assumes L: "tls_lib_ok L" and s: "good s" "holds_index s ks"
    and k: "key_ok KeyTLSCertificate" "key_ok KeyTLSPrivateKey"
    and made: "make_certificate L later = Inr (certPEM, keyPEM)" "val_ok certPEM" "val_ok keyPEM"
    and none: "\<exists>s'. load_certificate L B now s = (Inr None, s') \<and> good s' \<and> content s' = content s"
  shows "\<exists>certificate s' ks'. ensure_certificate L J B now later s =
      (Inr (\<lparr>tg_Certificates = [certificate], tg_MinVersion = VersionTLS12\<rparr>, tc_Certificate certificate ! 0), s') \<and>
    tl_X509KeyPair L certPEM keyPEM = Inr certificate \<and>
    (\<forall>t. usable L t certificate \<longleftrightarrow> later - hour < t \<and> t + renewBefore < later + validity) \<and>
    good s' \<and> holds_index s' ks' \<and>
    (\<forall>k. k \<noteq> indexKey \<longrightarrow>
       content s' k = ((content s)(KeyTLSCertificate \<mapsto> certPEM, KeyTLSPrivateKey \<mapsto> keyPEM)) k)"
proof -
  obtain der encoded where pair: "tl_X509KeyPair L certPEM keyPEM = Inr \<lparr>tc_Certificate = [der], tc_PrivateKey = encoded\<rparr>"
    and dates: "tl_ParseCertificate L der = Inr (later - hour, later + validity)"
    using make_certificate_loads [OF L made(1)] .
  let ?c = "\<lparr>tc_Certificate = [der], tc_PrivateKey = encoded\<rparr>"
  obtain s1 where s1: "load_certificate L B now s = (Inr None, s1)" "good s1" "content s1 = content s"
    using none by blast
  have "holds_index s1 ks" using s(2) holds_index_same [OF s1(3)] by simp
  from generate_certificate_stores [OF s1(2) this k made pair] obtain s' ks' where
    g: "generate_certificate L J B later s1 = (Inr ?c, s')" "good s'" "holds_index s' ks'"
      "\<forall>k. k \<noteq> indexKey \<longrightarrow> content s' k = ((content s1)(KeyTLSCertificate \<mapsto> certPEM, KeyTLSPrivateKey \<mapsto> keyPEM)) k"
    by blast
  have "usable L t ?c \<longleftrightarrow> later - hour < t \<and> t + renewBefore < later + validity" for t
    by (simp add: usable_def dates)
  then show ?thesis using s1 g pair
    by (intro exI [of _ ?c] exI [of _ s'] exI [of _ ks']) (simp add: ensure_certificate_def)
qed

lemma ensure_certificate_keeps:
  assumes s: "good s" and k: "key_ok KeyTLSCertificate" "key_ok KeyTLSPrivateKey"
    and found: "content s KeyTLSCertificate = Some certPEM" "content s KeyTLSPrivateKey = Some keyPEM"
    and pair: "tl_X509KeyPair L certPEM keyPEM = Inr certificate" "usable L now certificate"
  shows "\<exists>s'. ensure_certificate L J B now later s =
      (Inr (\<lparr>tg_Certificates = [certificate], tg_MinVersion = VersionTLS12\<rparr>, tc_Certificate certificate ! 0), s') \<and>
    good s' \<and> content s' = content s"
  using load_certificate_found [OF s k found pair(1), of now] pair(2) by (auto simp: ensure_certificate_def)

end

definition secret_keys :: "string set" where
  "secret_keys = {indexKey, KeyStoragePassphrase, KeyTLSCertificate, KeyTLSPrivateKey}"

lemma secret_keys_ok:
  "value_key secret_keys KeyStoragePassphrase" "value_key secret_keys KeyTLSCertificate"
  "value_key secret_keys KeyTLSPrivateKey" "indexKey \<in> secret_keys"
  by (simp_all add: value_key_def secret_keys_def KeyStoragePassphrase_def KeyTLSCertificate_def
      KeyTLSPrivateKey_def dekSuffix_def has_suffix_def)

lemma secret_names:
  "KeyStoragePassphrase \<noteq> indexKey" "KeyTLSCertificate \<noteq> indexKey" "KeyTLSPrivateKey \<noteq> indexKey"
  "KeyStoragePassphrase \<noteq> KeyTLSCertificate" "KeyStoragePassphrase \<noteq> KeyTLSPrivateKey"
  "KeyTLSCertificate \<noteq> KeyTLSPrivateKey"
  by (simp_all add: KeyStoragePassphrase_def KeyTLSCertificate_def KeyTLSPrivateKey_def indexKey_def)

text \<open>
  Successive starts of the bridge on one store: the random source each has, and the times it looks at
  the clock. What each start gets.
\<close>

fun restarts :: "'k tls_lib \<Rightarrow> index_codec \<Rightarrow> 's backend \<Rightarrow> ((nat \<Rightarrow> err + bytes) \<times> int \<times> int) list \<Rightarrow> 's option \<Rightarrow>
    ((err + bytes) \<times> (err + tls_Config \<times> bytes)) list" where
  "restarts L J B [] s = []"
| "restarts L J B ((rd, now, later) # starts) s =
     (let (passphrase, s) = EnsureStoragePassphrase J B rd s;
          (certificate, s) = Ensure L J B now later s
      in (passphrase, certificate) # restarts L J B starts s)"

context indexed_store
begin

lemma restarts_same:
  assumes k: "key_ok KeyStoragePassphrase" "key_ok KeyTLSCertificate" "key_ok KeyTLSPrivateKey"
    and pair: "tl_X509KeyPair L certPEM keyPEM = Inr certificate"
    and "good s" "content s KeyStoragePassphrase = Some p" "content s KeyTLSCertificate = Some certPEM"
      "content s KeyTLSPrivateKey = Some keyPEM"
    and "\<And>rd t t'. (rd, t, t') \<in> set starts \<Longrightarrow> usable L t certificate"
  shows "restarts L J B starts (Some s) = replicate (length starts)
    (Inr p, Inr (\<lparr>tg_Certificates = [certificate], tg_MinVersion = VersionTLS12\<rparr>, tc_Certificate certificate ! 0))"
  using assms(5-9)
proof (induction starts arbitrary: s)
  case (Cons start starts)
  obtain rd t t' where start: "start = (rd, t, t')" by (cases start)
  obtain s1 where s1: "store_Get B KeyStoragePassphrase s = (Inr p, s1)" "good s1" "content s1 = content s"
    using found_or_not [OF Cons.prems(1) k(1)] Cons.prems(2) by (metis option.distinct(1) option.inject)
  have found: "content s1 KeyTLSCertificate = Some certPEM" "content s1 KeyTLSPrivateKey = Some keyPEM"
    using Cons.prems(3,4) s1(3) by simp_all
  have "usable L t certificate" using Cons.prems(5) [of rd t t'] start by simp
  from ensure_certificate_keeps [OF s1(2) k(2,3) found pair this] obtain s2 where
    s2: "ensure_certificate L J B t t' s1 =
      (Inr (\<lparr>tg_Certificates = [certificate], tg_MinVersion = VersionTLS12\<rparr>, tc_Certificate certificate ! 0), s2)"
      "good s2" "content s2 = content s1" by blast
  have "restarts L J B starts (Some s2) = replicate (length starts)
    (Inr p, Inr (\<lparr>tg_Certificates = [certificate], tg_MinVersion = VersionTLS12\<rparr>, tc_Certificate certificate ! 0))"
    using Cons.prems(2-5) s1(3) s2(3) by (intro Cons.IH [OF s2(2)]) auto
  then show ?case using s1(1) s2(1)
    by (simp add: start EnsureStoragePassphrase_def Ensure_def on_store_def ensure_passphrase_def)
qed simp

end

text \<open>
  C21: What the bridge makes up for itself it makes up once. The first start on an empty store, over any keychain
  that keeps its contract and a disk that reports no error, draws the passphrase of the cache and signs a
  certificate. Every start after it gets the same passphrase,
  whatever its random source would give, and, while more than thirty of the certificate's 730 days are
  left, the same certificate, whatever the X.509 functions would make by then.
\<close>

theorem secrets_made_once:
  assumes d: "keychain_contract (dk_keys d) good content" "inj_on (disk_path d) secret_keys" "gcm_ok (dk_prims d)"
      "rand_ok (dk_rand d)" "\<And>i n. is_ok (dk_rand d i n)" "\<forall>k \<in> secret_keys. others (disk_path d k) = None"
    and start: "good keys" "content keys = Map.empty"
    and J: "\<And>ks. ix_unmarshal J (ix_marshal J ks) = Inr ks"
    and rd: "rd storagePassphraseBytes = Inr p"
    and L: "tls_lib_ok L" "make_certificate L t0 = Inr (certPEM, keyPEM)"
    and times: "\<And>rd t t'. (rd, t, t') \<in> set starts \<Longrightarrow> t0 \<le> t \<and> t < t0 + 700 * 24 * hour"
  shows "\<exists>cfg der. restarts L J (router d) ((rd, t0, t0) # starts) (Some (empty_store keys others n)) =
    replicate (Suc (length starts)) (Inr p, Inr (cfg, der))"
proof -
  note er = keychain_router [OF d]
  note st = keychain_store [OF er secret_keys_ok(4) J]
  let ?content = "encrypted_router.router_content content d secret_keys"
  note empty = empty_store_good [OF er start, of n]
  have h: "indexed_store.holds_index ?content J (empty_store keys others n) []"
    by (simp add: indexed_store.holds_index_def [OF st] empty)
  from indexed_store.ensure_passphrase_keeps [OF st, where s = "empty_store keys others n" and ks = "[]" and new = p and rd = rd,
      OF empty(1) h secret_keys_ok(1) TrueI rd] obtain s1 ks1 where
    s1: "ensure_passphrase J (router d) rd (empty_store keys others n) = (Inr p, s1)"
      "encrypted_router.router_good good content d secret_keys others s1"
      "indexed_store.holds_index ?content J s1 ks1"
      "\<forall>k. k \<noteq> indexKey \<longrightarrow> ?content s1 k = (Map.empty(KeyStoragePassphrase \<mapsto> p)) k"
    by (auto simp: empty(2))
  have "?content s1 KeyTLSCertificate = None" using s1(4) secret_names by simp
  from indexed_store.load_certificate_absent [OF st s1(2) secret_keys_ok(2) this, of L t0]
  have none: "\<exists>s'. load_certificate L (router d) t0 s1 = (Inr None, s') \<and>
    encrypted_router.router_good good content d secret_keys others s' \<and> ?content s' = ?content s1" .
  from indexed_store.ensure_certificate_makes [OF st L(1), where s = s1 and ks = ks1 and later = t0 and certPEM = certPEM and keyPEM = keyPEM,
      OF s1(2,3) secret_keys_ok(2,3) L(2) TrueI TrueI none]
  obtain certificate s2 where s2: "ensure_certificate L J (router d) t0 t0 s1 =
      (Inr (\<lparr>tg_Certificates = [certificate], tg_MinVersion = VersionTLS12\<rparr>, tc_Certificate certificate ! 0), s2)"
    "tl_X509KeyPair L certPEM keyPEM = Inr certificate"
    "\<And>t. usable L t certificate \<longleftrightarrow> t0 - hour < t \<and> t + renewBefore < t0 + validity"
    "encrypted_router.router_good good content d secret_keys others s2"
    "\<And>k. k \<noteq> indexKey \<Longrightarrow>
       ?content s2 k = ((?content s1)(KeyTLSCertificate \<mapsto> certPEM, KeyTLSPrivateKey \<mapsto> keyPEM)) k" by blast
  have "restarts L J (router d) starts (Some s2) = replicate (length starts)
    (Inr p, Inr (\<lparr>tg_Certificates = [certificate], tg_MinVersion = VersionTLS12\<rparr>, tc_Certificate certificate ! 0))"
  proof (rule indexed_store.restarts_same [OF st secret_keys_ok(1-3) s2(2,4)])
    show "usable L t certificate" if "(rd, t, t') \<in> set starts" for rd t t'
      using times [OF that] by (simp add: s2(3) renewBefore_def validity_def hour_def)
  qed (use s1(4) s2(5) secret_names in auto)
  then show ?thesis using s1(1) s2(1)
    by (simp add: EnsureStoragePassphrase_def Ensure_def on_store_def)
qed

text \<open>X.509 functions that make one certificate, valid around the time 0.\<close>

definition toy_tls :: "unit tls_lib" where
  "toy_tls = \<lparr>tl_GenerateKey = (\<lambda>n. Inr ()), tl_RandInt = (\<lambda>n. Inr 7),
     tl_CreateCertificate = (\<lambda>t k. if tp_NotBefore t = - hour \<and> tp_NotAfter t = validity then Inr [1, 2]
       else Inl (ErrExt ''x509'')),
     tl_MarshalPKCS8 = (\<lambda>k. Inr [3]), tl_EncodePEM = (\<lambda>kind b. b),
     tl_X509KeyPair = (\<lambda>c k. Inr \<lparr>tc_Certificate = [c], tc_PrivateKey = k\<rparr>),
     tl_ParseCertificate = (\<lambda>der. Inr (- hour, validity))\<rparr>"

lemma toy_tls_ok: "tls_lib_ok toy_tls"
  by (auto simp: tls_lib_ok_def toy_tls_def split: if_splits)

lemma toy_certificate: "make_certificate toy_tls 0 = Inr ([1, 2], [3])"
  by (simp add: make_certificate_def toy_tls_def certificate_template_def)

definition toy_entropy :: "nat \<Rightarrow> err + bytes" where
  "toy_entropy n = Inr (replicate n 5)"

definition no_entropy :: "nat \<Rightarrow> err + bytes" where
  "no_entropy n = Inl (ErrExt ''no entropy'')"

definition toy_starts :: "((nat \<Rightarrow> err + bytes) \<times> int \<times> int) list" where
  "toy_starts = [(no_entropy, 100, 101), (no_entropy, 699 * 24 * hour, 0)]"

theorem secrets_made_once_witness:
  "\<exists>cfg der. restarts toy_tls demo_codec (router demo_disk) ((toy_entropy, 0, 0) # toy_starts) (Some (empty_store Map.empty demo_others 0)) =
     replicate 3 (Inr (replicate 32 5), Inr (cfg, der))"
proof -
  have e: "demo_content Map.empty = Map.empty" by (simp add: fun_eq_iff)
  have paths: "inj_on (disk_path demo_disk) secret_keys" using demo_paths by (rule inj_on_subset) simp
  have times: "0 \<le> t \<and> t < 0 + 700 * 24 * hour" if "(rd, t, t') \<in> set toy_starts" for rd t t'
    using that by (auto simp: toy_starts_def hour_def)
  have rd: "toy_entropy storagePassphraseBytes = Inr (replicate 32 5)"
    by (simp add: toy_entropy_def storagePassphraseBytes_def)
  have "\<exists>cfg der. restarts toy_tls demo_codec (router demo_disk) ((toy_entropy, 0, 0) # toy_starts) (Some (empty_store Map.empty demo_others 0)) =
     replicate (Suc (length toy_starts)) (Inr (replicate 32 5), Inr (cfg, der))"
    by (rule secrets_made_once [where rd = toy_entropy and good = "\<lambda>_. True" and content = demo_content,
          OF demo_disk_ok(1) paths demo_disk_ok(2-5) TrueI e demo_codec_ok rd toy_tls_ok toy_certificate]) (fact times)
  then show ?thesis by (simp add: toy_starts_def numeral_3_eq_3)
qed

end
