(* ===== verification/LocalServers.thy ===== *)
theory LocalServers
  imports GoStrings Stateful
begin

text \<open>
  The two servers mail clients connect to, as far as the bridge's own code goes: configuration from the
  environment (\<open>internal/config\<close>), the life of the IMAP server, its authorization and its protocol log
  (\<open>internal/imapserver\<close>), and the SMTP sessions and their listener (\<open>internal/smtpserver\<close>). Gluon,
  go-smtp, the sockets and TLS are parameters: what their calls answer. What is opened and closed is
  the list of effects an operation has.
\<close>

section \<open>Configuration\<close>

record bridge_config =
  bc_Host :: string
  bc_IMAPAddr :: string
  bc_SMTPAddr :: string
  bc_SMTPDomain :: string
  bc_MailAPI :: string
  bc_LogImapProtocol :: bool
  bc_TLS :: bool
  bc_ServerPublicKey :: bytes

definition env_or :: "(string \<Rightarrow> string) \<Rightarrow> string \<Rightarrow> string \<Rightarrow> string" where
  "env_or getenv key def = (if getenv key \<noteq> [] then getenv key else def)"

text \<open>\<open>net.JoinHostPort\<close> brackets a host that holds a colon.\<close>

definition JoinHostPort :: "string \<Rightarrow> string \<Rightarrow> string" where
  "JoinHostPort host port =
     (if CHR 0x3A \<in> set host then ''['' @ host @ '']:'' @ port else host @ '':'' @ port)"

definition decodeServerPublicKey :: "(string \<Rightarrow> err + bytes) \<Rightarrow> string \<Rightarrow> bytes" where
  "decodeServerPublicKey decode encoded =
     (if encoded = [] then [] else case decode encoded of Inl _ \<Rightarrow> [] | Inr key \<Rightarrow> key)"

text \<open>\<open>getenv\<close> is the environment once the \<open>.env\<close> file is loaded.\<close>

definition Load :: "(string \<Rightarrow> err + bytes) \<Rightarrow> (string \<Rightarrow> string) \<Rightarrow> bridge_config" where
  "Load decode getenv =
     (let host = env_or getenv ''BRIDGE_HOST'' ''127.0.0.1''
      in \<lparr>bc_Host = host,
          bc_IMAPAddr = JoinHostPort host (env_or getenv ''BRIDGE_IMAP_PORT'' ''1143''),
          bc_SMTPAddr = JoinHostPort host (env_or getenv ''BRIDGE_SMTP_PORT'' ''2025''),
          bc_SMTPDomain = env_or getenv ''BRIDGE_SMTP_DOMAIN'' ''localhost'',
          bc_MailAPI = env_or getenv ''MAIL_API_URL'' [],
          bc_LogImapProtocol = (env_or getenv ''BRIDGE_LOG_IMAP_PROTOCOL'' [] = ''true''),
          bc_TLS = (env_or getenv ''BRIDGE_TLS'' [] = ''true''),
          bc_ServerPublicKey = decodeServerPublicKey decode (env_or getenv ''MAIL_SERVER_PUBLIC_KEY'' [])\<rparr>)"

record Credentials =
  cd_Username :: string
  cd_Password :: string

section \<open>The IMAP server\<close>

record UnlockedSession =
  us_AccountID :: string
  us_Addresses :: "string list"

record Status =
  ip_Address :: string
  ip_Credentials :: Credentials
  ip_StartTLS :: bool

record imap_Config =
  ic_ListenAddress :: string
  ic_DataDir :: string
  ic_TLSConfig :: bool
  ic_LocalCredentials :: Credentials
  ic_StoragePassphrase :: bytes
  ic_ConnectorFactory :: "(UnlockedSession \<Rightarrow> Credentials \<Rightarrow> err + bool) option"
  ic_LogProtocol :: bool
  ic_PollInterval :: int
  ic_StoreBuilder :: bool

text \<open>A connector factory answers whether the connector it made can synchronise.\<close>

datatype gluon_option =
    WithDataDir string
  | WithDatabaseDir string
  | WithFixedUIDValidity nat
  | WithTLS
  | WithStoreBuilder
  | WithLogger

record imap_env =
  ie_IMAPAddr :: string
  ie_SplitHostPort :: "string \<Rightarrow> err + string \<times> string"
  ie_rand :: "nat \<Rightarrow> err + bytes"
  ie_Join :: "string \<Rightarrow> string \<Rightarrow> string"
  ie_MkdirAll :: "string \<Rightarrow> err option"
  ie_gluon_New :: "gluon_option list \<Rightarrow> err option"
  ie_AddUser :: "bytes \<Rightarrow> err option"
  ie_Listen :: "string \<Rightarrow> err + string"
  ie_gluon_Serve :: "err option"
  ie_Sync :: "err option"
  ie_listener_Close :: "err option"
  ie_gluon_Close :: "err option"

datatype server_effect =
    OpenGluon "gluon_option list"
  | CloseGluon
  | AddUser bytes
  | NewContext
  | StopServing
  | OpenListener string
  | CloseListener
  | InitialSync
  | StartPoller int
  | StopPoller
  | RequestSync

record IMAPServer =
  im_server :: bool
  im_listener :: bool
  im_stopServing :: bool
  im_poller :: bool
  im_status :: Status
  im_credentials :: bytes
  im_started :: bool

definition uidValidity :: nat where "uidValidity = 1"
definition passphraseBytes :: nat where "passphraseBytes = 32"

definition imap_validate :: "imap_env \<Rightarrow> UnlockedSession \<Rightarrow> imap_Config \<Rightarrow> err option" where
  "imap_validate E session cfg =
     (if us_AccountID session = [] then Some (ErrNew ''unlocked session account ID is required'')
      else if length (us_Addresses session) = 0 \<or> us_Addresses session ! 0 = []
        then Some (ErrNew ''unlocked session needs at least one mail address'')
      else if ic_DataDir cfg = [] then Some (ErrNew ''IMAP data directory is required'')
      else if ic_ConnectorFactory cfg = None then Some (ErrNew ''IMAP connector factory is required'')
      else if cd_Password (ic_LocalCredentials cfg) = [] then Some (ErrNew ''local IMAP password is required'')
      else if ic_ListenAddress cfg \<noteq> [] then
        (case ie_SplitHostPort E (ic_ListenAddress cfg) of
          Inl e \<Rightarrow> Some (ErrWrap ''invalid IMAP listen address'' e)
        | Inr (host, _) \<Rightarrow>
            if host \<noteq> ''127.0.0.1'' \<and> host \<noteq> ''localhost'' \<and> host \<noteq> ''::1''
            then Some (ErrNew ''IMAP listener must bind to loopback'') else None)
      else None)"

definition resolveConfig :: "imap_env \<Rightarrow> UnlockedSession \<Rightarrow> imap_Config \<Rightarrow> err + imap_Config" where
  "resolveConfig E session cfg =
     (let cfg = (if ic_ListenAddress cfg = [] then cfg\<lparr>ic_ListenAddress := ie_IMAPAddr E\<rparr> else cfg)
      in case imap_validate E session cfg of
          Some e \<Rightarrow> Inl e
        | None \<Rightarrow>
            let cfg = (if cd_Username (ic_LocalCredentials cfg) = []
                  then cfg\<lparr>ic_LocalCredentials := (ic_LocalCredentials cfg)\<lparr>cd_Username := us_Addresses session ! 0\<rparr>\<rparr>
                  else cfg)
            in if length (ic_StoragePassphrase cfg) = 0 then
                 bind_err (wrap_err ''generate IMAP storage passphrase'' (ie_rand E passphraseBytes))
                   (\<lambda>passphrase. Inr (cfg\<lparr>ic_StoragePassphrase := passphrase\<rparr>))
               else Inr cfg)"

definition gluon_options :: "imap_env \<Rightarrow> imap_Config \<Rightarrow> gluon_option list" where
  "gluon_options E cfg =
     [WithDataDir (ie_Join E (ic_DataDir cfg) ''data''), WithDatabaseDir (ie_Join E (ic_DataDir cfg) ''database''),
      WithFixedUIDValidity uidValidity] @
     (if ic_TLSConfig cfg then [WithTLS] else []) @
     (if ic_StoreBuilder cfg then [WithStoreBuilder] else []) @
     (if ic_LogProtocol cfg then [WithLogger] else [])"

text \<open>The steps of \<open>Start\<close> answer an error or a value, with what they opened and closed.\<close>

definition createGluonServer :: "imap_env \<Rightarrow> imap_Config \<Rightarrow> (err + unit) \<times> server_effect list" where
  "createGluonServer E cfg =
     (case ie_MkdirAll E (ic_DataDir cfg) of
       Some e \<Rightarrow> (Inl (ErrWrap ''create IMAP data directory'' e), [])
     | None \<Rightarrow>
         (case ie_gluon_New E (gluon_options E cfg) of
           Some e \<Rightarrow> (Inl (ErrWrap ''create Gluon server'' e), [])
         | None \<Rightarrow> (Inr (), [OpenGluon (gluon_options E cfg)])))"

definition connectMailbox :: "imap_env \<Rightarrow> UnlockedSession \<Rightarrow> imap_Config \<Rightarrow> (err + bool) \<times> server_effect list" where
  "connectMailbox E session cfg =
     (case the (ic_ConnectorFactory cfg) session (ic_LocalCredentials cfg) of
       Inl e \<Rightarrow> (Inl (ErrWrap ''create mailbox connector'' e), [])
     | Inr canSync \<Rightarrow>
         (case ie_AddUser E (ic_StoragePassphrase cfg) of
           Some e \<Rightarrow> (Inl (ErrWrap ''add IMAP user'' e), [])
         | None \<Rightarrow> (Inr canSync, [AddUser (ic_StoragePassphrase cfg)])))"

definition startServing :: "imap_env \<Rightarrow> string \<Rightarrow> (err + string) \<times> server_effect list" where
  "startServing E address =
     (case ie_Listen E address of
       Inl e \<Rightarrow> (Inl (ErrWrap ''listen for IMAP'' e), [])
     | Inr bound \<Rightarrow>
         (case ie_gluon_Serve E of
           Some e \<Rightarrow> (Inl (ErrWrap ''serve IMAP'' e), [OpenListener bound, CloseListener])
         | None \<Rightarrow> (Inr bound, [OpenListener bound])))"

text \<open>
  \<open>Start\<close>. \<open>closeOnFailure\<close> looks at the variable \<open>err\<close> of the function, which the error of the initial
  sync, declared in the scope of its \<open>if\<close>, does not set.
\<close>

definition imap_Start :: "imap_env \<Rightarrow> UnlockedSession \<Rightarrow> imap_Config \<Rightarrow> (err + IMAPServer) \<times> server_effect list" where
  "imap_Start E session cfg =
     (case resolveConfig E session cfg of
       Inl e \<Rightarrow> (Inl e, [])
     | Inr cfg \<Rightarrow>
         (case createGluonServer E cfg of
           (Inl e, effs) \<Rightarrow> (Inl e, effs)
         | (Inr _, effs1) \<Rightarrow>
             (case connectMailbox E session cfg of
               (Inl e, effs2) \<Rightarrow> (Inl e, effs1 @ effs2 @ [CloseGluon])
             | (Inr canSync, effs2) \<Rightarrow>
                 (case startServing E (ic_ListenAddress cfg) of
                   (Inl e, effs3) \<Rightarrow> (Inl e, effs1 @ effs2 @ [NewContext] @ effs3 @ [StopServing, CloseGluon])
                 | (Inr bound, effs3) \<Rightarrow>
                     let effs = effs1 @ effs2 @ [NewContext] @ effs3;
                         polling = (canSync \<and> ic_PollInterval cfg > 0);
                         server = \<lparr>im_server = True, im_listener = True, im_stopServing = True, im_poller = polling,
                           im_status = \<lparr>ip_Address = bound, ip_Credentials = ic_LocalCredentials cfg,
                             ip_StartTLS = ic_TLSConfig cfg\<rparr>,
                           im_credentials = str_bytes (cd_Password (ic_LocalCredentials cfg)), im_started = True\<rparr>
                     in if \<not> canSync then (Inr server, effs)
                        else if polling then (Inr server, effs @ [StartPoller (ic_PollInterval cfg)])
                        else case ie_Sync E of
                            Some e \<Rightarrow> (Inl (ErrWrap ''perform initial mailbox sync'' e), effs @ [InitialSync, StopServing])
                          | None \<Rightarrow> (Inr server, effs @ [InitialSync])))))"

definition imap_Status :: "IMAPServer \<Rightarrow> Status" where
  "imap_Status s = im_status s"

definition imap_Resync :: "IMAPServer \<Rightarrow> server_effect list" where
  "imap_Resync s = (if im_poller s then [RequestSync] else [])"

text \<open>Whether there is a channel to read the server's errors from.\<close>

definition imap_Errors :: "IMAPServer \<Rightarrow> bool" where
  "imap_Errors s = im_server s"

text \<open>\<open>clear\<close> overwrites the password's bytes before the slice is let go.\<close>

definition imap_Close :: "imap_env \<Rightarrow> IMAPServer \<Rightarrow> err option \<times> server_effect list \<times> IMAPServer" where
  "imap_Close E s =
     (if \<not> im_started s then (None, [], s)
      else
        (let result = (if im_listener s then errors_join [None, ie_listener_Close E] else None)
         in if im_server s then errors_join [result, ie_gluon_Close E] else result,
         (if im_poller s then [StopPoller] else []) @ (if im_listener s then [CloseListener] else []) @
         (if im_server s then [CloseGluon] else []) @ (if im_stopServing s then [StopServing] else []),
         s\<lparr>im_started := False, im_listener := False, im_server := False, im_stopServing := False, im_poller := False,
           im_credentials := [],
           im_status := (im_status s)\<lparr>ip_Credentials := (ip_Credentials (im_status s))\<lparr>cd_Password := []\<rparr>\<rparr>\<rparr>))"

text \<open>\<open>authConnector.Authorize\<close>.\<close>

definition Authorize :: "unicode \<Rightarrow> Credentials \<Rightarrow> string \<Rightarrow> bytes \<Rightarrow> bool" where
  "Authorize U credentials username password \<longleftrightarrow>
     equal_fold U username (cd_Username credentials) \<and> password = str_bytes (cd_Password credentials)"

section \<open>The protocol log\<close>

text \<open>
  \<open>protocolLogger.Write\<close>: the lines it logs for a piece of the conversation, and the part of a line it
  holds back.
\<close>

definition trim_right_cr :: "string \<Rightarrow> string" where
  "trim_right_cr s = rev (dropWhile (\<lambda>c. c = CHR 0x0D) (rev s))"

definition log_line :: "bytes \<Rightarrow> string list" where
  "log_line b = (let line = trim_right_cr (bytes_str b) in if line \<noteq> [] then [line] else [])"

function protocol_lines :: "bytes \<Rightarrow> string list \<times> bytes" where
  "protocol_lines pending =
     (if 10 \<in> set pending then
        let line = takeWhile (\<lambda>b. b \<noteq> 10) pending;
            (lines, pending) = protocol_lines (drop (length line + 1) pending)
        in (log_line line @ lines, pending)
      else ([], pending))"
  by pat_completeness auto
termination
proof (relation "measure length")
  fix pending line :: bytes
  assume "10 \<in> set pending" and "line = takeWhile (\<lambda>b. b \<noteq> 10) pending"
  then have "length pending > 0" by (auto simp: length_greater_0_conv)
  then show "(drop (length line + 1) pending, pending) \<in> measure length" by simp
qed simp

declare protocol_lines.simps [simp del]

definition protocol_Write :: "bytes \<Rightarrow> bytes \<Rightarrow> string list \<times> bytes" where
  "protocol_Write pending payload = protocol_lines (pending @ payload)"

text \<open>A conversation written piece by piece.\<close>

fun protocol_writes :: "bytes \<Rightarrow> bytes list \<Rightarrow> string list \<times> bytes" where
  "protocol_writes pending [] = ([], pending)"
| "protocol_writes pending (payload # payloads) =
     (let (lines, pending) = protocol_Write pending payload;
          (more, pending) = protocol_writes pending payloads
      in (lines @ more, pending))"

section \<open>SMTP sessions\<close>

definition maxMessageBytes :: nat where "maxMessageBytes = 50 * 1024 * 1024"
definition maxRecipients :: nat where "maxRecipients = 100"
definition ioTimeout :: nat where "ioTimeout = 60"

text \<open>What \<open>New\<close> sets on the server of go-smtp.\<close>

record smtp_server =
  sr_Addr :: string
  sr_Domain :: string
  sr_TLSConfig :: bool
  sr_AllowInsecureAuth :: bool
  sr_ReadTimeout :: nat
  sr_WriteTimeout :: nat
  sr_MaxMessageBytes :: nat
  sr_MaxRecipients :: nat

definition smtp_New :: "bridge_config \<Rightarrow> bool \<Rightarrow> smtp_server" where
  "smtp_New cfg tlsConfig =
     \<lparr>sr_Addr = bc_SMTPAddr cfg, sr_Domain = bc_SMTPDomain cfg, sr_TLSConfig = tlsConfig,
      sr_AllowInsecureAuth = (\<not> tlsConfig), sr_ReadTimeout = ioTimeout, sr_WriteTimeout = ioTimeout,
      sr_MaxMessageBytes = maxMessageBytes, sr_MaxRecipients = maxRecipients\<rparr>"

text \<open>
  A session, with the state of the sender it hands messages to. A nil sender is \<open>None\<close>.
\<close>

type_synonym 's sender = "(bytes \<Rightarrow> string list \<Rightarrow> 's \<Rightarrow> err option \<times> 's) option"

record smtp_session =
  se_credentials :: Credentials
  se_from :: string
  se_to :: "string list"

definition NewSession :: "Credentials \<Rightarrow> smtp_session" where
  "NewSession credentials = \<lparr>se_credentials = credentials, se_from = [], se_to = []\<rparr>"

definition AuthMechanisms :: "string list" where
  "AuthMechanisms = [''PLAIN'']"

text \<open>The callback given to the PLAIN server, or the refusal of the mechanism.\<close>

definition smtp_Auth :: "smtp_session \<Rightarrow> string \<Rightarrow> err + (string \<Rightarrow> string \<Rightarrow> string \<Rightarrow> err option)" where
  "smtp_Auth s mech =
     (if mech \<noteq> ''PLAIN'' then Inl (ErrSentinel ErrAuthUnsupported)
      else Inr (\<lambda>identity username password.
        if cd_Password (se_credentials s) = [] then None
        else if str_bytes username \<noteq> str_bytes (cd_Username (se_credentials s)) \<or>
                str_bytes password \<noteq> str_bytes (cd_Password (se_credentials s))
          then Some (ErrNew ''invalid local bridge credentials'')
        else None))"

definition smtp_Mail :: "string \<Rightarrow> smtp_session \<Rightarrow> smtp_session" where
  "smtp_Mail from_address s = s\<lparr>se_from := from_address\<rparr>"

definition smtp_Rcpt :: "string \<Rightarrow> smtp_session \<Rightarrow> smtp_session" where
  "smtp_Rcpt to_address s = s\<lparr>se_to := se_to s @ [to_address]\<rparr>"

text \<open>\<open>body\<close>: what reading the message gives.\<close>

definition smtp_Data :: "'s sender \<Rightarrow> err + bytes \<Rightarrow> smtp_session \<Rightarrow> 's \<Rightarrow> err option \<times> 's" where
  "smtp_Data sender body s state =
     (case body of
       Inl e \<Rightarrow> (Some e, state)
     | Inr raw \<Rightarrow>
         (case sender of
           None \<Rightarrow> (Some (ErrNew ''mail service unavailable''), state)
         | Some deliver \<Rightarrow>
             (case deliver raw (se_to s) state of
               (Some e, state) \<Rightarrow> (Some (ErrWrap ''send'' e), state)
             | (None, state) \<Rightarrow> (None, state))))"

definition smtp_Reset :: "smtp_session \<Rightarrow> smtp_session" where
  "smtp_Reset s = s\<lparr>se_from := [], se_to := []\<rparr>"

text \<open>The calls go-smtp makes on a session, in their order; every one is answered.\<close>

datatype smtp_call =
    CallMail string
  | CallRcpt string
  | CallData "err + bytes"
  | CallReset

fun smtp_run :: "'s sender \<Rightarrow> smtp_call list \<Rightarrow> smtp_session \<Rightarrow> 's \<Rightarrow> err option list \<times> smtp_session \<times> 's" where
  "smtp_run sender [] s state = ([], s, state)"
| "smtp_run sender (CallMail f # calls) s state =
     (let (rs, s, state) = smtp_run sender calls (smtp_Mail f s) state in (None # rs, s, state))"
| "smtp_run sender (CallRcpt t # calls) s state =
     (let (rs, s, state) = smtp_run sender calls (smtp_Rcpt t s) state in (None # rs, s, state))"
| "smtp_run sender (CallData body # calls) s state =
     (let (r, state) = smtp_Data sender body s state;
          (rs, s, state) = smtp_run sender calls s state
      in (r # rs, s, state))"
| "smtp_run sender (CallReset # calls) s state =
     (let (rs, s, state) = smtp_run sender calls (smtp_Reset s) state in (None # rs, s, state))"

text \<open>
  The service around the server: \<open>sc_listener\<close> is the address it is bound to. \<open>Start\<close> and \<open>Stop\<close> take
  what \<open>net.Listen\<close> and \<open>Shutdown\<close> answer.
\<close>

record smtp_service =
  sc_srv :: smtp_server
  sc_listener :: "string option"

definition smtp_Start :: "(string \<Rightarrow> err + string) \<Rightarrow> smtp_service \<Rightarrow> err option \<times> smtp_service" where
  "smtp_Start listen s =
     (case listen (sr_Addr (sc_srv s)) of
       Inl e \<Rightarrow> (Some e, s)
     | Inr bound \<Rightarrow> (None, s\<lparr>sc_listener := Some bound\<rparr>))"

definition smtp_Address :: "smtp_service \<Rightarrow> string" where
  "smtp_Address s = (case sc_listener s of None \<Rightarrow> sr_Addr (sc_srv s) | Some bound \<Rightarrow> bound)"

definition smtp_Stop :: "err option \<Rightarrow> err option" where
  "smtp_Stop shutdown =
     (case shutdown of
       Some e \<Rightarrow> if errors_is e ErrServerClosed then None else Some e
     | None \<Rightarrow> None)"

section \<open>One port for both kinds of client\<close>

text \<open>
  A connection: what the client will have sent, and what the first read within the greeting pause
  meets, the first byte or an error. The deadlines of the connection may fail to be set or cleared.
\<close>

record tcp_conn =
  tn_data :: bytes
  tn_first_read :: "err option"
  tn_set_deadline :: "err option"
  tn_clear_deadline :: "err option"

definition tlsRecord :: byte where "tlsRecord = 0x16"

text \<open>\<open>replayConn\<close>, and what \<open>classify\<close> hands back: the connection itself, or a replay of it.\<close>

record replayConn =
  rp_rest :: bytes
  rp_first :: byte
  rp_replayed :: bool

datatype ready_conn =
    WholeConn bytes
  | PlainConn replayConn
  | TLSConn replayConn

definition isTimeout :: "err \<Rightarrow> bool" where
  "isTimeout e = errors_is e OsErrDeadlineExceeded"

definition classify :: "tcp_conn \<Rightarrow> err + ready_conn" where
  "classify c =
     (case tn_set_deadline c of
       Some e \<Rightarrow> Inl e
     | None \<Rightarrow>
         (case tn_clear_deadline c of
           Some e \<Rightarrow> Inl e
         | None \<Rightarrow>
             (case tn_first_read c of
               Some e \<Rightarrow> if isTimeout e then Inr (WholeConn (tn_data c)) else Inl e
             | None \<Rightarrow>
                 let opened = \<lparr>rp_rest = tl (tn_data c), rp_first = hd (tn_data c), rp_replayed = False\<rparr>
                 in if hd (tn_data c) = tlsRecord then Inr (TLSConn opened) else Inr (PlainConn opened))))"

text \<open>
  \<open>Accept\<close>: the next connection that can be classified, the others being closed; \<open>config\<close> says whether
  there is TLS at all.
\<close>

fun smtp_Accept :: "bool \<Rightarrow> tcp_conn list \<Rightarrow> (ready_conn \<times> tcp_conn list) option" where
  "smtp_Accept config [] = None"
| "smtp_Accept config (c # cs) =
     (if \<not> config then Some (WholeConn (tn_data c), cs)
      else case classify c of
          Inl _ \<Rightarrow> smtp_Accept config cs
        | Inr ready \<Rightarrow> Some (ready, cs))"

text \<open>A read into a buffer of \<open>n\<close> bytes when \<open>k\<close> bytes have arrived.\<close>

definition conn_Read :: "nat \<Rightarrow> nat \<Rightarrow> bytes \<Rightarrow> bytes \<times> bytes" where
  "conn_Read n k b = (take (min n k) b, drop (min n k) b)"

definition replay_Read :: "nat \<Rightarrow> nat \<Rightarrow> replayConn \<Rightarrow> bytes \<times> replayConn" where
  "replay_Read n k c =
     (if rp_replayed c \<or> n = 0 then (case conn_Read n k (rp_rest c) of (b, rest) \<Rightarrow> (b, c\<lparr>rp_rest := rest\<rparr>))
      else ([rp_first c], c\<lparr>rp_replayed := True\<rparr>))"

fun replay_reads :: "(nat \<times> nat) list \<Rightarrow> replayConn \<Rightarrow> bytes \<times> replayConn" where
  "replay_reads [] c = ([], c)"
| "replay_reads ((n, k) # reads) c =
     (let (b, c) = replay_Read n k c; (bs, c) = replay_reads reads c in (b @ bs, c))"

end
