(* ===== verification/LocalServersProps.thy ===== *)
theory LocalServersProps
  imports LocalServers
begin

text \<open>
  The servers' own contracts: what a start and a close of the IMAP server leave open, the recipients an
  SMTP message is sent to, the stream a classified connection still reads, and the lines of the
  protocol log.
\<close>

section \<open>What is open\<close>

datatype resource = RGluon | RListener | RContext | RPoller

fun effect_on :: "server_effect \<Rightarrow> resource set \<Rightarrow> resource set" where
  "effect_on (OpenGluon opts) R = insert RGluon R"
| "effect_on CloseGluon R = R - {RGluon}"
| "effect_on (OpenListener a) R = insert RListener R"
| "effect_on CloseListener R = R - {RListener}"
| "effect_on NewContext R = insert RContext R"
| "effect_on StopServing R = R - {RContext}"
| "effect_on (StartPoller i) R = insert RPoller R"
| "effect_on StopPoller R = R - {RPoller}"
| "effect_on (AddUser p) R = R"
| "effect_on InitialSync R = R"
| "effect_on RequestSync R = R"

definition left_open :: "server_effect list \<Rightarrow> resource set" where
  "left_open effs = fold effect_on effs {}"

lemma left_open_simps [simp]:
  "left_open [] = {}"
  "left_open (effs @ [x]) = effect_on x (left_open effs)"
  by (simp_all add: left_open_def)

lemma left_open_append: "left_open (effs @ effs') = fold effect_on effs' (left_open effs)"
  by (simp add: left_open_def)

definition initial_sync_error :: "err \<Rightarrow> bool" where
  "initial_sync_error e \<longleftrightarrow> (\<exists>e'. e = ErrWrap ''perform initial mailbox sync'' e')"

lemma initial_sync_error_simps [simp]:
  "initial_sync_error (ErrNew m) = False"
  "initial_sync_error (ErrWrap m e) = (m = ''perform initial mailbox sync'')"
  by (auto simp: initial_sync_error_def)

lemma resolveConfig_error: "resolveConfig E session cfg = Inl e \<Longrightarrow> \<not> initial_sync_error e"
  by (auto simp: resolveConfig_def imap_validate_def Let_def bind_err_Inl_iff wrap_err_Inl_iff
      split: option.splits if_splits sum.splits)

text \<open>Every way through \<open>Start\<close>.\<close>

lemma imap_Start_cases:
  assumes "imap_Start E session cfg = (r, effs)"
  obtains (failed) e where "r = Inl e" and "\<not> initial_sync_error e" and "left_open effs = {}"
  | (unsynced) e where "r = Inl (ErrWrap ''perform initial mailbox sync'' e)" and "left_open effs = {RGluon, RListener}"
  | (serving) srv where "r = Inr srv" and "im_started srv" and "im_server srv" and "im_listener srv" and "im_stopServing srv"
      and "left_open effs = {RGluon, RListener, RContext} \<union> (if im_poller srv then {RPoller} else {})"
proof (cases "resolveConfig E session cfg")
  case (Inl e)
  then show ?thesis using assms failed resolveConfig_error [OF Inl] by (auto simp: imap_Start_def)
next
  case (Inr cfg')
  note resolved = Inr
  obtain g effs1 where g: "createGluonServer E cfg' = (g, effs1)" by fastforce
  obtain m effs2 where m: "connectMailbox E session cfg' = (m, effs2)" by fastforce
  obtain l effs3 where l: "startServing E (ic_ListenAddress cfg') = (l, effs3)" by fastforce
  have g': "case g of Inl e \<Rightarrow> effs1 = [] \<and> \<not> initial_sync_error e | Inr _ \<Rightarrow> left_open effs1 = {RGluon}"
    using g by (auto simp: createGluonServer_def left_open_def split: option.splits)
  have m_error: "m = Inl e \<Longrightarrow> \<not> initial_sync_error e" for e
    using m by (auto simp: connectMailbox_def split: sum.splits option.splits)
  have l_error: "l = Inl e \<Longrightarrow> \<not> initial_sync_error e" for e
    using l by (auto simp: startServing_def split: sum.splits option.splits)
  have m': "fold effect_on effs2 R = R" for R
    using m by (auto simp: connectMailbox_def split: sum.splits option.splits)
  have l': "case l of Inl _ \<Rightarrow> fold effect_on effs3 R = R - {RListener} \<or> effs3 = [] | Inr _ \<Rightarrow> fold effect_on effs3 R = insert RListener R" for R
    using l by (auto simp: startServing_def split: sum.splits option.splits)
  show ?thesis
  proof (cases g)
    case (Inl e)
    then show ?thesis using assms resolved g g' failed by (auto simp: imap_Start_def)
  next
    case (Inr u)
    note gluon = Inr
    then have open1: "fold effect_on effs1 {} = {RGluon}" using g' by (simp add: left_open_def)
    show ?thesis
    proof (cases m)
      case (Inl e)
      then show ?thesis
        using assms resolved g m gluon failed open1 m' m_error [OF Inl] by (auto simp: imap_Start_def left_open_def)
    next
      case (Inr canSync)
      note mailbox = Inr
      show ?thesis
      proof (cases l)
        case (Inl e)
        then have "fold effect_on effs3 {RGluon, RContext} = {RGluon, RContext}" using l' [of "{RGluon, RContext}"] by auto
        then show ?thesis
          using assms resolved g m l gluon mailbox Inl failed open1 m' l_error [OF Inl]
          by (auto simp: imap_Start_def left_open_def insert_commute)
      next
        case (Inr bound)
        then have open3: "fold effect_on effs3 {RContext, RGluon} = {RListener, RContext, RGluon}"
          using l' [of "{RContext, RGluon}"] by simp
        note start = assms [unfolded imap_Start_def resolved g m l gluon mailbox Inr sum.case prod.case Let_def]
        consider (no_sync) "\<not> canSync" | (polls) "canSync" "ic_PollInterval cfg' > 0"
          | (once) "canSync" "\<not> ic_PollInterval cfg' > 0" by blast
        then show ?thesis
        proof cases
          case no_sync
          then show ?thesis using start open1 open3 m' by (intro serving) (auto simp: left_open_def)
        next
          case polls
          then show ?thesis using start open1 open3 m' by (intro serving) (auto simp: left_open_def)
        next
          case once
          then show ?thesis
            using start open1 open3 m'
            by (cases "ie_Sync E") (auto simp: left_open_def intro: serving unsynced)
        qed
      qed
    qed
  qed
qed

text \<open>
  C30: A failed start leaves nothing behind, and closing leaves nothing behind. Whatever Gluon, the
  sockets and the connector answer, a start of the IMAP server that fails has closed every resource
  it opened, but in one case: when the initial sync fails, the context is cancelled and Gluon and its
  listener stay open, with nobody left to close them. A start that succeeds has Gluon, the listener,
  its context and the poller it asked for open, and one close releases them all and clears the
  password; a second close does nothing.
\<close>

theorem start_and_close_release:
  assumes "imap_Start E session cfg = (r, effs)"
  shows "case r of
      Inl e \<Rightarrow> left_open effs = (if initial_sync_error e then {RGluon, RListener} else {})
    | Inr srv \<Rightarrow>
        left_open effs = {RGluon, RListener, RContext} \<union> (if im_poller srv then {RPoller} else {}) \<and>
        (\<exists>result closing srv'. imap_Close E srv = (result, closing, srv') \<and>
          left_open (effs @ closing) = {} \<and>
          (result = None \<longleftrightarrow> ie_listener_Close E = None \<and> ie_gluon_Close E = None) \<and>
          im_credentials srv' = [] \<and> cd_Password (ip_Credentials (imap_Status srv')) = [] \<and>
          imap_Resync srv' = [] \<and> imap_Close E srv' = (None, [], srv'))"
  using assms
proof (cases rule: imap_Start_cases)
  case (failed e)
  then show ?thesis by simp
next
  case (unsynced e)
  then show ?thesis by simp
next
  case (serving srv)
  then show ?thesis
    by (auto simp: imap_Close_def imap_Resync_def imap_Status_def left_open_append Let_def)
qed

definition toy_imap :: "err option \<Rightarrow> imap_env" where
  "toy_imap sync = \<lparr>ie_IMAPAddr = ''127.0.0.1:1143'', ie_SplitHostPort = (\<lambda>a. Inr (''127.0.0.1'', ''1143'')),
     ie_rand = (\<lambda>n. Inr (replicate n 5)), ie_Join = (\<lambda>a b. a @ ''/'' @ b), ie_MkdirAll = (\<lambda>d. None),
     ie_gluon_New = (\<lambda>opts. None), ie_AddUser = (\<lambda>p. None), ie_Listen = Inr, ie_gluon_Serve = None,
     ie_Sync = sync, ie_listener_Close = None, ie_gluon_Close = Some (ErrNew ''state'')\<rparr>"

definition toy_imap_config :: "int \<Rightarrow> imap_Config" where
  "toy_imap_config interval = \<lparr>ic_ListenAddress = [], ic_DataDir = ''state'', ic_TLSConfig = False,
     ic_LocalCredentials = \<lparr>cd_Username = [], cd_Password = ''secret''\<rparr>, ic_StoragePassphrase = [],
     ic_ConnectorFactory = Some (\<lambda>session credentials. Inr True), ic_LogProtocol = False,
     ic_PollInterval = interval, ic_StoreBuilder = False\<rparr>"

definition toy_unlocked :: UnlockedSession where
  "toy_unlocked = \<lparr>us_AccountID = ''1'', us_Addresses = [''a@inxt.me'']\<rparr>"

lemmas toy_imap_defs = toy_imap_def toy_imap_config_def toy_unlocked_def imap_Start_def resolveConfig_def
  imap_validate_def createGluonServer_def connectMailbox_def startServing_def passphraseBytes_def gluon_options_def

text \<open>With a poller the server starts and closes; without one, an initial sync that fails leaves it open.\<close>

theorem start_and_close_release_witness:
  "\<exists>e effs srv effs'.
     imap_Start (toy_imap (Some (ErrNew ''sync''))) toy_unlocked (toy_imap_config 0) = (Inl e, effs) \<and>
     left_open effs = {RGluon, RListener} \<and>
     imap_Start (toy_imap None) toy_unlocked (toy_imap_config 30) = (Inr srv, effs') \<and>
     left_open effs' = {RGluon, RListener, RContext, RPoller}"
proof -
  obtain effs where failed: "imap_Start (toy_imap (Some (ErrNew ''sync''))) toy_unlocked (toy_imap_config 0) =
      (Inl (ErrWrap ''perform initial mailbox sync'' (ErrNew ''sync'')), effs)"
    by (simp add: toy_imap_defs)
  obtain srv effs' where started: "imap_Start (toy_imap None) toy_unlocked (toy_imap_config 30) = (Inr srv, effs')"
    and polling: "im_poller srv"
    by (simp add: toy_imap_defs)
  from start_and_close_release [OF failed] have "left_open effs = {RGluon, RListener}" by simp
  moreover from start_and_close_release [OF started] polling
  have "left_open effs' = {RGluon, RListener, RContext, RPoller}" by auto
  ultimately show ?thesis using failed started by blast
qed

section \<open>Recipients of a message\<close>

text \<open>
  What a client does with a session: transactions, each finished with its message or given up. Around
  each, go-smtp resets the session.
\<close>

datatype transaction =
    Submitted string "string list" bytes
  | GivenUp string "string list"

fun calls_of :: "transaction \<Rightarrow> smtp_call list" where
  "calls_of (Submitted f rcpts raw) = CallMail f # map CallRcpt rcpts @ [CallData (Inr raw), CallReset]"
| "calls_of (GivenUp f rcpts) = CallMail f # map CallRcpt rcpts @ [CallReset]"

text \<open>What the sender is asked to deliver, and what it answers.\<close>

fun deliver_all :: "(bytes \<Rightarrow> string list \<Rightarrow> 's \<Rightarrow> err option \<times> 's) \<Rightarrow> transaction list \<Rightarrow> 's \<Rightarrow> err option list \<times> 's" where
  "deliver_all deliver [] state = ([], state)"
| "deliver_all deliver (Submitted f rcpts raw # ts) state =
     (let (r, state) = deliver raw rcpts state;
          (rs, state) = deliver_all deliver ts state
      in (r # rs, state))"
| "deliver_all deliver (GivenUp f rcpts # ts) state = deliver_all deliver ts state"

text \<open>The answers to the messages, among the answers to all calls.\<close>

fun data_answers :: "smtp_call list \<Rightarrow> err option list \<Rightarrow> err option list" where
  "data_answers (CallData b # calls) (r # rs) = r # data_answers calls rs"
| "data_answers (c # calls) (r # rs) = data_answers calls rs"
| "data_answers calls rs = []"

lemma smtp_run_append:
  "smtp_run sender (calls @ calls') s state =
     (let (rs, s, state) = smtp_run sender calls s state;
          (rs', s, state) = smtp_run sender calls' s state
      in (rs @ rs', s, state))"
proof (induction calls arbitrary: s state)
  case (Cons c calls)
  then show ?case by (cases c) (simp_all add: case_prod_beta Let_def)
qed simp

lemma smtp_run_rcpts:
  "smtp_run sender (map CallRcpt rcpts) s state = (map (\<lambda>_. None) rcpts, s\<lparr>se_to := se_to s @ rcpts\<rparr>, state)"
  by (induction rcpts arbitrary: s) (simp_all add: smtp_Rcpt_def)

lemma length_smtp_run: "length (fst (smtp_run sender calls s state)) = length calls"
proof (induction calls arbitrary: s state)
  case (Cons c calls)
  then show ?case by (cases c) (simp_all add: case_prod_beta Let_def)
qed simp

lemma data_answers_append:
  "length calls = length rs \<Longrightarrow> data_answers (calls @ calls') (rs @ rs') = data_answers calls rs @ data_answers calls' rs'"
  by (induction calls rs rule: data_answers.induct) auto

lemma data_answers_rcpts: "data_answers (map CallRcpt rcpts) rs = []"
  by (induction rcpts arbitrary: rs) (case_tac rs; simp)+

text \<open>
  C20: A message goes to its own recipients and to no one else. Whatever a client does in a session,
  finishing some transactions and giving up others, and however delivery answers, each finished message
  is handed over exactly once, in order, with the recipients named in its own transaction; nothing
  named for another message, or for one given up, is ever added. The client is answered for each
  message what the delivery of that message answered.
\<close>

theorem transactions_do_not_mix:
  "\<exists>rs. smtp_run (Some deliver) (concat (map calls_of ts)) (NewSession credentials) state =
      (rs, NewSession credentials, snd (deliver_all deliver ts state)) \<and>
    data_answers (concat (map calls_of ts)) rs = map (map_option (ErrWrap ''send'')) (fst (deliver_all deliver ts state))"
proof (induction ts arbitrary: state)
  case Nil
  then show ?case by simp
next
  case (Cons t ts)
  let ?s = "NewSession credentials"
  have session: "smtp_Reset (?s\<lparr>se_from := f, se_to := se_to ?s @ rcpts\<rparr>) = ?s" for f rcpts
    by (simp add: smtp_Reset_def NewSession_def)
  show ?case
  proof (cases t)
    case (Submitted f rcpts raw)
    obtain r state1 where r: "deliver raw rcpts state = (r, state1)" by fastforce
    obtain rs where rs: "smtp_run (Some deliver) (concat (map calls_of ts)) ?s state1 =
        (rs, ?s, snd (deliver_all deliver ts state1))"
      "data_answers (concat (map calls_of ts)) rs = map (map_option (ErrWrap ''send'')) (fst (deliver_all deliver ts state1))"
      using Cons.IH [of state1] by blast
    have one: "smtp_run (Some deliver) (calls_of t) ?s state =
        (None # map (\<lambda>_. None) rcpts @ [map_option (ErrWrap ''send'') r, None], ?s, state1)"
      using r by (cases r)
        (simp_all add: Submitted smtp_run_append smtp_run_rcpts smtp_Mail_def smtp_Data_def smtp_Reset_def NewSession_def)
    have "data_answers (calls_of t) (None # map (\<lambda>_. None) rcpts @ [map_option (ErrWrap ''send'') r, None]) =
        [map_option (ErrWrap ''send'') r]"
      by (simp add: Submitted data_answers_append data_answers_rcpts)
    moreover have "length (calls_of t) = length (None # map (\<lambda>_. None) rcpts @ [map_option (ErrWrap ''send'') r, None])"
      by (simp add: Submitted)
    ultimately show ?thesis using rs r one
      by (intro exI [of _ "(None # map (\<lambda>_. None) rcpts @ [map_option (ErrWrap ''send'') r, None]) @ rs"])
         (simp add: Submitted smtp_run_append data_answers_append case_prod_beta Let_def del: calls_of.simps append_Cons)
  next
    case (GivenUp f rcpts)
    obtain rs where rs: "smtp_run (Some deliver) (concat (map calls_of ts)) ?s state =
        (rs, ?s, snd (deliver_all deliver ts state))"
      "data_answers (concat (map calls_of ts)) rs = map (map_option (ErrWrap ''send'')) (fst (deliver_all deliver ts state))"
      using Cons.IH [of state] by blast
    have one: "smtp_run (Some deliver) (calls_of t) ?s state = (None # map (\<lambda>_. None) rcpts @ [None], ?s, state)"
      by (simp add: GivenUp smtp_run_append smtp_run_rcpts smtp_Mail_def smtp_Reset_def NewSession_def)
    have "data_answers (calls_of t) (None # map (\<lambda>_. None) rcpts @ [None]) = []"
      by (simp add: GivenUp data_answers_append data_answers_rcpts)
    moreover have "length (calls_of t) = length (None # map (\<lambda>_. None) rcpts @ [None])"
      by (simp add: GivenUp)
    ultimately show ?thesis using rs one
      by (intro exI [of _ "(None # map (\<lambda>_. None) rcpts @ [None]) @ rs"])
         (simp add: GivenUp smtp_run_append data_answers_append case_prod_beta Let_def del: calls_of.simps append_Cons)
  qed
qed

section \<open>Nothing of a connection is lost\<close>

definition still_to_read :: "replayConn \<Rightarrow> bytes" where
  "still_to_read c = (if rp_replayed c then [] else [rp_first c]) @ rp_rest c"

lemma replay_Read_whole:
  "replay_Read n k c = (b, c') \<Longrightarrow> b @ still_to_read c' = still_to_read c"
  by (auto simp: replay_Read_def still_to_read_def conn_Read_def split: if_splits)

lemma replay_reads_whole:
  "replay_reads reads c = (b, c') \<Longrightarrow> b @ still_to_read c' = still_to_read c"
proof (induction reads arbitrary: c b)
  case (Cons nk reads)
  obtain n k where nk: "nk = (n, k)" by (cases nk)
  obtain b1 c1 where 1: "replay_Read n k c = (b1, c1)" by fastforce
  obtain b2 where 2: "replay_reads reads c1 = (b2, c')" and b: "b = b1 @ b2"
    using Cons.prems 1 by (auto simp: nk split: prod.splits)
  have "b1 @ b2 @ still_to_read c' = b1 @ still_to_read c1" using Cons.IH [OF 2] by simp
  also have "\<dots> = still_to_read c" by (rule replay_Read_whole [OF 1])
  finally show ?case using b by simp
qed simp

text \<open>
  C40: One port serves both kinds of client and takes nothing from either. A connection goes to TLS
  exactly when its first byte came before the greeting was due and is that of a TLS handshake, and
  whatever reads are then made of it, of any sizes and with any amounts arriving, what they return is
  the client's stream from its first byte on, with the rest still to come.
\<close>

theorem classified_connection_is_whole:
  assumes "classify c = Inr ready" and "tn_first_read c = None \<Longrightarrow> tn_data c \<noteq> []"
  shows "case ready of
      WholeConn b \<Rightarrow> b = tn_data c \<and> tn_first_read c \<noteq> None
    | PlainConn r \<Rightarrow> tn_first_read c = None \<and> hd (tn_data c) \<noteq> tlsRecord \<and>
        (\<forall>reads. fst (replay_reads reads r) @ still_to_read (snd (replay_reads reads r)) = tn_data c)
    | TLSConn r \<Rightarrow> tn_first_read c = None \<and> hd (tn_data c) = tlsRecord \<and>
        (\<forall>reads. fst (replay_reads reads r) @ still_to_read (snd (replay_reads reads r)) = tn_data c)"
proof -
  have whole: "fst (replay_reads reads r) @ still_to_read (snd (replay_reads reads r)) = tn_data c"
    if "r = \<lparr>rp_rest = tl (tn_data c), rp_first = hd (tn_data c), rp_replayed = False\<rparr>" "tn_first_read c = None"
    for reads r
  proof -
    have "still_to_read r = tn_data c" using that assms(2) by (simp add: still_to_read_def)
    then show ?thesis using replay_reads_whole [of reads r] by (metis prod.collapse)
  qed
  show ?thesis
    using assms(1) whole by (auto simp: classify_def Let_def split: option.splits if_splits)
qed

theorem classified_connection_is_whole_witness:
  "\<exists>r. classify \<lparr>tn_data = [0x16, 3, 1, 0], tn_first_read = None, tn_set_deadline = None, tn_clear_deadline = None\<rparr> =
      Inr (TLSConn r) \<and>
    fst (replay_reads [(0, 1), (4, 4), (2, 9)] r) @ still_to_read (snd (replay_reads [(0, 1), (4, 4), (2, 9)] r)) =
      [0x16, 3, 1, 0]"
proof -
  let ?c = "\<lparr>tn_data = [0x16, 3, 1, 0], tn_first_read = None, tn_set_deadline = None, tn_clear_deadline = None\<rparr>"
  obtain r where r: "classify ?c = Inr (TLSConn r)" by (simp add: classify_def tlsRecord_def Let_def)
  from classified_connection_is_whole [OF r] have
    "\<forall>reads. fst (replay_reads reads r) @ still_to_read (snd (replay_reads reads r)) = tn_data ?c" by simp
  from spec [OF this, of "[(0, 1), (4, 4), (2, 9)]"]
  show ?thesis using r by (intro exI [of _ r]) (simp del: replay_reads.simps)
qed

section \<open>The protocol log does not depend on how Gluon writes\<close>

lemma protocol_lines_none: "10 \<notin> set pending \<Longrightarrow> protocol_lines pending = ([], pending)"
  by (simp add: protocol_lines.simps)

lemma protocol_lines_line:
  "10 \<notin> set line \<Longrightarrow> protocol_lines (line @ 10 # rest) =
     (log_line line @ fst (protocol_lines rest), snd (protocol_lines rest))"
proof -
  assume "10 \<notin> set line"
  then have "takeWhile (\<lambda>b. b \<noteq> 10) (line @ 10 # rest) = line"
    by (subst takeWhile_append2) auto
  then show ?thesis
    by (subst protocol_lines.simps) (simp add: Let_def case_prod_beta)
qed

lemma protocol_lines_append:
  "protocol_lines (p @ q) =
     (fst (protocol_lines p) @ fst (protocol_lines (snd (protocol_lines p) @ q)),
      snd (protocol_lines (snd (protocol_lines p) @ q)))"
proof (induction p rule: length_induct)
  case (1 p)
  show ?case
  proof (cases "10 \<in> set p")
    case True
    then obtain line rest where split: "p = line @ 10 # rest" "10 \<notin> set line"
      by (meson split_list_first)
    then have "length rest < length p" by simp
    then show ?thesis
      using 1 [rule_format, of rest] by (simp add: split(1) protocol_lines_line [OF split(2)])
  next
    case False
    then show ?thesis by (simp add: protocol_lines_none)
  qed
qed

text \<open>Pieces of any sizes log the lines of the whole conversation.\<close>

lemma protocol_writes_whole:
  "10 \<notin> set pending \<Longrightarrow> protocol_writes pending payloads = protocol_lines (pending @ concat payloads)"
proof (induction payloads arbitrary: pending)
  case Nil
  then show ?case by (simp add: protocol_lines_none)
next
  case (Cons payload payloads)
  have held: "10 \<notin> set (snd (protocol_lines b))" for b
  proof (induction b rule: length_induct)
    case (1 b)
    show ?case
    proof (cases "10 \<in> set b")
      case True
      then obtain line rest where split: "b = line @ 10 # rest" "10 \<notin> set line"
        by (meson split_list_first)
      then show ?thesis using 1 [rule_format, of rest] by (simp add: protocol_lines_line)
    qed (simp add: protocol_lines_none)
  qed
  show ?case
    using Cons.IH [OF held, of "pending @ payload"] protocol_lines_append [of "pending @ payload" "concat payloads"]
    by (simp add: protocol_Write_def case_prod_beta Let_def)
qed

end
