(* ===== verification/Control.thy ===== *)
theory Control
  imports Stateful
begin

text \<open>
  \<open>internal/control\<close>: the channel to the parent process. A connection is what can still be read from
  it, with the error that comes after, and a writer that may accept only part of what it is given.
  The JSON codec, the deadlines of the transport and the state of the context are parameters. The
  handlers the daemon installs are the events they are called with, in order.
\<close>

section \<open>Messages\<close>

record MailClient =
  lc_Username :: string
  lc_Password :: string

record Session =
  ss_AccountID :: string
  ss_Addresses :: "string list"
  ss_BackendSession :: bytes
  ss_MailClient :: MailClient

record BackendSession =
  be_Token :: string
  be_EncryptionPrivateKey :: string
  be_EncryptionPublicKey :: string

record Ready =
  rd_IMAPAddress :: string
  rd_SMTPAddress :: string
  rd_StartTLS :: bool
  rd_Certificate :: string

record ControlError =
  cr_Code :: string

record SessionUpdate =
  sd_BackendSession :: bytes

record SyncStarted =
  sn_Total :: int

record SyncProgress =
  sg_Downloaded :: int
  sg_Total :: int
  sg_Percent :: int

record SyncFinished =
  sf_Downloaded :: int
  sf_Total :: int
  sf_Code :: string

record Message =
  m_Type :: string
  m_RequestID :: string
  m_Session :: "Session option"
  m_Ready :: "Ready option"
  m_Update :: "SessionUpdate option"
  m_Error :: "ControlError option"
  m_Started :: "SyncStarted option"
  m_Progress :: "SyncProgress option"
  m_Finished :: "SyncFinished option"

definition no_message :: Message where
  "no_message = \<lparr>m_Type = [], m_RequestID = [], m_Session = None, m_Ready = None, m_Update = None,
     m_Error = None, m_Started = None, m_Progress = None, m_Finished = None\<rparr>"

definition startSessionType :: string where "startSessionType = ''start_session''"
definition readyType :: string where "readyType = ''ready''"
definition sessionUpdateType :: string where "sessionUpdateType = ''session_updated''"
definition resyncType :: string where "resyncType = ''resync''"
definition syncStartedType :: string where "syncStartedType = ''sync_started''"
definition syncProgressType :: string where "syncProgressType = ''sync_progress''"
definition syncFinishedType :: string where "syncFinishedType = ''sync_finished''"
definition errorType :: string where "errorType = ''error''"
definition malformedFrameCode :: string where "malformedFrameCode = ''malformed_frame''"
definition badSessionUpdateCode :: string where "badSessionUpdateCode = ''bad_session_update''"

section \<open>The connection\<close>

text \<open>
  \<open>cn_in\<close> is what the parent will have sent and \<open>cn_end\<close> the error reading past it gives. What each
  call of the writer accepts, and whether it fails, is \<open>ct_Write\<close>, by the count of the call.
\<close>

record conn =
  cn_in :: bytes
  cn_end :: err
  cn_out :: bytes
  cn_writes :: nat

record transport =
  ct_Write :: "nat \<Rightarrow> bytes \<Rightarrow> nat \<times> err option"
  ct_hasSetter :: bool
  ct_SetDeadline :: "err option"
  ct_Marshal :: "Message \<Rightarrow> err + bytes"
  ct_Decode :: "bytes \<Rightarrow> err + Message \<times> bytes"
  ct_DecodeAny :: "bytes \<Rightarrow> err + bytes"
  ct_UnmarshalBackend :: "bytes \<Rightarrow> err + BackendSession"
  ct_Valid :: "bytes \<Rightarrow> bool"

text \<open>\<open>io.ReadFull\<close>: nothing read gives the error itself, a part of it an unexpected end.\<close>

definition ReadFull :: "nat \<Rightarrow> (conn, bytes) op" where
  "ReadFull n c =
     (if n \<le> length (cn_in c) then (Inr (take n (cn_in c)), c\<lparr>cn_in := drop n (cn_in c)\<rparr>)
      else (Inl (if cn_in c \<noteq> [] \<and> cn_end c = ErrSentinel IoEOF then ErrSentinel IoErrUnexpectedEOF else cn_end c),
            c\<lparr>cn_in := []\<rparr>))"

section \<open>Frames\<close>

definition MaxFrameSize :: nat where
  "MaxFrameSize = 2 ^ 20"

definition be32 :: "nat \<Rightarrow> bytes" where
  "be32 n = [of_nat (n div 2 ^ 24), of_nat (n div 2 ^ 16), of_nat (n div 2 ^ 8), of_nat n]"

definition uint32 :: "bytes \<Rightarrow> nat" where
  "uint32 b = unat (b ! 0) * 2 ^ 24 + unat (b ! 1) * 2 ^ 16 + unat (b ! 2) * 2 ^ 8 + unat (b ! 3)"

text \<open>The flag says whether the context has a deadline.\<close>

definition setDeadline :: "transport \<Rightarrow> bool \<Rightarrow> err option" where
  "setDeadline T hasDeadline =
     (if \<not> ct_hasSetter T then None
      else if \<not> hasDeadline then None
      else case ct_SetDeadline T of
          None \<Rightarrow> None
        | Some e \<Rightarrow> if errors_is e OsErrNoDeadline then None else Some e)"

definition readFrame :: "transport \<Rightarrow> bool \<Rightarrow> (conn, bytes) op" where
  "readFrame T hasDeadline c =
     (case setDeadline T hasDeadline of
       Some e \<Rightarrow> (Inl e, c)
     | None \<Rightarrow>
         bind_st (ReadFull 4 c) (\<lambda>header c.
         let frame_size = uint32 header
         in if frame_size = 0 \<or> frame_size > MaxFrameSize then (Inl (ErrNew ''invalid control frame size''), c)
            else ReadFull frame_size c))"

text \<open>A write that accepts nothing ends the loop, so every turn sends something.\<close>

function writeAll :: "transport \<Rightarrow> bytes \<Rightarrow> conn \<Rightarrow> err option \<times> conn" where
  "writeAll T data c =
     (if length data = 0 then (None, c)
      else
        let (n, e) = ct_Write T (cn_writes c) data;
            n = min n (length data);
            c = c\<lparr>cn_out := cn_out c @ take n data, cn_writes := cn_writes c + 1\<rparr>
        in case e of
            Some e \<Rightarrow> (Some e, c)
          | None \<Rightarrow> if n = 0 then (Some (ErrSentinel IoErrShortWrite), c) else writeAll T (drop n data) c)"
  by pat_completeness auto
termination
  by (relation "measure (\<lambda>(T, data, c). length data)") auto

declare writeAll.simps [simp del]

definition writeFrame :: "transport \<Rightarrow> bool \<Rightarrow> bytes \<Rightarrow> conn \<Rightarrow> err option \<times> conn" where
  "writeFrame T hasDeadline payload c =
     (if length payload = 0 \<or> length payload > MaxFrameSize then (Some (ErrNew ''invalid control frame size''), c)
      else case setDeadline T hasDeadline of
          Some e \<Rightarrow> (Some e, c)
        | None \<Rightarrow>
            (case writeAll T (be32 (length payload)) c of
              (Some e, c) \<Rightarrow> (Some e, c)
            | (None, c) \<Rightarrow> writeAll T payload c))"

definition ensureEOF :: "transport \<Rightarrow> bytes \<Rightarrow> err option" where
  "ensureEOF T rest =
     (case ct_DecodeAny T rest of
       Inr _ \<Rightarrow> Some (ErrNew ''control message contains multiple JSON values'')
     | Inl e \<Rightarrow> if errors_is e IoEOF then None else Some (ErrWrap ''decode control message'' e))"

definition ReadMessage :: "transport \<Rightarrow> bool \<Rightarrow> (conn, Message) op" where
  "ReadMessage T hasDeadline c =
     bind_st (readFrame T hasDeadline c) (\<lambda>frame c.
       case ct_Decode T frame of
         Inl e \<Rightarrow> (Inl (ErrWrap ''decode control message'' e), c)
       | Inr (decoded, rest) \<Rightarrow>
           (case ensureEOF T rest of
             Some e \<Rightarrow> (Inl e, c)
           | None \<Rightarrow> if m_Type decoded = [] then (Inl (ErrNew ''control message type is required''), c)
                      else (Inr decoded, c)))"

definition WriteMessage :: "transport \<Rightarrow> bool \<Rightarrow> Message \<Rightarrow> conn \<Rightarrow> err option \<times> conn" where
  "WriteMessage T hasDeadline message c =
     (case ct_Marshal T message of
       Inl e \<Rightarrow> (Some (ErrWrap ''encode control message'' e), c)
     | Inr payload \<Rightarrow> writeFrame T hasDeadline payload c)"

section \<open>The client\<close>

definition validateSession :: "transport \<Rightarrow> Session \<Rightarrow> err option" where
  "validateSession T session =
     (if ss_AccountID session = [] then Some (ErrNew ''start session requires account_id'')
      else if length (ss_Addresses session) = 0 \<or> ss_Addresses session ! 0 = []
        then Some (ErrNew ''start session requires an address'')
      else if length (ss_BackendSession session) = 0 \<or> \<not> ct_Valid T (ss_BackendSession session)
        then Some (ErrNew ''start session requires valid backend_session'')
      else if lc_Username (ss_MailClient session) = [] \<or> lc_Password (ss_MailClient session) = []
        then Some (ErrNew ''start session requires local mail credentials'')
      else None)"

text \<open>
  How the endpoint is dialed: a socket of the file system, or on Windows a named pipe, which is told from
  other names before anything is dialed.
\<close>

definition dial_unix :: "(string \<Rightarrow> string \<Rightarrow> err option) \<Rightarrow> string \<Rightarrow> err option" where
  "dial_unix net_dial endpoint = net_dial ''unix'' endpoint"

definition pipe_prefix :: string where
  "pipe_prefix = [CHR 0x5C, CHR 0x5C, CHR ''.'', CHR 0x5C] @ ''pipe'' @ [CHR 0x5C]"

definition dial_windows :: "(string \<Rightarrow> err option) \<Rightarrow> string \<Rightarrow> err option" where
  "dial_windows dial_pipe endpoint =
     (if take (length pipe_prefix) endpoint \<noteq> pipe_prefix then Some (ErrNew ''control pipe must begin with the pipe prefix'')
      else dial_pipe endpoint)"

text \<open>\<open>dial\<close> answers an error or a connection. A closed connection reads nothing more.\<close>

definition Connect :: "(string \<Rightarrow> err option) \<Rightarrow> string \<Rightarrow> err option" where
  "Connect dial endpoint = map_option (ErrWrap ''dial control endpoint'') (dial endpoint)"

definition client_Close :: "conn \<Rightarrow> conn" where
  "client_Close c = c\<lparr>cn_in := [], cn_end := ErrExt ''use of closed network connection''\<rparr>"

text \<open>The context of the handshake always has a deadline: its own or the startup timeout.\<close>

definition ReceiveStartSession :: "transport \<Rightarrow> (conn, Session) op" where
  "ReceiveStartSession T c =
     (case ReadMessage T True c of
       (Inl e, c) \<Rightarrow> (Inl (ErrWrap ''read start session'' e), c)
     | (Inr message, c) \<Rightarrow>
         if m_Type message \<noteq> startSessionType then (Inl (ErrNew ''expected start_session control message''), c)
         else case m_Session message of
             None \<Rightarrow> (Inl (ErrNew ''expected start_session control message''), c)
           | Some session \<Rightarrow>
               (case validateSession T session of Some e \<Rightarrow> (Inl e, c) | None \<Rightarrow> (Inr session, c)))"

definition client_send :: "transport \<Rightarrow> Message \<Rightarrow> conn \<Rightarrow> err option \<times> conn" where
  "client_send T message c = WriteMessage T False message c"

definition SendReady :: "transport \<Rightarrow> Ready \<Rightarrow> conn \<Rightarrow> err option \<times> conn" where
  "SendReady T ready c =
     (if rd_IMAPAddress ready = [] \<or> rd_SMTPAddress ready = []
      then (Some (ErrNew ''ready requires IMAP and SMTP addresses''), c)
      else client_send T (no_message\<lparr>m_Type := readyType, m_Ready := Some ready\<rparr>) c)"

definition SendSyncStarted :: "transport \<Rightarrow> SyncStarted \<Rightarrow> conn \<Rightarrow> err option \<times> conn" where
  "SendSyncStarted T started c =
     (if sn_Total started \<le> 0 then (Some (ErrNew ''sync started requires a total''), c)
      else client_send T (no_message\<lparr>m_Type := syncStartedType, m_Started := Some started\<rparr>) c)"

definition SendSyncProgress :: "transport \<Rightarrow> SyncProgress \<Rightarrow> conn \<Rightarrow> err option \<times> conn" where
  "SendSyncProgress T pr c =
     (if sg_Total pr \<le> 0 then (Some (ErrNew ''sync progress requires a total''), c)
      else client_send T (no_message\<lparr>m_Type := syncProgressType, m_Progress := Some pr\<rparr>) c)"

definition SendSyncFinished :: "transport \<Rightarrow> SyncFinished \<Rightarrow> conn \<Rightarrow> err option \<times> conn" where
  "SendSyncFinished T finished c =
     client_send T (no_message\<lparr>m_Type := syncFinishedType, m_Finished := Some finished\<rparr>) c"

definition SendError :: "transport \<Rightarrow> string \<Rightarrow> string \<Rightarrow> conn \<Rightarrow> err option \<times> conn" where
  "SendError T requestID code c =
     (if code = [] then (Some (ErrNew ''control error requires a code''), c)
      else client_send T (no_message\<lparr>m_Type := errorType, m_RequestID := requestID,
             m_Error := Some \<lparr>cr_Code = code\<rparr>\<rparr>) c)"

definition session_Backend :: "transport \<Rightarrow> Session \<Rightarrow> err + BackendSession" where
  "session_Backend T session = wrap_err ''decode backend session'' (ct_UnmarshalBackend T (ss_BackendSession session))"

definition update_Backend :: "transport \<Rightarrow> SessionUpdate \<Rightarrow> err + BackendSession" where
  "update_Backend T update = wrap_err ''decode backend session'' (ct_UnmarshalBackend T (sd_BackendSession update))"

section \<open>Serving the parent\<close>

datatype control_event = OnResync | OnSessionUpdate BackendSession

definition isDisconnect :: "err \<Rightarrow> bool" where
  "isDisconnect e \<longleftrightarrow> errors_is e IoEOF \<or> errors_is e IoErrUnexpectedEOF"

lemma ReadFull_shrinks: "ReadFull n c = (Inr bs, c') \<Longrightarrow> length (cn_in c') + n = length (cn_in c)"
  by (auto simp: ReadFull_def split: if_splits)

lemma readFrame_shrinks: "readFrame T d c = (Inr frame, c') \<Longrightarrow> length (cn_in c') < length (cn_in c)"
  by (auto simp: readFrame_def Let_def split: option.splits if_splits dest!: ReadFull_shrinks)

lemma ReadMessage_shrinks: "ReadMessage T d c = (Inr m, c') \<Longrightarrow> length (cn_in c') < length (cn_in c)"
proof -
  assume "ReadMessage T d c = (Inr m, c')"
  then obtain frame c1 where frame: "readFrame T d c = (Inr frame, c1)"
    and rest: "(case ct_Decode T frame of
         Inl e \<Rightarrow> (Inl (ErrWrap ''decode control message'' e), c1)
       | Inr (decoded, rest) \<Rightarrow>
           (case ensureEOF T rest of
             Some e \<Rightarrow> (Inl e, c1)
           | None \<Rightarrow> if m_Type decoded = [] then (Inl (ErrNew ''control message type is required''), c1)
                      else (Inr decoded, c1))) = (Inr m, c')"
    by (auto simp: ReadMessage_def)
  then have "c' = c1" by (simp split: sum.splits prod.splits option.splits if_splits)
  then show ?thesis using readFrame_shrinks [OF frame] by simp
qed

text \<open>
  \<open>Serve\<close>: \<open>d\<close> says whether the context has a deadline, \<open>ended k\<close> is the error of the context at its \<open>k\<close>-th look, \<open>resync\<close> and \<open>update\<close> say which
  handlers are set. A message a handler is not set for, or of another type, is passed over.
\<close>

function Serve :: "transport \<Rightarrow> bool \<Rightarrow> (nat \<Rightarrow> err option) \<Rightarrow> bool \<Rightarrow> bool \<Rightarrow> nat \<Rightarrow> control_event list \<Rightarrow> conn \<Rightarrow>
    err \<times> control_event list \<times> conn" where
  "Serve T d ended resync update k evs c =
     (case ended k of
       Some e \<Rightarrow> (e, evs, c)
     | None \<Rightarrow>
         (case ReadMessage T d c of
           (Inl e, c) \<Rightarrow>
             (ErrWrap ''read control message'' e, evs,
              (if \<not> isDisconnect e \<and> ended (k + 1) = None then snd (SendError T [] malformedFrameCode c) else c))
         | (Inr message, c) \<Rightarrow>
             if m_Type message = resyncType then
               Serve T d ended resync update (k + 1) (if resync then evs @ [OnResync] else evs) c
             else if m_Type message = sessionUpdateType then
               (if \<not> update \<or> m_Update message = None then Serve T d ended resync update (k + 1) evs c
                else case update_Backend T (the (m_Update message)) of
                    Inl e \<Rightarrow> (ErrWrap ''decode session update'' e, evs, snd (SendError T [] badSessionUpdateCode c))
                  | Inr backend \<Rightarrow> Serve T d ended resync update (k + 1) (evs @ [OnSessionUpdate backend]) c)
             else Serve T d ended resync update (k + 1) evs c))"
  by pat_completeness auto
termination
  by (relation "measure (\<lambda>(T, d, ended, resync, update, k, evs, c). length (cn_in c))")
     (auto dest: ReadMessage_shrinks [OF sym])

declare Serve.simps [simp del]

end
