(* ===== verification/ControlProps.thy ===== *)
theory ControlProps
  imports Control
begin

text \<open>
  The control channel: what the framing carries over any connection, whatever pieces the writer
  accepts, and how the bridge reacts to what its parent sends.
\<close>

section \<open>Frames\<close>

definition frame_of :: "bytes \<Rightarrow> bytes" where
  "frame_of payload = be32 (length payload) @ payload"

definition frameable :: "bytes \<Rightarrow> bool" where
  "frameable payload \<longleftrightarrow> payload \<noteq> [] \<and> length payload \<le> MaxFrameSize"

lemma length_be32 [simp]: "length (be32 n) = 4"
  by (simp add: be32_def)

lemma unat_of_nat_byte: "unat (of_nat n :: byte) = n mod 256"
  by (simp add: unat_of_nat)

lemma uint32_be32: "n < 2 ^ 32 \<Longrightarrow> uint32 (be32 n) = n"
proof -
  assume "n < 2 ^ 32"
  have d1: "n div 65536 = n div 256 div 256" by (simp add: div_mult2_eq [symmetric])
  have d2: "n div 16777216 = n div 256 div 256 div 256" by (simp add: div_mult2_eq [symmetric])
  have top: "n div 256 div 256 div 256 < 256"
    using \<open>n < 2 ^ 32\<close> d2 by (simp add: less_mult_imp_div_less)
  have "uint32 (be32 n) = (n div 16777216) mod 256 * 16777216 + (n div 65536) mod 256 * 65536
      + (n div 256) mod 256 * 256 + n mod 256"
    by (simp add: uint32_def be32_def unat_of_nat_byte)
  also have "\<dots> = n"
    unfolding d1 d2
    using div_mult_mod_eq [of n 256] div_mult_mod_eq [of "n div 256" 256]
      div_mult_mod_eq [of "n div 256 div 256" 256] mod_less [OF top]
    by linarith
  finally show ?thesis .
qed

lemma setDeadline_none [simp]: "setDeadline T False = None"
  by (simp add: setDeadline_def)

lemma writeAll_Nil [simp]: "writeAll T [] c = (None, c)"
  by (simp add: writeAll.simps)

definition accepted :: "transport \<Rightarrow> bytes \<Rightarrow> conn \<Rightarrow> nat" where
  "accepted T data c = min (fst (ct_Write T (cn_writes c) data)) (length data)"

definition after_write :: "transport \<Rightarrow> bytes \<Rightarrow> conn \<Rightarrow> conn" where
  "after_write T data c =
     c\<lparr>cn_out := cn_out c @ take (accepted T data c) data, cn_writes := cn_writes c + 1\<rparr>"

lemma writeAll_step:
  "data \<noteq> [] \<Longrightarrow> writeAll T data c =
     (case snd (ct_Write T (cn_writes c) data) of
        Some e \<Rightarrow> (Some e, after_write T data c)
      | None \<Rightarrow> if accepted T data c = 0 then (Some (ErrSentinel IoErrShortWrite), after_write T data c)
                 else writeAll T (drop (accepted T data c) data) (after_write T data c))"
  by (subst writeAll.simps) (simp only: Let_def case_prod_beta length_0_conv if_False
        accepted_def [symmetric] after_write_def [symmetric])

lemma writeAll_cases [case_names Nil stop more]:
  assumes "data = [] \<Longrightarrow> thesis"
    and "\<And>e. data \<noteq> [] \<Longrightarrow> writeAll T data c = (Some e, after_write T data c) \<Longrightarrow> thesis"
    and "data \<noteq> [] \<Longrightarrow> accepted T data c \<noteq> 0 \<Longrightarrow>
      writeAll T data c = writeAll T (drop (accepted T data c) data) (after_write T data c) \<Longrightarrow> thesis"
  shows thesis
proof (cases "data = []")
  case True
  then show ?thesis by (rule assms(1))
next
  case False
  then show ?thesis
    using assms(2,3) writeAll_step [OF False, of T c]
    by (cases "snd (ct_Write T (cn_writes c) data)"; cases "accepted T data c = 0") auto
qed

lemma writeAll_None:
  "writeAll T data c = (None, c') \<Longrightarrow>
     cn_out c' = cn_out c @ data \<and> cn_in c' = cn_in c \<and> cn_end c' = cn_end c"
proof (induction data arbitrary: c rule: length_induct)
  case (1 data)
  show ?case
  proof (cases rule: writeAll_cases [where data = data and T = T and c = c])
    case more
    then have "length (drop (accepted T data c) data) < length data" by simp
    with 1 more show ?thesis by (fastforce simp: after_write_def)
  qed (use "1.prems" in simp_all)
qed

text \<open>Whatever happens, what went out is a prefix of the data.\<close>

lemma writeAll_prefix:
  "\<exists>k \<le> length data. cn_out (snd (writeAll T data c)) = cn_out c @ take k data"
proof (induction data arbitrary: c rule: length_induct)
  case (1 data)
  have k: "accepted T data c \<le> length data" by (simp add: accepted_def)
  show ?case
  proof (cases rule: writeAll_cases [where data = data and T = T and c = c])
    case more
    then have "length (drop (accepted T data c) data) < length data" by simp
    then obtain j where j: "j \<le> length (drop (accepted T data c) data)"
      and "cn_out (snd (writeAll T data c)) =
        cn_out (after_write T data c) @ take j (drop (accepted T data c) data)"
      using 1 more(3) by metis
    then show ?thesis using k
      by (intro exI [of _ "accepted T data c + j"]) (simp add: after_write_def take_add)
  qed (use k in \<open>auto simp: after_write_def\<close>)
qed

lemma writeFrame_None:
  assumes "writeFrame T d payload c = (None, c')"
  shows "frameable payload" and "cn_out c' = cn_out c @ frame_of payload"
    and "cn_in c' = cn_in c" and "cn_end c' = cn_end c"
proof -
  obtain c1 where "frameable payload" "writeAll T (be32 (length payload)) c = (None, c1)"
    "writeAll T payload c1 = (None, c')"
    using assms by (auto simp: writeFrame_def frameable_def split: if_splits option.splits prod.splits)
  then show "frameable payload" and "cn_out c' = cn_out c @ frame_of payload"
    and "cn_in c' = cn_in c" and "cn_end c' = cn_end c"
    using writeAll_None [of T "be32 (length payload)" c c1] writeAll_None [of T payload c1 c']
    by (auto simp: frame_of_def)
qed

text \<open>A writer that takes what it can of each piece, but always something, delivers the frame.\<close>

definition progressing :: "transport \<Rightarrow> bool" where
  "progressing T \<longleftrightarrow> (\<forall>k b. b \<noteq> [] \<longrightarrow> fst (ct_Write T k b) \<noteq> 0 \<and> snd (ct_Write T k b) = None)"

lemma writeAll_delivers: "progressing T \<Longrightarrow> fst (writeAll T data c) = None"
proof (induction data arbitrary: c rule: length_induct)
  case (1 data)
  show ?case
  proof (cases "data = []")
    case False
    then have "accepted T data c \<noteq> 0" and "snd (ct_Write T (cn_writes c) data) = None"
      using \<open>progressing T\<close> by (simp_all add: progressing_def accepted_def)
    moreover from this have "length (drop (accepted T data c) data) < length data" using False by simp
    ultimately show ?thesis using 1 False by (simp add: writeAll_step)
  qed simp
qed

lemma writeFrame_delivers:
  assumes "progressing T" and "frameable payload"
  shows "\<exists>c'. writeFrame T False payload c = (None, c') \<and> cn_out c' = cn_out c @ frame_of payload
    \<and> cn_in c' = cn_in c \<and> cn_end c' = cn_end c"
proof -
  have "fst (writeFrame T False payload c) = None"
    using assms writeAll_delivers [OF assms(1)]
    by (simp add: writeFrame_def frameable_def split: prod.splits option.splits)
       (metis fst_conv option.distinct(1))
  then obtain c' where "writeFrame T False payload c = (None, c')" by (metis prod.collapse)
  then show ?thesis using writeFrame_None [of T False payload c c'] by blast
qed

lemma ReadFull_append:
  "length p = n \<Longrightarrow> cn_in c = p @ rest \<Longrightarrow> ReadFull n c = (Inr p, c\<lparr>cn_in := rest\<rparr>)"
  by (simp add: ReadFull_def)

lemma readFrame_frame:
  assumes "frameable payload" and "cn_in c = frame_of payload @ rest" and "setDeadline T d = None"
  shows "readFrame T d c = (Inr payload, c\<lparr>cn_in := rest\<rparr>)"
proof -
  have "length payload < 2 ^ 32" using assms(1) by (simp add: frameable_def MaxFrameSize_def)
  then have size: "uint32 (be32 (length payload)) = length payload" by (rule uint32_be32)
  have header: "ReadFull 4 c = (Inr (be32 (length payload)), c\<lparr>cn_in := payload @ rest\<rparr>)"
    using assms(2) by (intro ReadFull_append) (simp_all add: frame_of_def)
  have body: "ReadFull (length payload) (c\<lparr>cn_in := payload @ rest\<rparr>) = (Inr payload, c\<lparr>cn_in := rest\<rparr>)"
    by (subst ReadFull_append [of payload _ _ rest]) simp_all
  show ?thesis
    using assms(1,3) by (simp add: readFrame_def header size body frameable_def Let_def)
qed

section \<open>Messages\<close>

text \<open>
  The codec carries a message when what one side marshals is read back by the other, with nothing
  after it, and when a decoder at the end of its input says so.
\<close>

definition carries :: "transport \<Rightarrow> transport \<Rightarrow> Message \<Rightarrow> bool" where
  "carries P T m \<longleftrightarrow> m_Type m \<noteq> [] \<and> (\<forall>p. ct_Marshal P m = Inr p \<longrightarrow> ct_Decode T p = Inr (m, []))"

definition ends_with_EOF :: "transport \<Rightarrow> bool" where
  "ends_with_EOF T \<longleftrightarrow> ct_DecodeAny T [] = Inl (ErrSentinel IoEOF)"

lemma ReadMessage_frame:
  assumes "ct_Marshal P m = Inr p" and "carries P T m" and "ends_with_EOF T"
    and "frameable p" and "cn_in c = frame_of p @ rest" and "setDeadline T d = None"
  shows "ReadMessage T d c = (Inr m, c\<lparr>cn_in := rest\<rparr>)"
  using assms readFrame_frame [OF assms(4-6)]
  by (simp add: ReadMessage_def carries_def ends_with_EOF_def ensureEOF_def)

lemma WriteMessage_None:
  assumes "WriteMessage P d m c = (None, c')"
  obtains p where "ct_Marshal P m = Inr p" and "frameable p" and "cn_out c' = cn_out c @ frame_of p"
  using assms writeFrame_None [of P d _ c c']
  by (auto simp: WriteMessage_def split: sum.splits)

text \<open>A sender that sends one message after the other, until one cannot be sent.\<close>

fun send_each :: "('m \<Rightarrow> conn \<Rightarrow> err option \<times> conn) \<Rightarrow> 'm list \<Rightarrow> conn \<Rightarrow> err option \<times> conn" where
  "send_each send [] c = (None, c)"
| "send_each send (m # ms) c =
     (case send m c of
       (Some e, c) \<Rightarrow> (Some e, c)
     | (None, c) \<Rightarrow> send_each send ms c)"

text \<open>
  The contract of a channel between two processes: what one end has sent is bytes that the other end,
  wherever it finds them at the front of its stream, reads as that message. A loop of the reader whose
  turn takes in one message then takes in everything that was sent, in order.
\<close>

locale message_channel =
  fixes send :: "'m \<Rightarrow> conn \<Rightarrow> err option \<times> conn"
    and recv :: "(conn, 'm) op"
    and carried :: "'m \<Rightarrow> bool"
  assumes sent_is_read: "send m p = (None, p') \<Longrightarrow> carried m \<Longrightarrow>
      \<exists>bs. cn_out p' = cn_out p @ bs \<and> (\<forall>c rest. cn_in c = bs @ rest \<longrightarrow> recv c = (Inr m, c\<lparr>cn_in := rest\<rparr>))"
begin

lemma taken_in:
  assumes "send_each send ms p = (None, p')" and "\<forall>m \<in> set ms. carried m \<and> Q m"
    and turn: "\<And>m c c' a. recv c = (Inr m, c') \<Longrightarrow> Q m \<Longrightarrow> loop a c = loop (act m a) c'"
  shows "\<exists>sent. cn_out p' = cn_out p @ sent \<and>
    (\<forall>c rest a. cn_in c = sent @ rest \<longrightarrow> loop a c = loop (fold act ms a) (c\<lparr>cn_in := rest\<rparr>))"
  using assms(1,2)
proof (induction ms arbitrary: p)
  case Nil
  then show ?case by (auto intro: exI [of _ "[]"])
next
  case (Cons m ms)
  obtain p1 where m: "send m p = (None, p1)" and rest: "send_each send ms p1 = (None, p')"
    using Cons.prems(1) by (auto split: prod.splits option.splits)
  obtain bs where bs: "cn_out p1 = cn_out p @ bs"
    "\<And>c rest. cn_in c = bs @ rest \<Longrightarrow> recv c = (Inr m, c\<lparr>cn_in := rest\<rparr>)"
    using sent_is_read [OF m] Cons.prems(2) by auto
  obtain sent where sent: "cn_out p' = cn_out p1 @ sent"
    "\<And>c rest a. cn_in c = sent @ rest \<Longrightarrow> loop a c = loop (fold act ms a) (c\<lparr>cn_in := rest\<rparr>)"
    using Cons.IH [OF rest] Cons.prems(2) by auto
  have "loop a c = loop (fold act (m # ms) a) (c\<lparr>cn_in := rest\<rparr>)" if "cn_in c = (bs @ sent) @ rest" for c rest a
  proof -
    have "recv c = (Inr m, c\<lparr>cn_in := sent @ rest\<rparr>)" using that by (intro bs(2)) simp
    then have "loop a c = loop (act m a) (c\<lparr>cn_in := sent @ rest\<rparr>)" using turn Cons.prems(2) by simp
    then show ?thesis using sent(2) [of "c\<lparr>cn_in := sent @ rest\<rparr>" rest "act m a"] by simp
  qed
  then show ?case using bs(1) sent(1) by (intro exI [of _ "bs @ sent"]) auto
qed

end

text \<open>The control protocol is such a channel, in both directions, for the messages its codec carries.\<close>

interpretation ctl: message_channel "WriteMessage P d'" "ReadMessage T d"
  "\<lambda>m. carries P T m \<and> ends_with_EOF T \<and> setDeadline T d = None" for P d' T d
proof
  fix m p p'
  assume sent: "WriteMessage P d' m p = (None, p')"
    and carried: "carries P T m \<and> ends_with_EOF T \<and> setDeadline T d = None"
  obtain payload where "ct_Marshal P m = Inr payload" "frameable payload" "cn_out p' = cn_out p @ frame_of payload"
    using WriteMessage_None [OF sent] .
  then show "\<exists>bs. cn_out p' = cn_out p @ bs \<and>
      (\<forall>c rest. cn_in c = bs @ rest \<longrightarrow> ReadMessage T d c = (Inr m, c\<lparr>cn_in := rest\<rparr>))"
    using carried ReadMessage_frame by blast
qed

abbreviation parent_sends :: "transport \<Rightarrow> Message list \<Rightarrow> conn \<Rightarrow> err option \<times> conn" where
  "parent_sends P \<equiv> send_each (WriteMessage P False)"

text \<open>Over a writer that always accepts something, messages that fit a frame are all sent.\<close>

lemma parent_sends_delivers:
  assumes "progressing P" and "\<And>m. m \<in> set ms \<Longrightarrow> \<exists>p. ct_Marshal P m = Inr p \<and> frameable p"
  shows "\<exists>c'. parent_sends P ms c = (None, c')"
  using assms(2)
proof (induction ms arbitrary: c)
  case (Cons m ms)
  then obtain p where "ct_Marshal P m = Inr p" "frameable p" by force
  then obtain c1 where "WriteMessage P False m c = (None, c1)"
    using writeFrame_delivers [OF assms(1)] by (fastforce simp: WriteMessage_def)
  then show ?case using Cons by simp
qed simp

text \<open>What a message makes the bridge do, and whether it can be taken up.\<close>

definition events_of :: "transport \<Rightarrow> bool \<Rightarrow> bool \<Rightarrow> Message \<Rightarrow> control_event list" where
  "events_of T resync update m =
     (if m_Type m = resyncType then (if resync then [OnResync] else [])
      else if m_Type m = sessionUpdateType \<and> update then
        (case m_Update m of
          None \<Rightarrow> []
        | Some u \<Rightarrow> (case update_Backend T u of Inl _ \<Rightarrow> [] | Inr b \<Rightarrow> [OnSessionUpdate b]))
      else [])"

definition readable_update :: "transport \<Rightarrow> Message \<Rightarrow> bool" where
  "readable_update T m =
     (case m_Update m of None \<Rightarrow> True | Some u \<Rightarrow> is_ok (update_Backend T u))"

lemma Serve_message:
  assumes "ReadMessage T d c = (Inr m, c')" and "ended k = None" and "readable_update T m"
  shows "Serve T d ended resync update k evs c =
    Serve T d ended resync update (k + 1) (evs @ events_of T resync update m) c'"
  using assms
  by (subst Serve.simps)
     (auto simp: events_of_def readable_update_def is_ok_iff resyncType_def sessionUpdateType_def
       split: option.splits)

text \<open>Everything the parent has sent is dispatched, in its order, whatever follows.\<close>

lemma fold_events: "fold (\<lambda>m (k, evs). (k + 1, evs @ events_of T resync update m)) ms (k, evs) =
    (k + length ms, evs @ concat (map (events_of T resync update) ms))"
  by (induction ms arbitrary: k evs) simp_all

lemma Serve_parent_sends:
  assumes "parent_sends P ms p = (None, p')" and "setDeadline T d = None" and "ends_with_EOF T"
    and "\<And>m. m \<in> set ms \<Longrightarrow> carries P T m \<and> readable_update T m"
  obtains sent where "cn_out p' = cn_out p @ sent"
    and "\<And>c rest k evs. cn_in c = sent @ rest \<Longrightarrow>
      Serve T d (\<lambda>_. None) resync update k evs c =
      Serve T d (\<lambda>_. None) resync update (k + length ms)
        (evs @ concat (map (events_of T resync update) ms)) (c\<lparr>cn_in := rest\<rparr>)"
proof -
  let ?loop = "\<lambda>(k, evs). Serve T d (\<lambda>_. None) resync update k evs"
  let ?act = "\<lambda>m (k, evs). (k + 1, evs @ events_of T resync update m)"
  have turn: "?loop a c = ?loop (?act m a) c'"
    if "ReadMessage T d c = (Inr m, c')" "readable_update T m" for m c c' a
    using Serve_message [OF that(1) refl that(2)] by (cases a) simp
  have carried: "\<forall>m \<in> set ms. (carries P T m \<and> ends_with_EOF T \<and> setDeadline T d = None) \<and> readable_update T m"
    using assms(2-4) by blast
  obtain sent where sent: "cn_out p' = cn_out p @ sent"
    "\<forall>c rest a. cn_in c = sent @ rest \<longrightarrow> ?loop a c = ?loop (fold ?act ms a) (c\<lparr>cn_in := rest\<rparr>)"
    using ctl.taken_in [where loop = ?loop and act = ?act, OF assms(1) carried turn] by blast
  show ?thesis
  proof (rule that [OF sent(1)])
    show "Serve T d (\<lambda>_. None) resync update k evs c =
      Serve T d (\<lambda>_. None) resync update (k + length ms)
        (evs @ concat (map (events_of T resync update) ms)) (c\<lparr>cn_in := rest\<rparr>)"
      if "cn_in c = sent @ rest" for c rest k evs
      using sent(2) [rule_format, OF that, of "(k, evs)"] unfolding fold_events by simp
  qed
qed

section \<open>What the parent can rely on\<close>

text \<open>
  A connection that ends, or a header with a size no frame has, after everything the parent sent.
\<close>

lemma Serve_end:
  assumes "cn_in c = []" and "cn_end c = ErrSentinel IoEOF" and "setDeadline T d = None"
  shows "Serve T d (\<lambda>_. None) resync update k evs c =
    (ErrWrap ''read control message'' (ErrSentinel IoEOF), evs, c)"
  using assms
  by (subst Serve.simps)
     (simp add: ReadMessage_def readFrame_def ReadFull_def isDisconnect_def)

lemma Serve_bad_header:
  assumes "cn_in c = header @ rest" and "length header = 4"
    and "uint32 header = 0 \<or> uint32 header > MaxFrameSize" and "setDeadline T d = None"
  shows "Serve T d (\<lambda>_. None) resync update k evs c =
    (ErrWrap ''read control message'' (ErrNew ''invalid control frame size''), evs,
     snd (SendError T [] malformedFrameCode (c\<lparr>cn_in := rest\<rparr>)))"
proof -
  have "ReadMessage T d c = (Inl (ErrNew ''invalid control frame size''), c\<lparr>cn_in := rest\<rparr>)"
    using assms by (simp add: ReadMessage_def readFrame_def ReadFull_append Let_def)
  then show ?thesis by (subst Serve.simps) (simp add: isDisconnect_def)
qed

lemma SendError_delivers:
  assumes "progressing T" and "ct_Marshal T (no_message\<lparr>m_Type := errorType, m_RequestID := rid,
      m_Error := Some \<lparr>cr_Code = code\<rparr>\<rparr>) = Inr payload" and "frameable payload" and "code \<noteq> []"
  shows "cn_out (snd (SendError T rid code c)) = cn_out c @ frame_of payload
    \<and> cn_in (snd (SendError T rid code c)) = cn_in c"
  using assms writeFrame_delivers [OF assms(1,3), of c]
  by (auto simp: SendError_def client_send_def WriteMessage_def)

text \<open>
  C16: Everything the parent sends is acted on once and in its order. The parent's connection may take
  each frame in pieces of any size; when all its sends succeeded, the bridge that reads what came out
  calls its handlers for exactly those messages, passing over the types it does not know, and stops
  with the end of the stream, having written nothing back.
\<close>

theorem served_in_order:
  assumes "parent_sends P ms p = (None, p')" and "cn_out p = []"
    and "cn_in c = cn_out p'" and "cn_end c = ErrSentinel IoEOF"
    and "setDeadline T d = None" and "ends_with_EOF T"
    and "\<And>m. m \<in> set ms \<Longrightarrow> carries P T m \<and> readable_update T m"
  shows "Serve T d (\<lambda>_. None) resync update 0 [] c =
    (ErrWrap ''read control message'' (ErrSentinel IoEOF),
     concat (map (events_of T resync update) ms), c\<lparr>cn_in := []\<rparr>)"
proof -
  obtain sent where sent: "cn_out p' = cn_out p @ sent"
    and serve: "\<And>c rest k evs. cn_in c = sent @ rest \<Longrightarrow>
      Serve T d (\<lambda>_. None) resync update k evs c =
      Serve T d (\<lambda>_. None) resync update (k + length ms)
        (evs @ concat (map (events_of T resync update) ms)) (c\<lparr>cn_in := rest\<rparr>)"
    using Serve_parent_sends [OF assms(1,5,6,7)] by blast
  have "cn_in c = sent @ []" using assms(2,3) sent by simp
  then show ?thesis using serve [of c "[]" 0 "[]"] assms(4,5) Serve_end [of "c\<lparr>cn_in := []\<rparr>" T d] by simp
qed

definition toy_transport :: transport where
  "toy_transport = \<lparr>ct_Write = (\<lambda>k b. (3, None)), ct_hasSetter = False, ct_SetDeadline = None,
     ct_Marshal = (\<lambda>m. Inr (str_bytes (m_Type m))),
     ct_Decode = (\<lambda>p. Inr (no_message\<lparr>m_Type := bytes_str p\<rparr>, [])),
     ct_DecodeAny = (\<lambda>p. if p = [] then Inl (ErrSentinel IoEOF) else Inr []),
     ct_UnmarshalBackend = (\<lambda>p. Inl (ErrNew ''unmarshal'')), ct_Valid = (\<lambda>p. p \<noteq> [])\<rparr>"

definition toy_conn :: "bytes \<Rightarrow> conn" where
  "toy_conn received = \<lparr>cn_in = received, cn_end = ErrSentinel IoEOF, cn_out = [], cn_writes = 0\<rparr>"

definition toy_resync :: Message where
  "toy_resync = no_message\<lparr>m_Type := resyncType\<rparr>"

definition toy_news :: Message where
  "toy_news = no_message\<lparr>m_Type := ''news''\<rparr>"

lemmas toy_control = toy_transport_def toy_conn_def toy_resync_def toy_news_def no_message_def resyncType_def

lemma toy_carries: "m \<in> set [toy_resync, toy_news, toy_resync] \<Longrightarrow>
    carries toy_transport toy_transport m \<and> readable_update toy_transport m"
  by (auto simp: toy_control carries_def readable_update_def)

lemma toy_progressing: "progressing toy_transport"
  by (simp add: toy_transport_def progressing_def)

lemma toy_frameable: "m \<in> set [toy_resync, toy_news, toy_resync] \<Longrightarrow>
    \<exists>p. ct_Marshal toy_transport m = Inr p \<and> frameable p"
  by (auto simp: toy_control frameable_def MaxFrameSize_def)

lemma toy_EOF: "ends_with_EOF toy_transport" "setDeadline toy_transport d = None"
  by (simp_all add: ends_with_EOF_def toy_transport_def setDeadline_def)

theorem served_in_order_witness:
  "\<exists>p'. parent_sends toy_transport [toy_resync, toy_news, toy_resync] (toy_conn []) = (None, p') \<and>
     Serve toy_transport False (\<lambda>_. None) True False 0 [] (toy_conn (cn_out p')) =
       (ErrWrap ''read control message'' (ErrSentinel IoEOF), [OnResync, OnResync], toy_conn [])"
proof -
  obtain p' where sent:
    "parent_sends toy_transport [toy_resync, toy_news, toy_resync] (toy_conn []) = (None, p')"
    using parent_sends_delivers [OF toy_progressing toy_frameable] by blast
  have "Serve toy_transport False (\<lambda>_. None) True False 0 [] (toy_conn (cn_out p')) =
      (ErrWrap ''read control message'' (ErrSentinel IoEOF),
       concat (map (events_of toy_transport True False) [toy_resync, toy_news, toy_resync]),
       toy_conn (cn_out p')\<lparr>cn_in := []\<rparr>)"
    by (rule served_in_order [OF sent _ _ _ toy_EOF(2,1) toy_carries]) (simp_all add: toy_conn_def)
  then show ?thesis using sent
    by (intro exI [of _ p']) (simp add: events_of_def toy_control sessionUpdateType_def)
qed

text \<open>
  C29: A frame of an impossible size ends the session, and the parent is told why once. Everything sent
  before it has been acted on; of the frame only the four bytes of its header are read, whatever size
  they claim; one error message with the code of a malformed frame is written back, in a frame of its
  own even when the connection takes it piece by piece; nothing that follows is read.
\<close>

theorem bad_frame_reported_once:
  assumes "parent_sends P ms p = (None, p')" and "cn_out p = []"
    and "cn_in c = cn_out p' @ header @ rest" and "length header = 4"
    and "uint32 header = 0 \<or> uint32 header > MaxFrameSize"
    and "setDeadline T d = None" and "ends_with_EOF T"
    and "\<And>m. m \<in> set ms \<Longrightarrow> carries P T m \<and> readable_update T m"
    and "progressing T" and "ct_Marshal T (no_message\<lparr>m_Type := errorType,
      m_Error := Some \<lparr>cr_Code = malformedFrameCode\<rparr>\<rparr>) = Inr payload" and "frameable payload"
  shows "\<exists>c'. Serve T d (\<lambda>_. None) resync update 0 [] c =
      (ErrWrap ''read control message'' (ErrNew ''invalid control frame size''),
       concat (map (events_of T resync update) ms), c')
    \<and> cn_in c' = rest \<and> cn_out c' = cn_out c @ frame_of payload"
proof -
  obtain sent where sent: "cn_out p' = cn_out p @ sent"
    and serve: "\<And>c rest k evs. cn_in c = sent @ rest \<Longrightarrow>
      Serve T d (\<lambda>_. None) resync update k evs c =
      Serve T d (\<lambda>_. None) resync update (k + length ms)
        (evs @ concat (map (events_of T resync update) ms)) (c\<lparr>cn_in := rest\<rparr>)"
    using Serve_parent_sends [OF assms(1,6,7,8)] by blast
  have "cn_in c = sent @ header @ rest" using assms(2,3) sent by simp
  then have "Serve T d (\<lambda>_. None) resync update 0 [] c =
      (ErrWrap ''read control message'' (ErrNew ''invalid control frame size''),
       concat (map (events_of T resync update) ms),
       snd (SendError T [] malformedFrameCode (c\<lparr>cn_in := rest\<rparr>)))"
    using serve [of c "header @ rest" 0 "[]"]
      Serve_bad_header [of "c\<lparr>cn_in := header @ rest\<rparr>" header rest T d] assms(4,5,6) by simp
  moreover have request: "no_message\<lparr>m_Type := errorType, m_RequestID := [], m_Error := Some \<lparr>cr_Code = malformedFrameCode\<rparr>\<rparr>
    = no_message\<lparr>m_Type := errorType, m_Error := Some \<lparr>cr_Code = malformedFrameCode\<rparr>\<rparr>"
    by (simp add: no_message_def)
  have marshalled: "ct_Marshal T (no_message\<lparr>m_Type := errorType, m_RequestID := [],
      m_Error := Some \<lparr>cr_Code = malformedFrameCode\<rparr>\<rparr>) = Inr payload"
    using assms(10) by (simp only: request)
  have "malformedFrameCode \<noteq> []" by (simp add: malformedFrameCode_def)
  note SendError_delivers [OF assms(9) marshalled assms(11) this, of "c\<lparr>cn_in := rest\<rparr>"]
  then have "cn_out (snd (SendError T [] malformedFrameCode (c\<lparr>cn_in := rest\<rparr>))) = cn_out c @ frame_of payload
    \<and> cn_in (snd (SendError T [] malformedFrameCode (c\<lparr>cn_in := rest\<rparr>))) = rest"
    by simp
  ultimately show ?thesis by blast
qed

text \<open>A resync, then a header that claims two mebibytes, then a byte that is never read.\<close>

theorem bad_frame_reported_once_witness:
  "\<exists>p' c'. parent_sends toy_transport [toy_resync] (toy_conn []) = (None, p') \<and>
     Serve toy_transport False (\<lambda>_. None) True False 0 [] (toy_conn (cn_out p' @ [0, 32, 0, 0] @ [7])) =
       (ErrWrap ''read control message'' (ErrNew ''invalid control frame size''), [OnResync], c') \<and>
     cn_in c' = [7] \<and> cn_out c' = [0, 0, 0, 5] @ str_bytes ''error''"
proof -
  obtain p' where sent: "parent_sends toy_transport [toy_resync] (toy_conn []) = (None, p')"
    using parent_sends_delivers [OF toy_progressing, of "[toy_resync]"] toy_frameable by force
  have "\<exists>c'. Serve toy_transport False (\<lambda>_. None) True False 0 [] (toy_conn (cn_out p' @ [0, 32, 0, 0] @ [7])) =
      (ErrWrap ''read control message'' (ErrNew ''invalid control frame size''),
       concat (map (events_of toy_transport True False) [toy_resync]), c')
    \<and> cn_in c' = [7] \<and> cn_out c' = cn_out (toy_conn (cn_out p' @ [0, 32, 0, 0] @ [7])) @ frame_of (str_bytes ''error'')"
  proof (rule bad_frame_reported_once [where header = "[0, 32, 0, 0]", OF sent _ _ _ _ toy_EOF(2,1) _ toy_progressing])
    show "carries toy_transport toy_transport m \<and> readable_update toy_transport m" if "m \<in> set [toy_resync]" for m
      using that by (intro toy_carries) simp
    show "ct_Marshal toy_transport (no_message\<lparr>m_Type := errorType,
        m_Error := Some \<lparr>cr_Code = malformedFrameCode\<rparr>\<rparr>) = Inr (str_bytes ''error'')"
      by (simp add: toy_transport_def errorType_def)
  qed (simp_all add: toy_conn_def uint32_def MaxFrameSize_def frameable_def)
  moreover have "concat (map (events_of toy_transport True False) [toy_resync]) = [OnResync]"
    by (simp add: events_of_def toy_control)
  moreover have "cn_out (toy_conn x) = []" for x by (simp add: toy_conn_def)
  moreover have "frame_of (str_bytes ''error'') = [0, 0, 0, 5] @ str_bytes ''error''"
    by (simp add: frame_of_def be32_def)
  ultimately show ?thesis using sent by auto
qed

text \<open>
  What a peer sends cannot make the bridge read or hold more than one frame. Reading a frame from
  any bytes takes at most the header and a mebibyte; a frame that is returned is not empty and is
  exactly what was taken, and nothing is written.
\<close>

theorem frames_bounded:
  assumes "readFrame T d c = (r, c')"
  shows "\<exists>used. cn_in c = used @ cn_in c' \<and> length used \<le> 4 + MaxFrameSize \<and> cn_out c' = cn_out c
    \<and> (\<forall>p. r = Inr p \<longrightarrow> frameable p \<and> used = take 4 used @ p \<and> uint32 used = length p)"
proof -
  have full: "cn_in c1 = take n (cn_in c1) @ cn_in c2 \<and> cn_out c2 = cn_out c1 \<and>
      (\<forall>b. x = Inr b \<longrightarrow> b = take n (cn_in c1) \<and> length b = n)"
    if "ReadFull n c1 = (x, c2)" for n c1 x c2
    using that by (auto simp: ReadFull_def split: if_splits)
  show ?thesis
  proof (cases "setDeadline T d")
    case (Some e)
    then show ?thesis using assms by (auto simp: readFrame_def)
  next
    case None
    obtain h c1 where h: "ReadFull 4 c = (h, c1)" by fastforce
    note h' = full [OF h]
    consider (header) "\<nexists>p. r = Inr p" "c' = c1"
      | (body) b where "h = Inr b" "0 < uint32 b" "uint32 b \<le> MaxFrameSize" "ReadFull (uint32 b) c1 = (r, c')"
      using assms None h by (cases h) (auto simp: readFrame_def Let_def split: if_splits)
    then show ?thesis
    proof cases
      case header
      then show ?thesis using h' by (intro exI [of _ "take 4 (cn_in c)"]) auto
    next
      case body
      note b = full [OF body(4)]
      have "b = take 4 (cn_in c)" and "length b = 4" using h' body(1) by auto
      moreover have "cn_in c = b @ take (uint32 b) (cn_in c1) @ cn_in c'"
        using h' b \<open>b = take 4 (cn_in c)\<close> by metis
      moreover have "uint32 (b @ ys) = uint32 b" for ys
        using \<open>length b = 4\<close> by (simp add: uint32_def nth_append)
      ultimately show ?thesis
        using h' b body(2,3) by (intro exI [of _ "b @ take (uint32 b) (cn_in c1)"]) (auto simp: frameable_def)
    qed
  qed
qed

theorem frames_bounded_witness:
  "readFrame toy_transport False (toy_conn [0, 0, 0, 2, 9, 8, 7]) = (Inr [9, 8], toy_conn [7]) \<and>
   (\<exists>used. [0, 0, 0, 2, 9, 8, 7] = used @ [7] \<and> length used \<le> 4 + MaxFrameSize \<and>
      used = take 4 used @ [9, 8] \<and> uint32 used = 2)"
proof -
  have read: "readFrame toy_transport False (toy_conn [0, 0, 0, 2, 9, 8, 7]) = (Inr [9, 8], toy_conn [7])"
    using readFrame_frame [of "[9, 8]" "toy_conn [0, 0, 0, 2, 9, 8, 7]" "[7]" toy_transport False]
    by (simp add: toy_conn_def frame_of_def be32_def frameable_def MaxFrameSize_def)
  have "cn_in (toy_conn x) = x" for x by (simp add: toy_conn_def)
  then show ?thesis using frames_bounded [OF read] read by (auto simp: numeral_2_eq_2)
qed

end
