(* ===== verification/Poller.thy ===== *)
theory Poller
  imports Announcing
begin

text \<open>
  \<open>mailconnector/poll.go\<close>: the loop that runs the sync on a timer and on request, as a step relation.
  The goroutine of \<open>run\<close> is in its \<open>select\<close>, in a sync, or has returned; \<open>Resync\<close> and \<open>Stop\<close> are
  called by others at any moment; the ticker ticks at any moment. A step of the loop is labelled with
  the case of the \<open>select\<close> it takes, and a \<open>select\<close> with several cases ready may take any of them.
\<close>

text \<open>Nanoseconds.\<close>

definition DefaultPollInterval :: int where
  "DefaultPollInterval = 30 * 1000000000"

section \<open>The loop\<close>

datatype poll_phase =
    Selecting
  | Syncing (requested_sync: bool)
  | RunReturned

text \<open>
  \<open>pl_reset\<close>: the one-place channel holds a request. \<open>pl_tick\<close>: a tick waits in \<open>ticker.C\<close>.
  \<open>pl_cancelled\<close>: \<open>stop\<close> was called. \<open>pl_connector\<close>: what the syncs work on.
\<close>

record 'w poller =
  pl_reset :: bool
  pl_tick :: bool
  pl_cancelled :: bool
  pl_phase :: poll_phase
  pl_connector :: 'w

datatype poll_label =
    CallResync
  | CallStop
  | StopReturns
  | Tick
  | TakeDone
  | TakeReset
  | TakeTick
  | SyncReturns

definition StartPolling :: "'w \<Rightarrow> 'w poller" where
  "StartPolling w = \<lparr>pl_reset = False, pl_tick = False, pl_cancelled = False, pl_phase = Selecting,
     pl_connector = w\<rparr>"

text \<open>\<open>Resync\<close>: the send of the \<open>select\<close> with a \<open>default\<close>, so a full channel drops the request.\<close>

definition poller_Resync :: "'w poller \<Rightarrow> 'w poller" where
  "poller_Resync p = (if pl_reset p then p else p\<lparr>pl_reset := True\<rparr>)"

text \<open>\<open>sync r w w'\<close>: a sync, requested or not, may turn \<open>w\<close> into \<open>w'\<close>; its error is only logged.\<close>

definition syncOnce :: "(bool \<Rightarrow> 'w \<Rightarrow> 'w \<Rightarrow> bool) \<Rightarrow> bool \<Rightarrow> 'w \<Rightarrow> 'w \<Rightarrow> bool" where
  "syncOnce sync r w w' \<longleftrightarrow> sync r w w'"

text \<open>
  After a requested sync the ticker is reset, which also drops a tick that came meanwhile. The ticker
  is stopped when \<open>run\<close> returns. \<open>Stop\<close> cancels and then waits for \<open>run\<close> to have returned.
\<close>

inductive poll_step :: "(bool \<Rightarrow> 'w \<Rightarrow> 'w \<Rightarrow> bool) \<Rightarrow> 'w poller \<Rightarrow> poll_label \<Rightarrow> 'w poller \<Rightarrow> bool"
  for sync where
  call_resync: "poll_step sync p CallResync (poller_Resync p)"
| call_stop: "poll_step sync p CallStop (p\<lparr>pl_cancelled := True\<rparr>)"
| stop_returns: "pl_cancelled p \<Longrightarrow> pl_phase p = RunReturned \<Longrightarrow> poll_step sync p StopReturns p"
| tick: "pl_phase p \<noteq> RunReturned \<Longrightarrow> poll_step sync p Tick (p\<lparr>pl_tick := True\<rparr>)"
| take_done: "pl_phase p = Selecting \<Longrightarrow> pl_cancelled p \<Longrightarrow>
    poll_step sync p TakeDone (p\<lparr>pl_phase := RunReturned\<rparr>)"
| take_reset: "pl_phase p = Selecting \<Longrightarrow> pl_reset p \<Longrightarrow>
    poll_step sync p TakeReset (p\<lparr>pl_reset := False, pl_phase := Syncing True\<rparr>)"
| take_tick: "pl_phase p = Selecting \<Longrightarrow> pl_tick p \<Longrightarrow>
    poll_step sync p TakeTick (p\<lparr>pl_tick := False, pl_phase := Syncing False\<rparr>)"
| sync_returns: "pl_phase p = Syncing r \<Longrightarrow> syncOnce sync r (pl_connector p) w \<Longrightarrow>
    poll_step sync p SyncReturns
      (p\<lparr>pl_tick := (if r then False else pl_tick p), pl_phase := Selecting, pl_connector := w\<rparr>)"

inductive_cases poll_stepE: "poll_step sync p l p'"

text \<open>A run of the poller from the moment it was started, with its labels in order.\<close>

inductive poll_run :: "(bool \<Rightarrow> 'w \<Rightarrow> 'w \<Rightarrow> bool) \<Rightarrow> 'w \<Rightarrow> poll_label list \<Rightarrow> 'w poller \<Rightarrow> bool"
  for sync w where
  poll_start: "poll_run sync w [] (StartPolling w)"
| poll_next: "poll_run sync w ls p \<Longrightarrow> poll_step sync p l p' \<Longrightarrow> poll_run sync w (ls @ [l]) p'"

section \<open>What the labels say of the state\<close>

text \<open>A request made in the run and not taken since.\<close>

definition unanswered :: "poll_label list \<Rightarrow> bool" where
  "unanswered ls \<longleftrightarrow> (\<exists>before after. ls = before @ CallResync # after \<and> TakeReset \<notin> set after)"

definition started :: "poll_label list \<Rightarrow> nat" where
  "started ls = count_list ls TakeReset + count_list ls TakeTick"

definition poll_inv :: "poll_label list \<Rightarrow> 'w poller \<Rightarrow> bool" where
  "poll_inv ls p \<longleftrightarrow>
     (unanswered ls \<longrightarrow> pl_reset p) \<and>
     count_list ls TakeReset + of_bool (pl_reset p) \<le> count_list ls CallResync \<and>
     started ls = count_list ls SyncReturns + of_bool (is_Syncing (pl_phase p)) \<and>
     (pl_cancelled p \<longleftrightarrow> CallStop \<in> set ls) \<and>
     (pl_phase p = RunReturned \<longleftrightarrow> TakeDone \<in> set ls) \<and>
     (StopReturns \<in> set ls \<longrightarrow> pl_phase p = RunReturned)"

lemma unanswered_snoc: "unanswered (ls @ [l]) \<longleftrightarrow> l = CallResync \<or> (unanswered ls \<and> l \<noteq> TakeReset)"
proof
  assume "unanswered (ls @ [l])"
  then obtain before after where split: "ls @ [l] = before @ CallResync # after" "TakeReset \<notin> set after"
    unfolding unanswered_def by blast
  then show "l = CallResync \<or> (unanswered ls \<and> l \<noteq> TakeReset)"
    by (cases after rule: rev_cases) (auto simp: unanswered_def)
next
  assume "l = CallResync \<or> (unanswered ls \<and> l \<noteq> TakeReset)"
  then show "unanswered (ls @ [l])"
  proof
    assume "l = CallResync"
    then show ?thesis unfolding unanswered_def by (intro exI [of _ ls] exI [of _ "[]"]) simp
  next
    assume "unanswered ls \<and> l \<noteq> TakeReset"
    then obtain before after where "ls = before @ CallResync # after" "TakeReset \<notin> set after" "l \<noteq> TakeReset"
      unfolding unanswered_def by blast
    then show ?thesis unfolding unanswered_def by (intro exI [of _ before] exI [of _ "after @ [l]"]) simp
  qed
qed

text \<open>Each step keeps the invariant.\<close>

lemma inv_call_resync: "poll_inv ls p \<Longrightarrow> poll_inv (ls @ [CallResync]) (poller_Resync p)"
  by (cases "pl_reset p") (simp_all add: poll_inv_def unanswered_snoc started_def poller_Resync_def)

lemma inv_call_stop: "poll_inv ls p \<Longrightarrow> poll_inv (ls @ [CallStop]) (p\<lparr>pl_cancelled := True\<rparr>)"
  by (simp add: poll_inv_def unanswered_snoc started_def)

lemma inv_stop_returns:
  "poll_inv ls p \<Longrightarrow> pl_cancelled p \<Longrightarrow> pl_phase p = RunReturned \<Longrightarrow> poll_inv (ls @ [StopReturns]) p"
  by (simp add: poll_inv_def unanswered_snoc started_def)

lemma inv_tick: "poll_inv ls p \<Longrightarrow> pl_phase p \<noteq> RunReturned \<Longrightarrow> poll_inv (ls @ [Tick]) (p\<lparr>pl_tick := True\<rparr>)"
  by (simp add: poll_inv_def unanswered_snoc started_def)

lemma inv_take_done:
  "poll_inv ls p \<Longrightarrow> pl_phase p = Selecting \<Longrightarrow> pl_cancelled p \<Longrightarrow>
     poll_inv (ls @ [TakeDone]) (p\<lparr>pl_phase := RunReturned\<rparr>)"
  by (simp add: poll_inv_def unanswered_snoc started_def)

lemma inv_take_reset:
  "poll_inv ls p \<Longrightarrow> pl_phase p = Selecting \<Longrightarrow> pl_reset p \<Longrightarrow>
     poll_inv (ls @ [TakeReset]) (p\<lparr>pl_reset := False, pl_phase := Syncing True\<rparr>)"
  by (simp add: poll_inv_def unanswered_snoc started_def)

lemma inv_take_tick:
  "poll_inv ls p \<Longrightarrow> pl_phase p = Selecting \<Longrightarrow> pl_tick p \<Longrightarrow>
     poll_inv (ls @ [TakeTick]) (p\<lparr>pl_tick := False, pl_phase := Syncing False\<rparr>)"
  by (simp add: poll_inv_def unanswered_snoc started_def)

lemma inv_sync_returns:
  "poll_inv ls p \<Longrightarrow> pl_phase p = Syncing r \<Longrightarrow>
     poll_inv (ls @ [SyncReturns]) (p\<lparr>pl_tick := t, pl_phase := Selecting, pl_connector := w\<rparr>)"
  by (simp add: poll_inv_def unanswered_snoc started_def)

lemmas inv_steps = inv_call_resync inv_call_stop inv_stop_returns inv_tick inv_take_done inv_take_reset
  inv_take_tick inv_sync_returns

lemma poll_inv_step: "poll_step sync p l p' \<Longrightarrow> poll_inv ls p \<Longrightarrow> poll_inv (ls @ [l]) p'"
  by (induction rule: poll_step.induct) (rule inv_steps; assumption)+

lemma poll_inv_start: "poll_inv [] (StartPolling w)"
  by (simp add: poll_inv_def StartPolling_def unanswered_def started_def)

lemma poll_run_inv: "poll_run sync w ls p \<Longrightarrow> poll_inv ls p"
proof (induction rule: poll_run.induct)
  case poll_start
  show ?case by (rule poll_inv_start)
next
  case (poll_next ls p l p')
  then show ?case using poll_inv_step by blast
qed

text \<open>The loop is never stuck on a request: it can take it, or the sync in flight can return first.\<close>

lemma request_moves:
  assumes "pl_reset p" and "pl_phase p \<noteq> RunReturned" and "\<And>r w. \<exists>w'. sync r w w'"
  shows "\<exists>l p'. poll_step sync p l p' \<and> (l = TakeReset \<or> l = SyncReturns \<and> pl_reset p' \<and> pl_phase p' = Selecting)"
proof (cases "pl_phase p")
  case Selecting
  then show ?thesis using assms(1) take_reset by blast
next
  case (Syncing r)
  obtain w' where "sync r (pl_connector p) w'" using assms(3) by blast
  then have "poll_step sync p SyncReturns
      (p\<lparr>pl_tick := (if r then False else pl_tick p), pl_phase := Selecting, pl_connector := w'\<rparr>)"
    using Syncing by (intro sync_returns) (simp_all add: syncOnce_def)
  then show ?thesis using assms(1) by force
next
  case RunReturned
  then show ?thesis using assms(2) by simp
qed

text \<open>Once \<open>run\<close> has returned, only callers still move.\<close>

lemma run_returned_absorbs:
  "poll_run sync w ls p \<Longrightarrow> ls = before @ TakeDone # after \<Longrightarrow>
     set after \<subseteq> {CallResync, CallStop, StopReturns}"
proof (induction arbitrary: after rule: poll_run.induct)
  case poll_start
  then show ?case by simp
next
  case (poll_next ls p l p')
  show ?case
  proof (cases after rule: rev_cases)
    case (snoc after' l')
    then have ls: "ls = before @ TakeDone # after'" and l: "l' = l" using poll_next.prems by auto
    have "pl_phase p = RunReturned"
      using poll_run_inv [OF poll_next.hyps(1)] ls by (simp add: poll_inv_def)
    then have "l \<in> {CallResync, CallStop, StopReturns}"
      using poll_next.hyps(2) by (elim poll_stepE) simp_all
    then show ?thesis using poll_next.IH [OF ls] snoc l by simp
  qed simp
qed

section \<open>Requests are served\<close>

text \<open>The syncs of the poller are those of the mail connector, in any order its downloads take.\<close>

definition connector_sync :: "connector_env \<Rightarrow> 's mail_service \<Rightarrow> bool \<Rightarrow> 's connector \<Rightarrow> 's connector \<Rightarrow> bool" where
  "connector_sync V MS r c c' \<longleftrightarrow> (\<exists>schedules. c' = snd (snd (Sync V MS schedules r c)))"

lemma connector_sync_total: "\<exists>c'. connector_sync V MS r c c'"
  unfolding connector_sync_def by blast

text \<open>
  C17: No resync is lost, and none is made up. In every run of the poller over the connector's \<open>Sync\<close>,
  with \<open>Resync\<close> called at any moments: each request is still held by the channel or a requested sync
  started after it, there are never more requested syncs than requests, never two syncs at once, and
  while a request is held and the loop has not returned, the loop can take it, at the latest once
  the sync in flight has returned. When \<open>Stop\<close> has returned the loop has, and after that it starts nothing.
\<close>

theorem requests_are_served:
  assumes "poll_run (connector_sync V MS) c ls p"
  shows "(\<forall>before after. ls = before @ CallResync # after \<longrightarrow> pl_reset p \<or> TakeReset \<in> set after)
    \<and> count_list ls TakeReset + of_bool (pl_reset p) \<le> count_list ls CallResync
    \<and> count_list ls TakeReset + count_list ls TakeTick = count_list ls SyncReturns + of_bool (is_Syncing (pl_phase p))
    \<and> (pl_reset p \<and> pl_phase p \<noteq> RunReturned \<longrightarrow>
        (\<exists>l p'. poll_step (connector_sync V MS) p l p' \<and>
          (l = TakeReset \<or> l = SyncReturns \<and> pl_reset p' \<and> pl_phase p' = Selecting)))
    \<and> (StopReturns \<in> set ls \<longrightarrow> (\<exists>before after. ls = before @ TakeDone # after \<and>
        TakeReset \<notin> set after \<and> TakeTick \<notin> set after))"
proof -
  note inv = poll_run_inv [OF assms]
  have "pl_reset p \<or> TakeReset \<in> set after" if "ls = before @ CallResync # after" for before after
    using inv that by (auto simp: poll_inv_def unanswered_def)
  moreover have "\<exists>before after. ls = before @ TakeDone # after \<and> TakeReset \<notin> set after \<and> TakeTick \<notin> set after"
    if "StopReturns \<in> set ls"
  proof -
    have "TakeDone \<in> set ls" using inv that unfolding poll_inv_def by blast
    then obtain before after where split: "ls = before @ TakeDone # after" by (meson split_list)
    then show ?thesis using run_returned_absorbs [OF assms split] by blast
  qed
  moreover have "\<exists>l p'. poll_step (connector_sync V MS) p l p' \<and>
      (l = TakeReset \<or> l = SyncReturns \<and> pl_reset p' \<and> pl_phase p' = Selecting)"
    if "pl_reset p" "pl_phase p \<noteq> RunReturned"
    using request_moves [OF that connector_sync_total] .
  ultimately show ?thesis using inv by (auto simp: poll_inv_def started_def)
qed

text \<open>
  Two requests during a sync are one more sync; the run ends with \<open>Stop\<close>.
\<close>

theorem requests_are_served_witness:
  "\<exists>p. poll_run (connector_sync toy_env (toy_service [])) toy_connector
      [CallResync, TakeReset, CallResync, CallResync, SyncReturns] p \<and>
     pl_reset p \<and> \<not> is_Syncing (pl_phase p) \<and>
     count_list [CallResync, TakeReset, CallResync, CallResync, SyncReturns] TakeReset + of_bool (pl_reset p)
       \<le> (3::nat)"
proof -
  let ?sync = "connector_sync toy_env (toy_service [])"
  let ?p0 = "StartPolling toy_connector"
  let ?p1 = "poller_Resync ?p0"
  let ?p2 = "?p1\<lparr>pl_reset := False, pl_phase := Syncing True\<rparr>"
  let ?p4 = "poller_Resync (poller_Resync ?p2)"
  obtain w where w: "syncOnce ?sync True (pl_connector ?p4) w"
    unfolding syncOnce_def using connector_sync_total by blast
  let ?p5 = "?p4\<lparr>pl_tick := (if True then False else pl_tick ?p4), pl_phase := Selecting, pl_connector := w\<rparr>"
  note fields = StartPolling_def poller_Resync_def
  have "poll_run ?sync toy_connector ([] @ [CallResync]) ?p1"
    by (intro poll_next [OF poll_start] call_resync)
  then have "poll_run ?sync toy_connector (([] @ [CallResync]) @ [TakeReset]) ?p2"
    by (rule poll_next) (intro take_reset, simp_all add: fields)
  then have "poll_run ?sync toy_connector ((([] @ [CallResync]) @ [TakeReset]) @ [CallResync]) (poller_Resync ?p2)"
    by (rule poll_next) (rule call_resync)
  then have "poll_run ?sync toy_connector (((([] @ [CallResync]) @ [TakeReset]) @ [CallResync]) @ [CallResync]) ?p4"
    by (rule poll_next) (rule call_resync)
  then have "poll_run ?sync toy_connector
      ((((([] @ [CallResync]) @ [TakeReset]) @ [CallResync]) @ [CallResync]) @ [SyncReturns]) ?p5"
    by (rule poll_next) (intro sync_returns w, simp add: fields)
  then have run: "poll_run ?sync toy_connector [CallResync, TakeReset, CallResync, CallResync, SyncReturns] ?p5"
    by simp
  have "pl_reset ?p5" and "\<not> is_Syncing (pl_phase ?p5)" by (simp_all add: fields)
  moreover have "count_list [CallResync, TakeReset, CallResync, CallResync, SyncReturns] TakeReset + of_bool (pl_reset ?p5)
      \<le> (3::nat)"
    using requests_are_served [OF run] by simp
  ultimately show ?thesis using run by blast
qed

end
