(* ===== verification/Daemon.thy ===== *)
theory Daemon
  imports Control LocalSecrets LocalServers MailService Poller
begin

text \<open>
  \<open>internal/daemon\<close>: one run of the bridge. It receives the session from the parent, starts the two
  servers, reports that it is ready, asks for the first sync, and waits for its context to end while another
  goroutine acts on the messages of the parent; and the wipe of a logout. What a run does to the world is
  its trace, in order: the effects on the control connection and the servers, the messages to the parent
  and the events from it.
\<close>

record daemon_options =
  op_Config :: bridge_config
  op_IMAPAddress :: string
  op_StateDir :: string
  op_ControlEndpoint :: string

definition DefaultStateDir :: string where "DefaultStateDir = ''.bridge-data''"

definition DefaultOptions :: "(string \<Rightarrow> string \<Rightarrow> string) \<Rightarrow> bridge_config \<Rightarrow> daemon_options" where
  "DefaultOptions join_path cfg =
     \<lparr>op_Config = cfg, op_IMAPAddress = bc_IMAPAddr cfg, op_StateDir = DefaultStateDir,
      op_ControlEndpoint = join_path DefaultStateDir ''control.sock''\<rparr>"

section \<open>What a run needs\<close>

text \<open>
  \<open>dn_open\<close> is what \<open>store.New\<close> answers; the store it opens is the state of the backend. \<open>dn_ended\<close>
  is the state of the context each time \<open>Serve\<close> looks. \<open>dn_pace\<close> is how the scheduler runs the goroutine
  that serves the parent beside the one that shuts down: how many of the parent's events it acts on before
  the \<open>k\<close>-th step of the other.
\<close>

record ('k, 'c) daemon_env =
  dn_dial :: "string \<Rightarrow> err option"
  dn_transport :: transport
  dn_ended :: "nat \<Rightarrow> err option"
  dn_pace :: "nat \<Rightarrow> nat"
  dn_open :: "err option"
  dn_backend :: "'k backend"
  dn_codec :: index_codec
  dn_rand :: "nat \<Rightarrow> err + bytes"
  dn_tls :: "'c tls_lib"
  dn_now :: int
  dn_imap :: imap_env
  dn_listen :: "string \<Rightarrow> err + string"
  dn_shutdown :: "err option"

datatype daemon_effect =
    ControlOpened
  | ControlClosed
  | RunContextDone
  | IMAPEffect server_effect
  | SMTPListen string
  | SMTPShutdown
  | ReadySent
  | ErrorSent string
  | ParentEvent control_event

record ('k, 's) daemon_state =
  dm_conn :: conn
  dm_store :: 'k
  dm_service :: "'s service_state option"
  dm_trace :: "daemon_effect list"

definition note_effects :: "daemon_effect list \<Rightarrow> ('k, 's) daemon_state \<Rightarrow> ('k, 's) daemon_state" where
  "note_effects xs s = s\<lparr>dm_trace := dm_trace s @ xs\<rparr>"

section \<open>The account\<close>

definition decodeKey :: "string \<Rightarrow> nat \<Rightarrow> bytes" where
  "decodeKey encoded want =
     (if encoded = [] then []
      else case b64_decode encoded of
          Inl _ \<Rightarrow> []
        | Inr key \<Rightarrow> if length key \<noteq> want then [] else key)"

definition mailService :: "transport \<Rightarrow> daemon_options \<Rightarrow> Session \<Rightarrow> 's \<Rightarrow> err + 's service_state" where
  "mailService T opts session api =
     bind_err (session_Backend T session) (\<lambda>backend.
       if be_Token backend = [] then Inl (ErrNew ''the session carries no Mail API token'')
       else bind_err (api_New (bc_MailAPI (op_Config opts))) (\<lambda>_.
         Inr (svc_New api
           \<lparr>mac_Token = be_Token backend, mac_Address = ss_Addresses session ! 0,
            mac_PrivateKey = decodeKey (be_EncryptionPrivateKey backend) PrivateKeyLen,
            mac_PublicKey = decodeKey (be_EncryptionPublicKey backend) PublicKeyLen\<rparr>)))"

definition localTLS :: "('k, 'c) daemon_env \<Rightarrow> ('k, tls_Config \<times> bytes) op" where
  "localTLS D k =
     (case dn_open D of
       Some e \<Rightarrow> (Inl e, k)
     | None \<Rightarrow> ensure_certificate (dn_tls D) (dn_codec D) (dn_backend D) (dn_now D) (dn_now D) k)"

definition storagePassphrase :: "('k, 'c) daemon_env \<Rightarrow> ('k, bytes) op" where
  "storagePassphrase D k =
     (case dn_open D of
       Some e \<Rightarrow> (Inl e, k)
     | None \<Rightarrow> ensure_passphrase (dn_codec D) (dn_backend D) (dn_rand D) k)"

text \<open>The fixture mailbox stands in for a missing service; it cannot synchronise.\<close>

definition connectorFactory :: "'s service_state option \<Rightarrow> UnlockedSession \<Rightarrow> Credentials \<Rightarrow> err + bool" where
  "connectorFactory service session credentials = Inr (service \<noteq> None)"

definition attachmentStoreBuilder :: "'s service_state option \<Rightarrow> bool" where
  "attachmentStoreBuilder service \<longleftrightarrow> service \<noteq> None"

text \<open>A panic of the service ends the connection of the client with an error.\<close>

definition senderOrNil :: "'s mail_env \<Rightarrow> 's service_state option \<Rightarrow> 's service_state sender" where
  "senderOrNil V service =
     (case service of
       None \<Rightarrow> None
     | Some _ \<Rightarrow> Some (\<lambda>raw recipients s.
         case svc_SendEmail V raw recipients s of
           None \<Rightarrow> (Some (ErrExt ''panic''), s)
         | Some (Inl e, s) \<Rightarrow> (Some e, s)
         | Some (Inr _, s) \<Rightarrow> (None, s)))"

text \<open>Reports of a sync, as the messages they put on the connection; an error is only logged.\<close>

definition syncProgressEvents :: "transport \<Rightarrow> sync_event \<Rightarrow> conn \<Rightarrow> conn" where
  "syncProgressEvents T event c =
     (case event of
       OnStarted tot \<Rightarrow> snd (SendSyncStarted T \<lparr>sn_Total = tot\<rparr> c)
     | OnProgress made tot pct \<Rightarrow>
         snd (SendSyncProgress T \<lparr>sg_Downloaded = made, sg_Total = tot, sg_Percent = pct\<rparr> c)
     | OnFinished made tot code \<Rightarrow>
         snd (SendSyncFinished T \<lparr>sf_Downloaded = made, sf_Total = tot, sf_Code = code\<rparr> c))"

section \<open>Starting and stopping the servers\<close>

definition imap_config_of :: "daemon_options \<Rightarrow> Session \<Rightarrow> 's service_state option \<Rightarrow> bool \<Rightarrow> bytes \<Rightarrow> imap_Config" where
  "imap_config_of opts session service tls passphrase =
     \<lparr>ic_ListenAddress = op_IMAPAddress opts, ic_DataDir = op_StateDir opts, ic_TLSConfig = tls,
      ic_LocalCredentials = \<lparr>cd_Username = lc_Username (ss_MailClient session),
        cd_Password = lc_Password (ss_MailClient session)\<rparr>,
      ic_StoragePassphrase = passphrase, ic_ConnectorFactory = Some (connectorFactory service),
      ic_LogProtocol = bc_LogImapProtocol (op_Config opts), ic_PollInterval = DefaultPollInterval,
      ic_StoreBuilder = attachmentStoreBuilder service\<rparr>"

definition startIMAP :: "('k, 'c) daemon_env \<Rightarrow> daemon_options \<Rightarrow> Session \<Rightarrow> bool \<Rightarrow> ('k, 's) daemon_state \<Rightarrow>
    (err + IMAPServer) \<times> ('k, 's) daemon_state" where
  "startIMAP D opts session tls s =
     (case storagePassphrase D (dm_store s) of
       (Inl e, k) \<Rightarrow> (Inl (ErrWrap ''start IMAP'' e), s\<lparr>dm_store := k\<rparr>)
     | (Inr passphrase, k) \<Rightarrow>
         let s = s\<lparr>dm_store := k\<rparr>;
             (r, effs) = imap_Start (dn_imap D)
               \<lparr>us_AccountID = ss_AccountID session, us_Addresses = ss_Addresses session\<rparr>
               (imap_config_of opts session (dm_service s) tls passphrase)
         in (wrap_err ''start IMAP'' r, note_effects (map IMAPEffect effs) s))"

definition startSMTP :: "('k, 'c) daemon_env \<Rightarrow> daemon_options \<Rightarrow> bool \<Rightarrow> ('k, 's) daemon_state \<Rightarrow>
    (err + smtp_service) \<times> ('k, 's) daemon_state" where
  "startSMTP D opts tls s =
     (let service = \<lparr>sc_srv = smtp_New (op_Config opts) tls, sc_listener = None\<rparr>
      in case smtp_Start (dn_listen D) service of
          (Some e, _) \<Rightarrow> (Inl (ErrWrap ''start SMTP'' e), s)
        | (None, service) \<Rightarrow> (Inr service, note_effects [SMTPListen (smtp_Address service)] s))"

definition close_imap :: "('k, 'c) daemon_env \<Rightarrow> IMAPServer \<Rightarrow> ('k, 's) daemon_state \<Rightarrow>
    err option \<times> ('k, 's) daemon_state" where
  "close_imap D im s =
     (case imap_Close (dn_imap D) im of (r, effs, _) \<Rightarrow> (r, note_effects (map IMAPEffect effs) s))"

definition stop_smtp :: "('k, 'c) daemon_env \<Rightarrow> ('k, 's) daemon_state \<Rightarrow> err option \<times> ('k, 's) daemon_state" where
  "stop_smtp D s = (smtp_Stop (dn_shutdown D), note_effects [SMTPShutdown] s)"

definition report_error :: "('k, 'c) daemon_env \<Rightarrow> string \<Rightarrow> ('k, 's) daemon_state \<Rightarrow> ('k, 's) daemon_state" where
  "report_error D code s =
     note_effects [ErrorSent code] (s\<lparr>dm_conn := snd (SendError (dn_transport D) [] code (dm_conn s))\<rparr>)"

section \<open>The run\<close>

text \<open>The handlers given to \<open>Serve\<close>.\<close>

definition handle_event :: "IMAPServer \<Rightarrow> control_event \<Rightarrow> ('k, 's) daemon_state \<Rightarrow> ('k, 's) daemon_state" where
  "handle_event im event s =
     (case event of
       OnResync \<Rightarrow> note_effects (ParentEvent event # map IMAPEffect (imap_Resync im)) s
     | OnSessionUpdate backend \<Rightarrow>
         note_effects [ParentEvent event] (s\<lparr>dm_service := map_option (SetToken (be_Token backend)) (dm_service s)\<rparr>))"

text \<open>
  The goroutine that serves the parent, run for a while: the events it acts on, and those left. The server it
  asks to sync is \<open>im\<close>, as it is by then.
\<close>

definition act_on :: "IMAPServer \<Rightarrow> nat \<Rightarrow> control_event list \<Rightarrow> ('k, 's) daemon_state \<Rightarrow>
    control_event list \<times> ('k, 's) daemon_state" where
  "act_on im n events s = (drop n events, fold (handle_event im) (take n events) s)"

text \<open>Steps of a run, from the \<open>k\<close>-th on, with that goroutine run before each.\<close>

fun amid :: "(nat \<Rightarrow> nat) \<Rightarrow> IMAPServer \<Rightarrow> nat \<Rightarrow> daemon_effect list \<Rightarrow> control_event list \<Rightarrow>
    ('k, 's) daemon_state \<Rightarrow> control_event list \<times> ('k, 's) daemon_state" where
  "amid pace im k [] events s = act_on im (pace k) events s"
| "amid pace im k (x # xs) events s =
     (case act_on im (pace k) events s of
       (events, s) \<Rightarrow> amid pace im (k + 1) xs events (note_effects [x] s))"

text \<open>
  Both servers are closed one after the other. \<open>Close\<close> of the IMAP server takes its poller away, under its
  mutex, before it does anything: what the parent asks for from then on finds none.
\<close>

definition shutdownServices :: "('k, 'c) daemon_env \<Rightarrow> IMAPServer \<Rightarrow> nat \<Rightarrow> control_event list \<Rightarrow>
    ('k, 's) daemon_state \<Rightarrow> err option \<times> ('k, 's) daemon_state" where
  "shutdownServices D im k events s =
     (case imap_Close (dn_imap D) im of
       (r, effs, im) \<Rightarrow>
         (errors_join [r, smtp_Stop (dn_shutdown D)],
          snd (amid (dn_pace D) im k (map IMAPEffect effs @ [SMTPShutdown]) events s)))"

definition ready_of :: "daemon_options \<Rightarrow> IMAPServer \<Rightarrow> bytes \<Rightarrow> Ready" where
  "ready_of opts im certificate =
     \<lparr>rd_IMAPAddress = ip_Address (imap_Status im), rd_SMTPAddress = bc_SMTPAddr (op_Config opts),
      rd_StartTLS = ip_StartTLS (imap_Status im), rd_Certificate = b64_encode certificate\<rparr>"

text \<open>
  Both servers are up: readiness, the first sync, and then two goroutines. One acts on the parent's messages,
  which are those \<open>Serve\<close> gives; the end of that goroutine, by a disconnect or by a message it cannot read,
  ends nothing else. The other waits for the context, and shuts down when it is done. The parent's events are
  acted on before the context ends, between its end and the shutdown, during the shutdown and after it,
  as the scheduler has it; what it has not come to when the run returns is not acted on.
\<close>

definition run_ready :: "('k, 'c) daemon_env \<Rightarrow> daemon_options \<Rightarrow> IMAPServer \<Rightarrow> bytes \<Rightarrow> ('k, 's) daemon_state \<Rightarrow>
    err option \<times> ('k, 's) daemon_state" where
  "run_ready D opts im certificate s =
     (case SendReady (dn_transport D) (ready_of opts im certificate) (dm_conn s) of
       (Some e, c) \<Rightarrow>
         let (_, s) = stop_smtp D (s\<lparr>dm_conn := c\<rparr>); (_, s) = close_imap D im s
         in (Some (ErrWrap ''report bridge readiness'' e), s)
     | (None, c) \<Rightarrow>
         let s = note_effects (ReadySent # map IMAPEffect (imap_Resync im)) (s\<lparr>dm_conn := c\<rparr>);
             (_, events, c) = Serve (dn_transport D) False (dn_ended D) True True 0 [] (dm_conn s);
             (events, s) = amid (dn_pace D) im 0 [RunContextDone] events (s\<lparr>dm_conn := c\<rparr>)
         in shutdownServices D im 2 events s)"

text \<open>The two servers, with or without TLS.\<close>

definition run_services :: "('k, 'c) daemon_env \<Rightarrow> daemon_options \<Rightarrow> Session \<Rightarrow> bool \<Rightarrow> bytes \<Rightarrow> ('k, 's) daemon_state \<Rightarrow>
    err option \<times> ('k, 's) daemon_state" where
  "run_services D opts session tls certificate s =
     (case startIMAP D opts session tls s of
       (Inl e, s) \<Rightarrow> (Some e, report_error D ''start_imap'' s)
     | (Inr im, s) \<Rightarrow>
         (case startSMTP D opts tls s of
           (Inl e, s) \<Rightarrow> (let (_, s) = close_imap D im s in (Some e, report_error D ''start_smtp'' s))
         | (Inr _, s) \<Rightarrow> run_ready D opts im certificate s))"

definition run_session :: "('k, 'c) daemon_env \<Rightarrow> daemon_options \<Rightarrow> 's \<Rightarrow> Session \<Rightarrow> ('k, 's) daemon_state \<Rightarrow>
    err option \<times> ('k, 's) daemon_state" where
  "run_session D opts api session s =
     (let s = s\<lparr>dm_service := (case mailService (dn_transport D) opts session api of Inl _ \<Rightarrow> None | Inr sv \<Rightarrow> Some sv)\<rparr>
      in if bc_TLS (op_Config opts) then
           (case localTLS D (dm_store s) of
             (Inl _, k) \<Rightarrow> run_services D opts session False [] (s\<lparr>dm_store := k\<rparr>)
           | (Inr (_, der), k) \<Rightarrow> run_services D opts session True der (s\<lparr>dm_store := k\<rparr>))
         else run_services D opts session False [] s)"

definition run_connected :: "('k, 'c) daemon_env \<Rightarrow> daemon_options \<Rightarrow> 's \<Rightarrow> ('k, 's) daemon_state \<Rightarrow>
    err option \<times> ('k, 's) daemon_state" where
  "run_connected D opts api s =
     (case ReceiveStartSession (dn_transport D) (dm_conn s) of
       (Inl e, c) \<Rightarrow> (Some e, s\<lparr>dm_conn := c\<rparr>)
     | (Inr session, c) \<Rightarrow> run_session D opts api session (s\<lparr>dm_conn := c\<rparr>))"

text \<open>The connection is closed whichever way the run ends, after everything else.\<close>

definition close_control :: "('k, 's) daemon_state \<Rightarrow> ('k, 's) daemon_state" where
  "close_control s = note_effects [ControlClosed] (s\<lparr>dm_conn := client_Close (dm_conn s)\<rparr>)"

definition Run :: "('k, 'c) daemon_env \<Rightarrow> daemon_options \<Rightarrow> 's \<Rightarrow> ('k, 's) daemon_state \<Rightarrow>
    err option \<times> ('k, 's) daemon_state" where
  "Run D opts api s =
     (if op_ControlEndpoint opts = [] then (Some (ErrNew ''control endpoint is required''), s)
      else case Connect (dn_dial D) (op_ControlEndpoint opts) of
          Some e \<Rightarrow> (Some e, s)
        | None \<Rightarrow>
            (case run_connected D opts api (note_effects [ControlOpened] s) of (r, s) \<Rightarrow> (r, close_control s)))"

section \<open>Logging out\<close>

text \<open>
  \<open>os.RemoveAll\<close> on the files the store's directory is made of, Gluon's and the control socket among them:
  what is under the directory is gone when it succeeds; when it fails, what \<open>survives\<close> it is left.
\<close>

definition in_dir :: "string \<Rightarrow> string \<Rightarrow> bool" where
  "in_dir dir path \<longleftrightarrow> has_prefix path (dir @ ''/'')"

definition os_RemoveAll :: "(string \<Rightarrow> bool) \<Rightarrow> string \<Rightarrow> ('k disk_state, unit) op" where
  "os_RemoveAll survives dir s =
     (case os_call s of
       (Inl e, s) \<Rightarrow> (Inl e, s\<lparr>ds_files := (\<lambda>p. if in_dir dir p \<and> \<not> survives p then None else ds_files s p)\<rparr>)
     | (Inr _, s) \<Rightarrow> (Inr (), s\<lparr>ds_files := (\<lambda>p. if in_dir dir p then None else ds_files s p)\<rparr>))"

text \<open>
  \<open>reset\<close>: the store was opened or not (\<open>opened\<close>), and the directory is removed, with what that does to
  the store's state (\<open>rm\<close>); both are tried.
\<close>

definition daemon_reset :: "index_codec \<Rightarrow> 'k backend \<Rightarrow> err option \<Rightarrow> ('k, unit) op \<Rightarrow> 'k \<Rightarrow> err option \<times> 'k" where
  "daemon_reset J B opened rm k =
     (let (e, k) = (case opened of
            Some e \<Rightarrow> (Some (ErrWrap ''open store'' e), k)
          | None \<Rightarrow> (case store_Clear J B k of
              (Inl e, k) \<Rightarrow> (Some (ErrWrap ''clear store'' e), k)
            | (Inr _, k) \<Rightarrow> (None, k)));
          (r, k) = rm k
      in (errors_join [e, err_of (wrap_err ''remove state directory'' r)], k))"

end
