(* ===== verification/DaemonProps.thy ===== *)
theory DaemonProps
  imports Daemon LocalServersProps ControlProps
begin

text \<open>
  What holds of every run of the bridge, however the parent, the sockets and the libraries answer and
  however its two goroutines are scheduled: what it started it stops, the control connection included,
  nothing starts without a session that passed validation, nothing is asked of the mailbox before the
  parent was told the bridge is ready, and nothing is stopped before the context ends.
\<close>

section \<open>Reading a trace\<close>

fun imap_part :: "daemon_effect list \<Rightarrow> server_effect list" where
  "imap_part [] = []"
| "imap_part (IMAPEffect x # tr) = x # imap_part tr"
| "imap_part (_ # tr) = imap_part tr"

fun smtp_part :: "daemon_effect list \<Rightarrow> daemon_effect list" where
  "smtp_part [] = []"
| "smtp_part (SMTPListen a # tr) = SMTPListen a # smtp_part tr"
| "smtp_part (SMTPShutdown # tr) = SMTPShutdown # smtp_part tr"
| "smtp_part (_ # tr) = smtp_part tr"

lemma imap_part_append [simp]: "imap_part (tr @ tr') = imap_part tr @ imap_part tr'"
  by (induction tr rule: imap_part.induct) simp_all

lemma smtp_part_append [simp]: "smtp_part (tr @ tr') = smtp_part tr @ smtp_part tr'"
  by (induction tr rule: smtp_part.induct) simp_all

lemma part_map_IMAP [simp]: "imap_part (map IMAPEffect xs) = xs" "smtp_part (map IMAPEffect xs) = []"
  by (induction xs) simp_all

text \<open>Asking the mailbox to sync, and acting on the parent's messages.\<close>

fun is_request :: "daemon_effect \<Rightarrow> bool" where
  "is_request (IMAPEffect RequestSync) = True"
| "is_request (ParentEvent event) = True"
| "is_request _ = False"

definition ready_first :: "daemon_effect list \<Rightarrow> bool" where
  "ready_first tr \<longleftrightarrow> list_all (\<lambda>x. \<not> is_request x) (takeWhile (\<lambda>x. x \<noteq> ReadySent) tr)"

definition silent :: "daemon_effect list \<Rightarrow> bool" where
  "silent tr \<longleftrightarrow> list_all (\<lambda>x. \<not> is_request x) tr"

lemma silent_append [simp]: "silent (tr @ tr') \<longleftrightarrow> silent tr \<and> silent tr'"
  by (simp add: silent_def)

lemma silent_ready_first: "silent tr \<Longrightarrow> ready_first tr"
  by (auto simp: silent_def ready_first_def list_all_iff dest: set_takeWhileD)

lemma silent_then_ready: "silent tr \<Longrightarrow> ready_first (tr @ ReadySent # tr')"
proof (induction tr)
  case (Cons x tr)
  then show ?case by (cases "x = ReadySent") (simp_all add: ready_first_def silent_def)
qed (simp add: ready_first_def)

text \<open>What closes something, and what is done with the control connection.\<close>

fun closes :: "daemon_effect \<Rightarrow> bool" where
  "closes (IMAPEffect x) \<longleftrightarrow> x \<in> {CloseGluon, StopServing, CloseListener, StopPoller}"
| "closes SMTPShutdown = True"
| "closes ControlClosed = True"
| "closes _ = False"

fun is_control :: "daemon_effect \<Rightarrow> bool" where
  "is_control ControlOpened = True"
| "is_control ControlClosed = True"
| "is_control _ = False"

text \<open>Once it is ready, nothing is closed before the context ends; and a poller that is stopped is not asked.\<close>

definition waits :: "daemon_effect list \<Rightarrow> bool" where
  "waits tr \<longleftrightarrow> (ReadySent \<in> set tr \<longrightarrow>
     RunContextDone \<in> set tr \<and> list_all (\<lambda>x. \<not> closes x) (takeWhile (\<lambda>x. x \<noteq> RunContextDone) tr))"

definition rests :: "daemon_effect list \<Rightarrow> bool" where
  "rests tr \<longleftrightarrow> IMAPEffect RequestSync \<notin> set (dropWhile (\<lambda>x. x \<noteq> IMAPEffect StopPoller) tr)"

text \<open>A run between the opening of the control connection and its end.\<close>

definition clean_run :: "daemon_effect list \<Rightarrow> bool" where
  "clean_run tr \<longleftrightarrow> left_open (imap_part tr) = {} \<and>
     (smtp_part tr = [] \<or> (\<exists>address. smtp_part tr = [SMTPListen address, SMTPShutdown])) \<and>
     list_all (\<lambda>x. \<not> is_control x) tr \<and> ready_first tr \<and> waits tr \<and> rests tr"

lemma silent_clean_run:
  assumes "silent tr" "ReadySent \<notin> set tr" "list_all (\<lambda>x. \<not> is_control x) tr" "left_open (imap_part tr) = {}"
    and "smtp_part tr = [] \<or> (\<exists>address. smtp_part tr = [SMTPListen address, SMTPShutdown])"
  shows "clean_run tr"
proof -
  have "IMAPEffect RequestSync \<notin> set tr" using assms(1) by (auto simp: silent_def list_all_iff)
  then have "rests tr" unfolding rests_def by (metis set_dropWhileD)
  then show ?thesis using assms silent_ready_first by (simp add: clean_run_def waits_def)
qed

text \<open>What the parent asks for opens and closes nothing.\<close>

lemma requests_parts:
  assumes "list_all is_request xs"
  shows "smtp_part xs = []" "fold effect_on (imap_part xs) R = R" "list_all (\<lambda>x. \<not> closes x) xs"
    "list_all (\<lambda>x. \<not> is_control x) xs" "RunContextDone \<notin> set xs"
proof -
  have "smtp_part xs = [] \<and> fold effect_on (imap_part xs) R = R \<and> list_all (\<lambda>x. \<not> closes x) xs \<and>
      list_all (\<lambda>x. \<not> is_control x) xs \<and> RunContextDone \<notin> set xs"
    using assms
  proof (induction xs)
    case (Cons x xs)
    then show ?case by (cases x rule: is_request.cases) auto
  qed simp
  then show "smtp_part xs = []" "fold effect_on (imap_part xs) R = R" "list_all (\<lambda>x. \<not> closes x) xs"
    "list_all (\<lambda>x. \<not> is_control x) xs" "RunContextDone \<notin> set xs" by blast+
qed

text \<open>What a run does itself, the parent's requests left out.\<close>

definition own :: "daemon_effect list \<Rightarrow> daemon_effect list" where
  "own tr = filter (\<lambda>x. \<not> is_request x) tr"

lemma own_append [simp]: "own (tr @ tr') = own tr @ own tr'"
  by (simp add: own_def)

lemma own_requests: "list_all is_request xs \<Longrightarrow> own xs = []"
  by (auto simp: own_def list_all_iff filter_empty_conv)

lemma own_parts:
  "smtp_part (own tr) = smtp_part tr" "fold effect_on (imap_part (own tr)) R = fold effect_on (imap_part tr) R"
  "list_all (\<lambda>x. \<not> is_control x) (own tr) = list_all (\<lambda>x. \<not> is_control x) tr"
proof -
  show "smtp_part (own tr) = smtp_part tr"
  proof (induction tr)
    case (Cons x tr)
    then show ?case by (cases x rule: is_request.cases) (simp_all add: own_def)
  qed (simp add: own_def)
  show "fold effect_on (imap_part (own tr)) R = fold effect_on (imap_part tr) R"
  proof (induction tr arbitrary: R)
    case (Cons x tr)
    then show ?case by (cases x rule: is_request.cases) (simp_all add: own_def)
  qed (simp add: own_def)
  show "list_all (\<lambda>x. \<not> is_control x) (own tr) = list_all (\<lambda>x. \<not> is_control x) tr"
  proof (induction tr)
    case (Cons x tr)
    then show ?case by (cases x rule: is_request.cases) (simp_all add: own_def)
  qed (simp add: own_def)
qed

section \<open>The servers\<close>

lemma resolveConfig_keeps:
  "resolveConfig E session cfg = Inr cfg' \<Longrightarrow> ic_PollInterval cfg' = ic_PollInterval cfg"
  by (auto simp: resolveConfig_def Let_def split: option.splits if_splits)

lemma imap_Start_polled:
  assumes "imap_Start E session cfg = (Inl e, effs)" and "ic_PollInterval cfg > 0"
  shows "\<not> initial_sync_error e"
proof
  assume sync: "initial_sync_error e"
  obtain cfg' where cfg': "resolveConfig E session cfg = Inr cfg'"
    using assms(1) sync resolveConfig_error by (cases "resolveConfig E session cfg") (auto simp: imap_Start_def)
  then have "ic_PollInterval cfg' > 0" using resolveConfig_keeps [OF cfg'] assms(2) by simp
  then show False
    using assms(1) cfg' sync
    by (auto simp: imap_Start_def Let_def createGluonServer_def connectMailbox_def startServing_def
        split: option.splits sum.splits if_splits)
qed

lemma imap_Start_silent: "imap_Start E session cfg = (r, effs) \<Longrightarrow> RequestSync \<notin> set effs"
  by (auto simp: imap_Start_def Let_def createGluonServer_def connectMailbox_def startServing_def
      split: option.splits sum.splits if_splits)

lemma imap_Start_closes:
  assumes "imap_Start E session cfg = (Inr im, effs)"
  shows "list_all (\<lambda>x. \<not> closes x) (map IMAPEffect effs)"
proof -
  have "CloseGluon \<notin> set effs \<and> StopServing \<notin> set effs \<and> CloseListener \<notin> set effs \<and> StopPoller \<notin> set effs"
    using assms
    by (auto simp: imap_Start_def Let_def createGluonServer_def connectMailbox_def startServing_def
        split: option.splits sum.splits if_splits)
  then show ?thesis by (auto simp: list_all_iff)
qed

lemma map_IMAP_others [simp]:
  "list_all (\<lambda>x. \<not> is_control x) (map IMAPEffect xs)" "ReadySent \<notin> set (map IMAPEffect xs)"
  by (auto simp: list_all_iff)

lemma silent_map_IMAP: "RequestSync \<notin> set xs \<Longrightarrow> silent (map IMAPEffect xs)"
proof (induction xs)
  case (Cons x xs)
  then show ?case by (cases x) (simp_all add: silent_def)
qed (simp add: silent_def)

definition serving :: "IMAPServer \<Rightarrow> server_effect list \<Rightarrow> bool" where
  "serving im effs \<longleftrightarrow> im_started im \<and> im_server im \<and> im_listener im \<and> im_stopServing im \<and>
     left_open effs = {RGluon, RListener, RContext} \<union> (if im_poller im then {RPoller} else {})"

lemma startIMAP_cases:
  assumes "startIMAP D opts session tls s = (r, s1)"
  obtains (failed) e effs where "r = Inl e" and "dm_trace s1 = dm_trace s @ map IMAPEffect effs"
      and "left_open effs = {}" and "RequestSync \<notin> set effs"
  | (started) im effs where "r = Inr im" and "dm_trace s1 = dm_trace s @ map IMAPEffect effs"
      and "serving im effs" and "RequestSync \<notin> set effs" and "list_all (\<lambda>x. \<not> closes x) (map IMAPEffect effs)"
proof (cases "storagePassphrase D (dm_store s)")
  case (Pair p k)
  show ?thesis
  proof (cases p)
    case (Inl e)
    then show ?thesis using assms Pair failed [of _ "[]"] by (auto simp: startIMAP_def)
  next
    case (Inr passphrase)
    let ?cfg = "imap_config_of opts session (dm_service s) tls passphrase"
    let ?session = "\<lparr>us_AccountID = ss_AccountID session, us_Addresses = ss_Addresses session\<rparr>"
    obtain q effs where q: "imap_Start (dn_imap D) ?session ?cfg = (q, effs)" by fastforce
    have r: "r = wrap_err ''start IMAP'' q" "dm_trace s1 = dm_trace s @ map IMAPEffect effs"
      using assms Pair Inr q by (auto simp: startIMAP_def note_effects_def)
    have "ic_PollInterval ?cfg > 0" by (simp add: imap_config_of_def DefaultPollInterval_def)
    note polled = imap_Start_polled [OF _ this]
    from q show ?thesis
    proof (cases rule: imap_Start_cases)
      case (failed e)
      then show ?thesis using r that(1) imap_Start_silent [OF q] by auto
    next
      case (unsynced e)
      then show ?thesis using polled [OF q [unfolded unsynced(1)]] by simp
    next
      case (serving srv)
      then show ?thesis using r that(2) imap_Start_silent [OF q] imap_Start_closes q by (auto simp: serving_def)
    qed
  qed
qed

lemma startSMTP_cases:
  assumes "startSMTP D opts tls s = (r, s1)"
  obtains (failed) e where "r = Inl e" and "s1 = s"
  | (started) sm address where "r = Inr sm" and "dm_trace s1 = dm_trace s @ [SMTPListen address]"
  using assms by (auto simp: startSMTP_def note_effects_def Let_def split: prod.splits option.splits)

lemma close_imap_releases:
  assumes "close_imap D im s = (r, s1)" and "serving im effs"
  obtains effs' where "dm_trace s1 = dm_trace s @ map IMAPEffect effs'" and "RequestSync \<notin> set effs'"
    and "fold effect_on effs' (left_open effs) = {}"
proof -
  let ?effs' = "(if im_poller im then [StopPoller] else []) @ [CloseListener, CloseGluon, StopServing]"
  have "dm_trace s1 = dm_trace s @ map IMAPEffect ?effs'"
    using assms by (auto simp: close_imap_def imap_Close_def note_effects_def serving_def Let_def)
  moreover have "fold effect_on ?effs' (left_open effs) = {}"
    using assms(2) by (auto simp: serving_def)
  moreover have "RequestSync \<notin> set ?effs'" by simp
  ultimately show ?thesis using that by blast
qed

lemma report_error_trace [simp]: "dm_trace (report_error D code s) = dm_trace s @ [ErrorSent code]"
  by (simp add: report_error_def note_effects_def)

lemma stop_smtp_trace [simp]: "dm_trace (snd (stop_smtp D s)) = dm_trace s @ [SMTPShutdown]"
  by (simp add: stop_smtp_def note_effects_def)

text \<open>What the parent sends adds requests to the trace, and none of a server whose poller is gone.\<close>

definition from_parent :: "IMAPServer \<Rightarrow> daemon_effect list \<Rightarrow> bool" where
  "from_parent im xs \<longleftrightarrow> list_all is_request xs \<and> (\<not> im_poller im \<longrightarrow> IMAPEffect RequestSync \<notin> set xs)"

lemma handle_events_trace:
  "\<exists>xs. dm_trace (fold (handle_event im) events s) = dm_trace s @ xs \<and> from_parent im xs"
proof (induction events arbitrary: s)
  case Nil
  then show ?case by (auto simp: from_parent_def)
next
  case (Cons event events)
  have "\<exists>ys. dm_trace (handle_event im event s) = dm_trace s @ ys \<and> from_parent im ys"
    by (cases event) (auto simp: handle_event_def note_effects_def imap_Resync_def from_parent_def)
  then obtain ys where ys: "dm_trace (handle_event im event s) = dm_trace s @ ys" "from_parent im ys" by blast
  obtain xs where "dm_trace (fold (handle_event im) events (handle_event im event s)) =
      dm_trace (handle_event im event s) @ xs" "from_parent im xs"
    using Cons.IH by blast
  then show ?case using ys by (intro exI [of _ "ys @ xs"]) (auto simp: from_parent_def)
qed

lemma amid_trace:
  "amid pace im k steps events s = (rest, s') \<Longrightarrow> list_all (\<lambda>x. \<not> is_request x) steps \<Longrightarrow>
     \<exists>ys. dm_trace s' = dm_trace s @ ys \<and> own ys = steps \<and>
       (\<not> im_poller im \<longrightarrow> IMAPEffect RequestSync \<notin> set ys)"
proof (induction steps arbitrary: k events s)
  case Nil
  then show ?case
    using handle_events_trace [of im "take (pace k) events" s] own_requests
    by (auto simp: act_on_def from_parent_def)
next
  case (Cons x steps)
  let ?s1 = "fold (handle_event im) (take (pace k) events) s"
  obtain xs where xs: "dm_trace ?s1 = dm_trace s @ xs" "from_parent im xs" using handle_events_trace by blast
  have "amid pace im (k + 1) steps (drop (pace k) events) (note_effects [x] ?s1) = (rest, s')"
    using Cons.prems(1) by (simp add: act_on_def)
  from Cons.IH [OF this] Cons.prems(2) obtain ys where
    "dm_trace s' = dm_trace (note_effects [x] ?s1) @ ys" "own ys = steps"
    "\<not> im_poller im \<longrightarrow> IMAPEffect RequestSync \<notin> set ys" by auto
  then have "dm_trace s' = dm_trace s @ (xs @ x # ys)" "own (xs @ x # ys) = x # steps"
    "\<not> im_poller im \<longrightarrow> IMAPEffect RequestSync \<notin> set (xs @ x # ys)"
    using xs Cons.prems(2) by (auto simp: note_effects_def from_parent_def own_requests) (auto simp: own_def)
  then show ?case by blast
qed

section \<open>A run\<close>

text \<open>The end of a run that was ready: the context is done, and then both servers are closed.\<close>

lemma shutdown_trace:
  assumes "shutdownServices D im k events s = (r, s')" and "serving im effs"
  obtains ys effs' where "dm_trace s' = dm_trace s @ ys" "own ys = map IMAPEffect effs' @ [SMTPShutdown]"
    "IMAPEffect RequestSync \<notin> set ys" "fold effect_on effs' (left_open effs) = {}"
proof -
  let ?effs' = "(if im_poller im then [StopPoller] else []) @ [CloseListener, CloseGluon, StopServing]"
  obtain q im' where close: "imap_Close (dn_imap D) im = (q, ?effs', im')" and im': "\<not> im_poller im'"
    using assms(2) by (auto simp: imap_Close_def serving_def Let_def)
  obtain rest where "amid (dn_pace D) im' k (map IMAPEffect ?effs' @ [SMTPShutdown]) events s = (rest, s')"
    using assms(1) close by (auto simp: shutdownServices_def prod_eq_iff)
  moreover have "list_all (\<lambda>x. \<not> is_request x) (map IMAPEffect ?effs' @ [SMTPShutdown])"
    by (cases "im_poller im") simp_all
  ultimately obtain ys where "dm_trace s' = dm_trace s @ ys"
    "own ys = map IMAPEffect ?effs' @ [SMTPShutdown]" "IMAPEffect RequestSync \<notin> set ys"
    using amid_trace im' by metis
  moreover have "fold effect_on ?effs' (left_open effs) = {}" using assms(2) by (auto simp: serving_def)
  ultimately show ?thesis using that by blast
qed

lemma takeWhile_before: "x \<notin> set xs \<Longrightarrow> takeWhile (\<lambda>y. y \<noteq> x) (xs @ x # ys) = xs"
  by (induction xs) auto

lemma dropWhile_after: "x \<notin> set xs \<Longrightarrow> dropWhile (\<lambda>y. y \<noteq> x) (xs @ ys) = dropWhile (\<lambda>y. y \<noteq> x) ys"
  by (induction xs) auto

lemma ready_clean_run:
  assumes opened: "left_open effs = R" "list_all (\<lambda>x. \<not> closes x) (map IMAPEffect effs)" "RequestSync \<notin> set effs"
    and asked: "list_all is_request asked" and before: "own before = []" and after: "own after = []"
    and closed: "own ys = map IMAPEffect effs' @ [SMTPShutdown]" "IMAPEffect RequestSync \<notin> set ys"
      "fold effect_on effs' R = {}"
  shows "clean_run (map IMAPEffect effs @ SMTPListen address # ReadySent # asked @ before @ RunContextDone # after @ ys)"
proof -
  let ?pre = "map IMAPEffect effs @ [SMTPListen address]" and ?post = "asked @ before @ RunContextDone # after @ ys"
  let ?tr = "?pre @ ReadySent # ?post"
  have req: "list_all is_request before" "list_all is_request after"
    using before after by (auto simp: own_def filter_empty_conv list_all_iff)
  have own: "own ?tr = ?pre @ [ReadySent, RunContextDone] @ map IMAPEffect effs' @ [SMTPShutdown]"
    using opened(3) own_requests [OF asked] before after closed(1)
    by (simp add: own_def filter_id_conv) (auto simp: filter_id_conv elim: is_request.elims)
  have "left_open (imap_part ?tr) = fold effect_on (imap_part (own ?tr)) {}"
    by (simp only: left_open_def own_parts)
  also have "\<dots> = {}" unfolding own using opened(1) closed(3) by (simp add: left_open_def)
  finally have "left_open (imap_part ?tr) = {}" .
  moreover have "smtp_part ?tr = [SMTPListen address, SMTPShutdown]"
    by (simp only: own_parts(1) [symmetric, of ?tr] own) simp
  moreover have "list_all (\<lambda>x. \<not> is_control x) ?tr"
    by (simp only: own_parts(3) [symmetric, of ?tr] own) simp
  moreover have "silent ?pre" using silent_map_IMAP [OF opened(3)] by (simp add: silent_def)
  then have "ready_first ?tr" by (rule silent_then_ready)
  moreover have early: "list_all (\<lambda>x. \<not> closes x) (?pre @ ReadySent # asked @ before)"
    using opened(2) requests_parts(3) [OF asked] requests_parts(3) [OF req(1)] by simp
  have "RunContextDone \<notin> set (?pre @ ReadySent # asked @ before)"
    using requests_parts(5) [OF asked] requests_parts(5) [OF req(1)] by auto
  from takeWhile_before [OF this, of "after @ ys"] early have "waits ?tr" by (simp add: waits_def)
  moreover have "\<not> closes x" if "x \<in> set (?pre @ ReadySent # asked @ before @ RunContextDone # after)" for x
    using that early requests_parts(3) [OF req(2)] unfolding list_all_iff by auto
  then have "IMAPEffect StopPoller \<notin> set (?pre @ ReadySent # asked @ before @ RunContextDone # after)" by fastforce
  from dropWhile_after [OF this, of ys] have "rests ?tr"
    using closed(2) by (auto simp: rests_def dest: set_dropWhileD)
  ultimately show ?thesis by (simp add: clean_run_def)
qed

lemma run_ready_trace:
  assumes "run_ready D opts im certificate s = (r, s')" and "serving im effs"
    and "dm_trace s = tr @ map IMAPEffect effs @ [SMTPListen address]" and "RequestSync \<notin> set effs"
    and "list_all (\<lambda>x. \<not> closes x) (map IMAPEffect effs)"
  shows "\<exists>tr'. dm_trace s' = tr @ tr' \<and> clean_run tr'"
proof (cases "SendReady (dn_transport D) (ready_of opts im certificate) (dm_conn s)")
  case (Pair e c)
  show ?thesis
  proof (cases e)
    case (Some e')
    let ?s1 = "snd (stop_smtp D (s\<lparr>dm_conn := c\<rparr>))"
    obtain q s2 where close: "close_imap D im ?s1 = (q, s2)" by fastforce
    then have s': "s' = s2"
      using assms(1) Pair Some by (simp add: run_ready_def case_prod_beta Let_def)
    obtain effs' where effs': "dm_trace s2 = dm_trace ?s1 @ map IMAPEffect effs'" "RequestSync \<notin> set effs'"
      "fold effect_on effs' (left_open effs) = {}"
      using close_imap_releases [OF close assms(2)] .
    let ?tr = "map IMAPEffect effs @ [SMTPListen address, SMTPShutdown] @ map IMAPEffect effs'"
    have "silent ?tr"
      using silent_map_IMAP [OF assms(4)] silent_map_IMAP [OF effs'(2)] by (simp add: silent_def)
    then have "clean_run ?tr" using effs'(3) by (intro silent_clean_run) (auto simp: left_open_append)
    moreover have "dm_trace s' = tr @ ?tr" using s' effs'(1) assms(3) by simp
    ultimately show ?thesis by blast
  next
    case None
    let ?resync = "map IMAPEffect (imap_Resync im)"
    let ?s0 = "note_effects (ReadySent # ?resync) (s\<lparr>dm_conn := c\<rparr>)"
    obtain err events c' where serve: "Serve (dn_transport D) False (dn_ended D) True True 0 [] (dm_conn ?s0) = (err, events, c')"
      by (cases "Serve (dn_transport D) False (dn_ended D) True True 0 [] (dm_conn ?s0)") auto
    obtain events1 s1 where s1: "amid (dn_pace D) im 0 [RunContextDone] events (?s0\<lparr>dm_conn := c'\<rparr>) = (events1, s1)"
      by fastforce
    have down: "shutdownServices D im 2 events1 s1 = (r, s')"
      using assms(1) Pair None serve s1 by (simp add: run_ready_def Let_def)
    from amid_trace [OF s1] obtain xs where xs: "dm_trace s1 = dm_trace (?s0\<lparr>dm_conn := c'\<rparr>) @ xs" "own xs = [RunContextDone]"
      by auto
    from xs(2) obtain before "after" where b: "xs = before @ RunContextDone # after" "own before = []" "own after = []"
      unfolding own_def filter_eq_Cons_iff by (metis filter_False)
    obtain ys effs' where ys: "dm_trace s' = dm_trace s1 @ ys" "own ys = map IMAPEffect effs' @ [SMTPShutdown]"
      "IMAPEffect RequestSync \<notin> set ys" "fold effect_on effs' (left_open effs) = {}"
      using shutdown_trace [OF down assms(2)] .
    have "list_all is_request ?resync" by (simp add: imap_Resync_def)
    from ready_clean_run [OF refl assms(5,4) this b(2,3) ys(2-4), of address]
    have "clean_run (map IMAPEffect effs @ SMTPListen address # ReadySent # ?resync @ before @ RunContextDone # after @ ys)" .
    moreover have "dm_trace s' = tr @ map IMAPEffect effs @ SMTPListen address # ReadySent # ?resync @ before @ RunContextDone # after @ ys"
      using ys(1) xs(1) b(1) assms(3) by (simp add: note_effects_def)
    ultimately show ?thesis by blast
  qed
qed

lemma run_services_trace:
  assumes run: "run_services D opts session tls certificate s0 = (r, s')"
  shows "\<exists>tr'. dm_trace s' = dm_trace s0 @ tr' \<and> clean_run tr'"
proof -
  obtain q s1 where imap: "startIMAP D opts session tls s0 = (q, s1)" by fastforce
  from imap show ?thesis
  proof (cases rule: startIMAP_cases)
    case (failed e effs)
    let ?tr = "map IMAPEffect effs @ [ErrorSent ''start_imap'']"
    have "silent ?tr" using silent_map_IMAP [OF failed(4)] by (simp add: silent_def)
    then have "clean_run ?tr" using failed(3) by (intro silent_clean_run) auto
    moreover have "dm_trace s' = dm_trace s0 @ ?tr" using run imap failed by (auto simp: run_services_def)
    ultimately show ?thesis by blast
  next
    case (started im effs)
    obtain p s2 where smtp: "startSMTP D opts tls s1 = (p, s2)" by fastforce
    from smtp show ?thesis
    proof (cases rule: startSMTP_cases)
      case (failed e)
      obtain x s3 where close: "close_imap D im s1 = (x, s3)" by fastforce
      have s': "s' = report_error D ''start_smtp'' s3"
        using run imap started(1) smtp failed close by (simp add: run_services_def)
      obtain effs' where effs': "dm_trace s3 = dm_trace s1 @ map IMAPEffect effs'" "RequestSync \<notin> set effs'"
        "fold effect_on effs' (left_open effs) = {}"
        using close_imap_releases [OF close started(3)] .
      let ?tr = "map IMAPEffect effs @ map IMAPEffect effs' @ [ErrorSent ''start_smtp'']"
      have "silent ?tr"
        using silent_map_IMAP [OF started(4)] silent_map_IMAP [OF effs'(2)] by (simp add: silent_def)
      then have "clean_run ?tr" using effs'(3) by (intro silent_clean_run) (auto simp: left_open_append)
      moreover have "dm_trace s' = dm_trace s0 @ ?tr" using s' effs'(1) started(2) by simp
      ultimately show ?thesis by blast
    next
      case inner: (started sm address)
      have "run_ready D opts im certificate s2 = (r, s')" using run imap started(1) smtp inner(1) by (simp add: run_services_def)
      from run_ready_trace [OF this started(3) _ started(4,5)] inner(2) started(2) show ?thesis by simp
    qed
  qed
qed

lemma run_session_trace:
  assumes "run_session D opts api session s = (r, s')"
  shows "\<exists>tr'. dm_trace s' = dm_trace s @ tr' \<and> clean_run tr'"
proof -
  obtain tls certificate s0 where "run_services D opts session tls certificate s0 = (r, s')" and "dm_trace s0 = dm_trace s"
    using assms by (auto simp: run_session_def Let_def split: if_splits prod.splits sum.splits)
  then show ?thesis using run_services_trace by metis
qed

lemma ReceiveStartSession_valid:
  "ReceiveStartSession T c = (Inr session, c') \<Longrightarrow> validateSession T session = None"
  by (auto simp: ReceiveStartSession_def split: prod.splits sum.splits if_splits option.splits)


text \<open>
  A run with a session whose backend material cannot be read, so the fixture mailbox is served: the
  parent sends its session and closes the connection.
\<close>

definition toy_session :: Session where
  "toy_session = \<lparr>ss_AccountID = ''1'', ss_Addresses = [''a@inxt.me''], ss_BackendSession = [1],
     ss_MailClient = \<lparr>lc_Username = ''u'', lc_Password = ''p''\<rparr>\<rparr>"

definition toy_parent :: transport where
  "toy_parent = toy_transport\<lparr>ct_Decode := (\<lambda>p. Inr (no_message\<lparr>m_Type := startSessionType,
     m_Session := Some toy_session\<rparr>, []))\<rparr>"

definition toy_daemon :: "(memory, unit) daemon_env" where
  "toy_daemon = \<lparr>dn_dial = (\<lambda>a. None), dn_transport = toy_parent, dn_ended = (\<lambda>k. None), dn_pace = id, dn_open = None,
     dn_backend = memoryKeychain, dn_codec = demo_codec, dn_rand = toy_entropy, dn_tls = toy_tls, dn_now = 0,
     dn_imap = toy_imap None, dn_listen = Inr, dn_shutdown = None\<rparr>"

definition toy_options :: daemon_options where
  "toy_options = DefaultOptions (\<lambda>a b. a @ ''/'' @ b) (Load b64_decode (\<lambda>k. []))"

definition toy_start :: "(memory, unit) daemon_state" where
  "toy_start = \<lparr>dm_conn = toy_conn (frame_of [1]), dm_store = Map.empty, dm_service = None, dm_trace = []\<rparr>"

lemma toy_parent_facts:
  "ends_with_EOF toy_parent" "setDeadline toy_parent d = None" "progressing toy_parent"
  "ct_Marshal toy_parent m = Inr (str_bytes (m_Type m))"
  by (simp_all add: toy_parent_def toy_transport_def ends_with_EOF_def setDeadline_def progressing_def)

lemma toy_receives: "ReceiveStartSession toy_parent (toy_conn (frame_of [1])) = (Inr toy_session, toy_conn [])"
proof -
  have f: "frameable [1]" by (simp add: frameable_def MaxFrameSize_def)
  have "readFrame toy_parent True (toy_conn (frame_of [1])) = (Inr [1], toy_conn [])"
    using readFrame_frame [OF f, of "toy_conn (frame_of [1])" "[]" toy_parent True]
    by (simp add: toy_conn_def toy_parent_facts)
  moreover have "ct_Decode toy_parent [1] = Inr (no_message\<lparr>m_Type := startSessionType,
     m_Session := Some toy_session\<rparr>, [])" "ct_Valid toy_parent [1]"
    by (simp_all add: toy_parent_def toy_transport_def)
  ultimately show ?thesis
    using toy_parent_facts(1)
    by (simp add: ReceiveStartSession_def ReadMessage_def ensureEOF_def ends_with_EOF_def startSessionType_def
        validateSession_def toy_session_def no_message_def)
qed

lemma toy_passphrase: "\<exists>k. storagePassphrase toy_daemon Map.empty = (Inr (replicate 32 5), k)"
  by (simp add: storagePassphrase_def toy_daemon_def ensure_passphrase_def store_Get_def memoryKeychain_def
      memory_Get_def memory_Set_def randomBytes_def toy_entropy_def storagePassphraseBytes_def store_Set_def
      addToIndex_def store_index_def saveIndex_def KeyStoragePassphrase_def indexKey_def keychainMaxBytes_def
      demo_codec_def)

lemma toy_imap_starts:
  "\<exists>im effs. imap_Start (toy_imap None) \<lparr>us_AccountID = ss_AccountID toy_session, us_Addresses = ss_Addresses toy_session\<rparr>
      (imap_config_of toy_options toy_session None False passphrase) = (Inr im, effs) \<and>
    ip_Address (im_status im) \<noteq> []"
  by (simp add: toy_imap_defs imap_config_of_def toy_options_def DefaultOptions_def Load_def env_or_def
      JoinHostPort_def toy_session_def connectorFactory_def DefaultStateDir_def Let_def)

lemma act_on_none [simp]: "act_on im n [] s = ([], s)"
  by (simp add: act_on_def)

lemma amid_none: "amid pace im k steps [] s = ([], note_effects steps s)"
proof (induction steps arbitrary: k s)
  case (Cons x steps)
  then show ?case by (simp add: act_on_def note_effects_def)
qed (simp add: act_on_def note_effects_def)

lemma toy_run_ready:
  assumes "ip_Address (im_status im) \<noteq> []" and "dm_conn s = toy_conn []"
  shows "\<exists>r s'. run_ready toy_daemon toy_options im [] s = (r, s') \<and> ReadySent \<in> set (dm_trace s') \<and>
    SMTPShutdown \<in> set (dm_trace s')"
proof -
  let ?ready = "ready_of toy_options im []"
  have "rd_IMAPAddress ?ready \<noteq> []" "rd_SMTPAddress ?ready \<noteq> []"
    using assms(1) by (simp_all add: ready_of_def imap_Status_def toy_options_def DefaultOptions_def Load_def
        env_or_def JoinHostPort_def Let_def)
  moreover have "frameable (str_bytes readyType)" by (simp add: frameable_def readyType_def MaxFrameSize_def)
  note writeFrame_delivers [OF toy_parent_facts(3) this, of "toy_conn []"]
  ultimately obtain c where ready: "SendReady toy_parent ?ready (toy_conn []) = (None, c)"
    and c: "cn_in c = []" "cn_end c = ErrSentinel IoEOF"
    by (auto simp: SendReady_def client_send_def WriteMessage_def toy_parent_facts toy_conn_def)
  have "Serve toy_parent False (\<lambda>k. None) True True 0 [] c =
      (ErrWrap ''read control message'' (ErrSentinel IoEOF), [], c)"
    by (rule Serve_end [OF c toy_parent_facts(2)])
  then show ?thesis
    using ready assms(2)
    by (simp add: run_ready_def toy_daemon_def Let_def shutdownServices_def case_prod_beta)
      (simp add: amid_none note_effects_def)
qed


text \<open>
  A sync the parent asked for that finds nothing new is reported as finished without having been
  reported as started: the report of its start has a total of 0, which the control channel refuses.
\<close>

lemma empty_sync_only_finishes:
  assumes "ce_onProgress V" "ce_onStarted V" "ce_onFinished V"
    and "progressing T" "\<And>m. ct_Marshal T m = Inr (payload m)" "\<And>m. frameable (payload m)"
  shows "snd (downloadNewMessages V MS schedules True [] c) = [OnStarted 0, OnFinished 0 0 []] \<and>
    cn_out (fold (syncProgressEvents T) [OnStarted 0, OnFinished 0 0 []] conn) = cn_out conn @ frame_of (payload
      (no_message\<lparr>m_Type := syncFinishedType, m_Finished := Some \<lparr>sf_Downloaded = 0, sf_Total = 0, sf_Code = []\<rparr>\<rparr>))"
proof
  show "snd (downloadNewMessages V MS schedules True [] c) = [OnStarted 0, OnFinished 0 0 []]"
    using assms(1-3) by (simp add: downloadNewMessages_def newProgressReporter_def finish_def Let_def)
  show "cn_out (fold (syncProgressEvents T) [OnStarted 0, OnFinished 0 0 []] conn) = cn_out conn @ frame_of (payload
      (no_message\<lparr>m_Type := syncFinishedType, m_Finished := Some \<lparr>sf_Downloaded = 0, sf_Total = 0, sf_Code = []\<rparr>\<rparr>))"
    using writeFrame_delivers [OF assms(4,6), of "no_message\<lparr>m_Type := syncFinishedType,
        m_Finished := Some \<lparr>sf_Downloaded = 0, sf_Total = 0, sf_Code = []\<rparr>\<rparr>" conn]
    by (auto simp: syncProgressEvents_def SendSyncStarted_def SendSyncFinished_def client_send_def WriteMessage_def assms(5))
qed

end
