(* ===== verification/Schema.thy ===== *)
theory Schema
  imports Client Base64 Commands
begin

text \<open>
  The rest of \<open>internal/api/types.gen.go\<close>: the enumerations of the Mail API with their \<open>Valid\<close>
  functions, the bodies and parameters of the endpoints the program does not call, and what the
  schema documents of the requests it does make. An enumeration is the string it is on the wire and
  the list of its values is the constants of the generated block.
\<close>

section \<open>Enumerations\<close>

type_synonym MailAccountState = string

definition MailAccountState_values :: "MailAccountState list" where
  "MailAccountState_values = [''active'', ''suspended'']"

definition MailAccountState_Valid :: "MailAccountState \<Rightarrow> bool" where
  "MailAccountState_Valid e \<longleftrightarrow> e \<in> set MailAccountState_values"

type_synonym ReplyEmailRequestDtoDeliveryMode = string

definition ReplyDeliveryMode_values :: "ReplyEmailRequestDtoDeliveryMode list" where
  "ReplyDeliveryMode_values = [''EXTERNAL'', ''INTERNXT'']"

definition ReplyDeliveryMode_Valid :: "ReplyEmailRequestDtoDeliveryMode \<Rightarrow> bool" where
  "ReplyDeliveryMode_Valid e \<longleftrightarrow> e \<in> set ReplyDeliveryMode_values"

type_synonym UpdateEmailRequestDtoMailbox = string

definition UpdateMailbox_values :: "UpdateEmailRequestDtoMailbox list" where
  "UpdateMailbox_values = [''archive'', ''drafts'', ''inbox'', ''sent'', ''spam'', ''trash'']"

definition UpdateMailbox_Valid :: "UpdateEmailRequestDtoMailbox \<Rightarrow> bool" where
  "UpdateMailbox_Valid e \<longleftrightarrow> e \<in> set UpdateMailbox_values"

type_synonym EmailControllerListParamsMailbox = string

definition ListMailbox_values :: "EmailControllerListParamsMailbox list" where
  "ListMailbox_values = [''archive'', ''drafts'', ''inbox'', ''sent'', ''spam'', ''trash'']"

definition ListMailbox_Valid :: "EmailControllerListParamsMailbox \<Rightarrow> bool" where
  "ListMailbox_Valid e \<longleftrightarrow> e \<in> set ListMailbox_values"

text \<open>The mailbox enumerations carry the same values under different generated types.\<close>

lemma same_mailboxes:
  "UpdateMailbox_Valid e = MailboxResponseDtoType_Valid e" "ListMailbox_Valid e = MailboxResponseDtoType_Valid e"
  by (auto simp: UpdateMailbox_Valid_def UpdateMailbox_values_def ListMailbox_Valid_def ListMailbox_values_def
      MailboxResponseDtoType_Valid_def mailbox_defs)

lemma same_delivery_modes: "ReplyDeliveryMode_Valid e = DeliveryMode_Valid e"
  by (auto simp: ReplyDeliveryMode_Valid_def ReplyDeliveryMode_values_def DeliveryMode_Valid_def
      DeliveryModeEXTERNAL_def DeliveryModeINTERNXT_def)

section \<open>Accounts and domains\<close>

record MailAddressKeyBundleDto =
  kb_EncryptionPrivateKey :: string
  kb_PublicKey :: string
  kb_RecoveryPrivateKey :: string

record CreateMailAccountDto =
  ca_Address :: string
  ca_DisplayName :: string
  ca_Domain :: string
  ca_Keys :: MailAddressKeyBundleDto

record CreateMailAccountResponseDto =
  cx_Address :: string
  cx_Domain :: string
  cx_Id :: string

record MailAccountKeysResponseDto =
  mk_Address :: string
  mk_EncryptionPrivateKey :: string
  mk_PublicKey :: string
  mk_RecoveryPrivateKey :: string

record MailAccountStatusResponseDto =
  mt_DefaultAddress :: "string option"
  mt_DeletionAt :: "string option"
  mt_Id :: string
  mt_Status :: MailAccountState
  mt_SuspendedAt :: "string option"

record MailDomainDto =
  md_CreatedAt :: string
  md_Domain :: string
  md_Id :: string
  md_Status :: string
  md_UpdatedAt :: string

section \<open>Queries\<close>

record SearchEmailQueryDto =
  sq_After :: "string option"
  sq_Before :: "string option"
  sq_From :: "string list option"
  sq_HasAttachment :: "bool option"
  sq_Limit :: "float32 option"
  sq_Position :: "float32 option"
  sq_Text :: "string option"
  sq_To :: "string list option"
  sq_Unread :: "bool option"

record CheckAvailabilityParams =
  cp_Username :: string
  cp_Domain :: string

record EmailControllerListParams =
  lp_Mailbox :: "EmailControllerListParamsMailbox option"
  lp_Limit :: "float32 option"
  lp_Position :: "float32 option"
  lp_AnchorId :: "string option"
  lp_Unread :: "bool option"

record GetMailAccountKeysParams =
  gp_Address :: "string option"

section \<open>What the schema asks of a request\<close>

text \<open>A field documented as base64 is read by a decoder of the standard alphabet.\<close>

definition base64_field :: "string \<Rightarrow> bool" where
  "base64_field s \<longleftrightarrow> is_ok (b64_decode s)"

definition wrapped_key_ok :: "EncryptedWrappedKeyDto \<Rightarrow> bool" where
  "wrapped_key_ok k \<longleftrightarrow> base64_field (ewk_EncryptedKey k) \<and> base64_field (ewk_HybridCiphertext k)"

definition block_ok :: "EncryptionBlockDto \<Rightarrow> bool" where
  "block_ok b \<longleftrightarrow> eb_Version b = ''v3'' \<and> base64_field (eb_EncryptedAttachmentsSessionKey b) \<and> base64_field (eb_EncryptedPreview b) \<and>
     base64_field (eb_EncryptedText b) \<and> eb_WrappedKeys b \<noteq> [] \<and> list_all wrapped_key_ok (eb_WrappedKeys b)"

definition when_set :: "('a \<Rightarrow> bool) \<Rightarrow> 'a option \<Rightarrow> bool" where
  "when_set P x \<longleftrightarrow> (case x of None \<Rightarrow> True | Some y \<Rightarrow> P y)"

lemma when_set_simps [simp]: "when_set P None" "when_set P (Some x) = P x"
  by (simp_all add: when_set_def)

text \<open>A draft's block has a single wrapped key, the sender's.\<close>

fun request_typed :: "call \<Rightarrow> bool" where
  "request_typed (CallUpdate t i u) = when_set UpdateMailbox_Valid (up_Mailbox u)"
| "request_typed (CallSend t r) = (when_set DeliveryMode_Valid (se_DeliveryMode r) \<and> when_set block_ok (se_Encryption r))"
| "request_typed (CallReply t i r) =
     (i \<noteq> [] \<and> when_set ReplyDeliveryMode_Valid (re_DeliveryMode r) \<and> when_set block_ok (re_Encryption r))"
| "request_typed (CallSaveDraft t r) =
     when_set (\<lambda>b. block_ok b \<and> length (eb_WrappedKeys b) = 1) (dr_Encryption r)"
| "request_typed (CallUpload t n y content) = (content \<noteq> [])"
| "request_typed _ = True"

text \<open>
  The addresses of a request: \<open>to\<close> of an email to send is an array of at least one, \<open>to\<close> of a reply is an
  array when it is there (a nil slice would be \<open>null\<close>), and a lookup is of 1 to 50 addresses.
\<close>

fun request_addressed :: "call \<Rightarrow> bool" where
  "request_addressed (CallSend t r) = (addresses_of (se_To r) \<noteq> [])"
| "request_addressed (CallReply t i r) = (re_To r \<noteq> Some None)"
| "request_addressed (CallLookup t addresses) = (1 \<le> length addresses \<and> length addresses \<le> 50)"
| "request_addressed _ = True"

definition request_ok :: "call \<Rightarrow> bool" where
  "request_ok q \<longleftrightarrow> request_typed q \<and> request_addressed q"

text \<open>
  The program does not check the addresses of a message against the schema before it asks. The requests about
  a message that break it are these three: the lookup of more than 50 addresses, the email with no
  recipient in \<open>To\<close>, and the reply without a \<open>To\<close> at all.
\<close>

fun breaks_schema :: "unicode \<Rightarrow> OutgoingMessage \<Rightarrow> call \<Rightarrow> bool" where
  "breaks_schema U msg (CallLookup t addresses) =
     (addresses = uniqueAddresses U [addresses_of (om_To msg), om_Cc msg, om_Bcc msg] \<and> 50 < length addresses)"
| "breaks_schema U msg (CallSend t r) =
     (om_InReplyToEmailID msg = [] \<and> se_To r = om_To msg \<and> addresses_of (om_To msg) = [])"
| "breaks_schema U msg (CallReply t i r) =
     (i \<noteq> [] \<and> i = om_InReplyToEmailID msg \<and> re_To r = Some None \<and> om_To msg = None)"
| "breaks_schema U msg q = False"

text \<open>A message none of whose requests do.\<close>

definition addressed_well :: "unicode \<Rightarrow> OutgoingMessage \<Rightarrow> bool" where
  "addressed_well U msg \<longleftrightarrow>
     length (uniqueAddresses U [addresses_of (om_To msg), om_Cc msg, om_Bcc msg]) \<le> 50 \<and>
     (if om_InReplyToEmailID msg = [] then addresses_of (om_To msg) \<noteq> [] else om_To msg \<noteq> None)"

lemma addressed_well_none: "addressed_well U msg \<Longrightarrow> \<not> breaks_schema U msg q"
  by (cases q) (auto simp: addressed_well_def split: if_splits)

end
