(* ===== verification/SchemaProps.thy ===== *)
theory SchemaProps
  imports Schema CommandsProps
begin

text \<open>
  That what the mail commands ask of the service is typed the way the API's schema has it. The
  commands that write are the terms, \<open>request_ok\<close> is the type of a call, and a session is any
  sequence of commands against any client.
\<close>

section \<open>The commands that write\<close>

datatype command =
    WriteSend OutgoingMessage bytes
  | WriteDraft OutgoingMessage
  | WriteDiscard "string list"
  | WriteMove "string list" Mailbox
  | WriteRead "string list" bool
  | WriteFlagged "string list" bool
  | WriteDelete "string list"

fun run_command :: "deps \<Rightarrow> 's client \<Rightarrow> string \<Rightarrow> Account \<Rightarrow> rand \<times> command \<Rightarrow> 's \<Rightarrow> 's" where
  "run_command D C token account (R, WriteSend msg serverPublicKey) s =
     snd (SendEmail D R C token msg account serverPublicKey s)"
| "run_command D C token account (R, WriteDraft msg) s = snd (SaveDraft D R C token msg account s)"
| "run_command D C token account (R, WriteDiscard ids) s = snd (DiscardDrafts C token ids s)"
| "run_command D C token account (R, WriteMove ids mailbox) s = snd (Move C token ids mailbox s)"
| "run_command D C token account (R, WriteRead ids b) s = snd (MarkRead C token ids b s)"
| "run_command D C token account (R, WriteFlagged ids b) s = snd (MarkFlagged C token ids b s)"
| "run_command D C token account (R, WriteDelete ids) s = snd (Delete C token ids s)"

section \<open>Envelopes are blocks of the schema\<close>

named_theorems typing

text \<open>
  Every request so far has the types of the schema, and its addresses are as the schema asks or it is one
  of \<open>X\<close>, the exceptions.
\<close>

definition calls_typed :: "(call \<Rightarrow> bool) \<Rightarrow> call list \<Rightarrow> bool" where
  "calls_typed X l \<longleftrightarrow> list_all request_typed l \<and> list_all (\<lambda>q. request_addressed q \<or> X q) l"

definition well_typed :: "(call \<Rightarrow> bool) \<Rightarrow> 's \<times> call list \<Rightarrow> bool" where
  "well_typed X a \<longleftrightarrow> calls_typed X (snd a)"

lemma calls_typed_simps [simp]:
  "calls_typed X []"
  "calls_typed X (l @ [q]) \<longleftrightarrow> calls_typed X l \<and> request_typed q \<and> (request_addressed q \<or> X q)"
  by (auto simp: calls_typed_def)

lemma well_typed_simps [simp]: "well_typed X (s, l) \<longleftrightarrow> calls_typed X l" "calls_typed X (snd a) \<longleftrightarrow> well_typed X a"
  by (simp_all add: well_typed_def)

lemma well_typed_wrap [typing]: "well_typed X (snd p) \<Longrightarrow> well_typed X (snd (wrap_st m p))"
  by simp

lemmas well_typed_bind [typing] = bind_st_invariant [where P = "well_typed X" for X]

lemma base64_field_encode [simp]: "base64_field (b64_encode bs)"
  by (simp add: base64_field_def)

lemma seal_session_key_encoded:
  "seal_session_key E R k key recipients = Inr wks \<Longrightarrow>
     list_all (\<lambda>w. base64_field (wk_EncryptedKey w) \<and> base64_field (wk_HybridCiphertext w)) wks"
  by (induction E R k key recipients arbitrary: wks rule: seal_session_key.induct) auto

lemma BuildEnvelope_block_ok:
  assumes b: "BuildEnvelope E R email recipients = Inr envelope"
  shows "block_ok (toEncryptionBlock envelope)"
    and "length (eb_WrappedKeys (toEncryptionBlock envelope)) = length recipients"
proof -
  from b obtain sk t p k wks where r: "recipients \<noteq> []" and
    wks: "seal_session_key E R 5 sk recipients = Inr wks" and
    env: "envelope = \<lparr>env_Version = envelopeVersion,
             env_EncryptedText = b64_encode t,
             env_EncryptedPreview = b64_encode p,
             env_EncryptedAttachmentsSessionKey = b64_encode k,
             env_WrappedKeys = wks\<rparr>"
    by (auto simp: BuildEnvelope_def split: if_splits)
  have l: "length wks = length recipients"
    using seal_session_key_addresses [OF wks] by (metis length_map)
  then show "length (eb_WrappedKeys (toEncryptionBlock envelope)) = length recipients"
    by (simp add: toEncryptionBlock_def env)
  show "block_ok (toEncryptionBlock envelope)"
    using l r seal_session_key_encoded [OF wks]
    by (auto simp: toEncryptionBlock_def env block_ok_def envelopeVersion_def wrapped_key_ok_def
        list_all_iff)
qed

section \<open>Each command is well typed\<close>

lemma updateEach_typed [typing]:
  "when_set UpdateMailbox_Valid (up_Mailbox u) \<Longrightarrow> well_typed X a \<Longrightarrow>
     well_typed X (snd (updateEach (recording C) token ids u a))"
  by (induction ids arbitrary: a) (auto intro!: typing)

lemma Delete_typed [typing]: "well_typed X a \<Longrightarrow> well_typed X (snd (Delete (recording C) token ids a))"
  by (induction ids arbitrary: a) (auto intro!: typing)

lemma DiscardDrafts_typed [typing]:
  "well_typed X a \<Longrightarrow> well_typed X (snd (DiscardDrafts (recording C) token ids a))"
  by (induction ids arbitrary: a) (auto intro!: typing)

lemma Move_typed [typing]:
  assumes "well_typed X a"
  shows "well_typed X (snd (Move (recording C) token ids mailbox a))"
proof (cases "updateMailbox mailbox")
  case (Inl e)
  with assms show ?thesis by (simp add: Move_def)
next
  case (Inr destination)
  then have "UpdateMailbox_Valid destination"
    by (auto simp: updateMailbox_def UpdateMailbox_Valid_def UpdateMailbox_values_def mailbox_defs
        split: if_splits)
  with Inr assms show ?thesis by (auto simp: Move_def intro!: typing)
qed

lemma Mark_typed [typing]:
  "well_typed X a \<Longrightarrow> well_typed X (snd (MarkRead (recording C) token ids b a))"
  "well_typed X a \<Longrightarrow> well_typed X (snd (MarkFlagged (recording C) token ids b a))"
  by (auto simp: MarkRead_def MarkFlagged_def no_update_def intro!: typing)

lemma sealed_nonempty:
  assumes "rand_ok R" "EncryptSymmetrically E R k key p aux = Inr c"
  shows "c \<noteq> []"
  using assms rand_okD [OF assms(1), of k 12]
  by (fastforce simp: EncryptSymmetrically_def newAESGCM_def aesGCM_Seal_def ivLen_def split: if_splits)

lemma uploadAttachments_typed [typing]:
  assumes R: "rand_ok R" and a: "well_typed X a"
  shows "well_typed X (snd (uploadAttachments E R k (recording C) token atts key a))"
  using a
proof (induction atts arbitrary: k a)
  case (Cons att atts)
  show ?case
  proof (cases "EncryptSymmetrically E R k key (oa_Content att) []")
    case (Inr sealed)
    with sealed_nonempty [OF R Inr] Cons show ?thesis by (auto intro!: typing)
  qed (use Cons.prems in simp)
qed simp

lemma prepare_attachments_typed [typing]:
  "rand_ok R \<Longrightarrow> well_typed X a \<Longrightarrow> well_typed X (snd (prepare_attachments E R (recording C) token msg a))"
  by (auto simp: prepare_attachments_def split: sum.split intro!: typing)

text \<open>The exceptions that one message may need.\<close>

definition excuses :: "(call \<Rightarrow> bool) \<Rightarrow> unicode \<Rightarrow> OutgoingMessage \<Rightarrow> bool" where
  "excuses X U msg \<longleftrightarrow> (\<forall>q. breaks_schema U msg q \<longrightarrow> X q)"

lemma submit_typed [typing]:
  assumes "block_ok block" "DeliveryMode_Valid mode" "excuses X U msg" "well_typed X a"
  shows "well_typed X (snd (submit (recording C) token msg block atts mode a))"
  using assms breaks_schema.simps(3) [of U msg token "om_InReplyToEmailID msg"]
  by (cases "om_To msg") (auto simp: submit_def submitReply_def same_delivery_modes excuses_def intro!: typing)

lemma lookupKeys_typed [typing]:
  assumes "addresses = uniqueAddresses U [addresses_of (om_To msg), om_Cc msg, om_Bcc msg]" "addresses \<noteq> []"
    and "excuses X U msg" "well_typed X a"
  shows "well_typed X (snd (lookupKeys U' (recording C) token addresses a))"
proof -
  have "request_addressed (CallLookup token addresses) \<or> X (CallLookup token addresses)"
    using assms(1-3) by (cases "length addresses \<le> 50") (auto simp: excuses_def Suc_le_eq)
  with assms(4) show ?thesis by (auto simp: lookupKeys_def intro!: typing)
qed

lemma SendEmail_typed [typing]:
  assumes "rand_ok R" "excuses X (dp_unicode D) msg" "well_typed X a"
  shows "well_typed X (snd (SendEmail D R (recording C) token msg account serverPublicKey a))"
proof -
  have m: "DeliveryMode_Valid DeliveryModeEXTERNAL" "DeliveryMode_Valid DeliveryModeINTERNXT"
    by (simp_all add: DeliveryMode_Valid_def)
  show ?thesis
    using assms m
    by (auto simp: SendEmail_def Let_def intro!: typing BuildEnvelope_block_ok(1)
        split: sum.split prod.split)
qed

lemma SaveDraft_typed [typing]:
  assumes "well_typed X a"
  shows "well_typed X (snd (SaveDraft D R (recording C) token msg account a))"
proof (cases "BuildEnvelope (dp_prims D) R (msg_body msg)
    [\<lparr>rc_Address = ac_Address account, rc_PublicKey = ac_PublicKey account\<rparr>]")
  case (Inl e)
  with assms show ?thesis by (simp add: SaveDraft_def)
next
  case (Inr envelope)
  with assms BuildEnvelope_block_ok [OF Inr] show ?thesis
    by (auto simp: SaveDraft_def intro!: typing)
qed

fun command_excused :: "(call \<Rightarrow> bool) \<Rightarrow> unicode \<Rightarrow> command \<Rightarrow> bool" where
  "command_excused X U (WriteSend msg serverPublicKey) = excuses X U msg"
| "command_excused X U c = True"

lemma run_command_typed:
  "rand_ok R \<Longrightarrow> command_excused X (dp_unicode D) c \<Longrightarrow> well_typed X a \<Longrightarrow>
     well_typed X (run_command D (recording C) token account (R, c) a)"
  by (cases c) (auto intro!: typing)

lemma commands_typed:
  assumes "\<forall>(R, c) \<in> set commands. rand_ok R \<and> command_excused X (dp_unicode D) c" "well_typed X a"
  shows "well_typed X (fold (run_command D (recording C) token account) commands a)"
  using assms
proof (induction commands arbitrary: a)
  case (Cons c commands)
  then show ?case by (cases c) (simp add: run_command_typed)
qed simp

text \<open>
  C11: whatever messages are sent, replied to, drafted, moved, marked or deleted, in any order and
  whatever the service answers, every request made is of the type the schema gives it: the delivery
  modes and the destination mailboxes are values of their enumerations; what is sealed is a block of
  version 3 whose fields are all base64, with at least one wrapped key and exactly one in a draft; a
  reply names the email it replies to; and no attachment is uploaded empty. The addresses are as the schema
  asks too (an email is sent to at least one \<open>To\<close>, the \<open>to\<close> of a reply is an array, a lookup
  is of 1 to 50 addresses), except in three requests that the program makes unchecked: the lookup for a
  message with more than 50 addresses, the email with nobody in \<open>To\<close>, whose \<open>to\<close> is null or
  empty, and the reply without a \<open>To\<close>, whose \<open>to\<close> is null. When every message sent has a \<open>To\<close>
  and at most 50 addresses, all requests conform.
\<close>

theorem requests_conform:
  assumes "\<forall>(R, c) \<in> set commands. rand_ok R"
  shows "let requests = snd (fold (run_command D (recording C) token account) commands (s, [])) in
    list_all request_typed requests \<and>
    (\<forall>q \<in> set requests. request_addressed q \<or>
       (\<exists>R msg serverPublicKey. (R, WriteSend msg serverPublicKey) \<in> set commands \<and> breaks_schema (dp_unicode D) msg q)) \<and>
    ((\<forall>R msg serverPublicKey. (R, WriteSend msg serverPublicKey) \<in> set commands \<longrightarrow> addressed_well (dp_unicode D) msg) \<longrightarrow>
       list_all request_ok requests)"
proof -
  let ?X = "\<lambda>q. \<exists>R msg serverPublicKey. (R, WriteSend msg serverPublicKey) \<in> set commands \<and> breaks_schema (dp_unicode D) msg q"
  have "command_excused ?X (dp_unicode D) c" if "(R, c) \<in> set commands" for R c
    using that by (cases c) (auto simp: excuses_def)
  with assms(1) have "\<forall>(R, c) \<in> set commands. rand_ok R \<and> command_excused ?X (dp_unicode D) c" by blast
  then have "well_typed ?X (fold (run_command D (recording C) token account) commands (s, []))"
    by (rule commands_typed) simp
  then have "list_all request_typed requests" "\<forall>q \<in> set requests. request_addressed q \<or> ?X q"
    if "requests = snd (fold (run_command D (recording C) token account) commands (s, []))" for requests
    using that by (auto simp: well_typed_def calls_typed_def list_all_iff)
  then show ?thesis
    unfolding Let_def using addressed_well_none by (fastforce simp: list_all_iff request_ok_def)
qed

lemma moves_logged:
  "snd (fold (run_command toy_deps (recording kind_client) ''t'' no_account)
      [(toy_rand, WriteMove [''a'', ''b''] ''archive''), (toy_rand, WriteMove [''a''] ''outbox''),
       (toy_rand, WriteDelete [''a''])] ((), [])) =
     [CallUpdate ''t'' ''a'' (no_update\<lparr>up_Mailbox := Some ''archive''\<rparr>),
      CallUpdate ''t'' ''b'' (no_update\<lparr>up_Mailbox := Some ''archive''\<rparr>), CallDelete ''t'' ''a'']"
proof -
  have m: "updateMailbox ''archive'' = Inr ''archive''"
    "updateMailbox ''outbox'' = Inl (ErrNew ''cannot move mail to this mailbox'')"
    by (simp_all add: updateMailbox_def mailbox_defs)
  have c: "cl_UpdateEmail kind_client t i u s = (Inr (), s)" "cl_DeleteEmail kind_client t i s = (Inr (), s)" for t i u s
    by (simp_all add: kind_client_def)
  show ?thesis by (simp add: Move_def m c logged_def)
qed

lemma toy_message_addressed_well: "addressed_well (dp_unicode toy_deps) toy_message"
proof -
  have "uniqueAddresses (dp_unicode toy_deps) [addresses_of (om_To toy_message), om_Cc toy_message, om_Bcc toy_message] =
      [''bob@inxt.eu'']" by (rule toy_addresses(1))
  then show ?thesis by (simp add: addressed_well_def) (simp add: toy_message_def)
qed

theorem requests_conform_witness:
  "list_all request_ok (snd (fold (run_command toy_deps (recording kind_client) ''t'' no_account)
     [(toy_rand, WriteSend toy_message toy_server_key), (toy_rand, WriteDraft toy_message),
      (toy_rand, WriteMove [''a'', ''b''] ''archive'')] ((), [])))"
proof -
  let ?cs = "[(toy_rand, WriteSend toy_message toy_server_key), (toy_rand, WriteDraft toy_message),
      (toy_rand, WriteMove [''a'', ''b''] ''archive'')]"
  have "\<forall>(R, c) \<in> set ?cs. rand_ok R" by (simp only: list.set ball_simps split_conv toy_rand_ok)
  moreover have "\<forall>R msg serverPublicKey. (R, WriteSend msg serverPublicKey) \<in> set ?cs \<longrightarrow>
      addressed_well (dp_unicode toy_deps) msg"
    by (simp add: toy_message_addressed_well)
  ultimately show ?thesis using requests_conform [of ?cs toy_deps kind_client, unfolded Let_def] by blast
qed

end
