(* ===== verification/Mirror.thy ===== *)
theory Mirror
  imports MailConnectorProps
begin

text \<open>
  What Gluon has been told of the account. The abstraction of the updates sent so far is a map from the
  messages to the folders they are in and their flags; the specification of a sync is the same map made
  of the account's folders. A sync that gets an answer of every folder brings the one to the other, after
  any life of the connector in which no news was cut short; what becomes of news cut short is the claim
  at the end.
\<close>

section \<open>What the updates say\<close>

type_synonym told = "string \<rightharpoonup> string set \<times> string set"

definition told_folders :: "told \<Rightarrow> string \<Rightarrow> string set" where
  "told_folders t k = (case t k of None \<Rightarrow> {} | Some (folders, flags) \<Rightarrow> folders)"

text \<open>A message that is announced again is in the new folders as well.\<close>

definition tell_created :: "message_created \<Rightarrow> told \<Rightarrow> told" where
  "tell_created m t = t(mc_ID m \<mapsto> (set (mc_MailboxIDs m) \<union> told_folders t (mc_ID m), mc_Flags m))"

fun tell :: "update \<Rightarrow> told \<Rightarrow> told" where
  "tell (MailboxCreated mailbox) t = t"
| "tell (MessagesCreated b ms) t = fold tell_created ms t"
| "tell (MessageMailboxesUpdated k folders flags) t = t(k \<mapsto> (set folders, flags))"
| "tell (MessagesDeleted ks) t = t |` (- set ks)"

definition told_by :: "update list \<Rightarrow> told" where
  "told_by us = fold tell us Map.empty"

lemma told_by_append [simp]: "told_by (us @ vs) = fold tell vs (told_by us)"
  by (simp add: told_by_def)

lemma told_by_Nil [simp]: "told_by [] = Map.empty"
  by (simp add: told_by_def)

lemma fold_deleted: "fold tell (map (\<lambda>k. MessagesDeleted [k]) ks) t = t |` (- set ks)"
  by (induction ks arbitrary: t) (auto simp: restrict_map_def fun_eq_iff)

section \<open>The account\<close>

type_synonym account = "(MailboxResponseDto \<times> EmailSummaryResponseDto list) list"

definition emails :: "account \<Rightarrow> EmailSummaryResponseDto list" where
  "emails A = concat (map snd A)"

definition folders_of :: "account \<Rightarrow> string \<Rightarrow> string set" where
  "folders_of A k = {mb_Id mailbox | mailbox ms. (mailbox, ms) \<in> set A \<and> k \<in> su_Id ` set ms}"

definition shown :: "messageState \<Rightarrow> string set \<times> string set" where
  "shown state = (set (st_mailboxIDs state), state_flags state)"

lemma folders_of_simps [simp]:
  "folders_of [] k = {}"
  "folders_of ((mailbox, ms) # A) k = (if k \<in> su_Id ` set ms then {mb_Id mailbox} else {}) \<union> folders_of A k"
  unfolding folders_of_def by auto

text \<open>The account as a mail client should see it.\<close>

definition account_view :: "account \<Rightarrow> told" where
  "account_view A k =
     (case find (\<lambda>m. su_Id m = k) (emails A) of
       None \<Rightarrow> None | Some m \<Rightarrow> Some (folders_of A k, messageFlags m))"

text \<open>
  One moment of the account: an email is the same in every folder that holds it, and names each of
  these folders once.
\<close>

definition coherent :: "account \<Rightarrow> bool" where
  "coherent A \<longleftrightarrow>
     (\<forall>m \<in> set (emails A). distinct (su_MailboxIds m) \<and> set (su_MailboxIds m) = folders_of A (su_Id m) \<and>
        (\<forall>m' \<in> set (emails A). su_Id m' = su_Id m \<longrightarrow> stateOf m' = stateOf m))"

lemma messageFlags_state: "messageFlags m = state_flags (stateOf m)"
  by (simp add: messageFlags_def state_flags_def stateOf_def)

lemma coherent_view:
  assumes "coherent A" "m \<in> set (emails A)"
  shows "account_view A (su_Id m) = Some (shown (stateOf m))" "states_of (emails A) (su_Id m) = Some (stateOf m)"
proof -
  have same: "stateOf m' = stateOf m" if "m' \<in> set (emails A)" "su_Id m' = su_Id m" for m'
    using assms that unfolding coherent_def by blast
  have boxes: "set (su_MailboxIds m) = folders_of A (su_Id m)" using assms unfolding coherent_def by blast
  obtain m' where f: "find (\<lambda>x. su_Id x = su_Id m) (emails A) = Some m'"
    using assms(2) by (cases "find (\<lambda>x. su_Id x = su_Id m) (emails A)") (auto simp: find_None_iff)
  then have "m' \<in> set (emails A)" "su_Id m' = su_Id m" unfolding find_Some_iff by auto
  then have "messageFlags m' = state_flags (stateOf m)" using same by (simp add: messageFlags_state)
  moreover have "st_mailboxIDs (stateOf m) = su_MailboxIds m" by (simp add: stateOf_def)
  ultimately show "account_view A (su_Id m) = Some (shown (stateOf m))"
    unfolding account_view_def f shown_def by (simp add: boxes)
  have "\<forall>x \<in> set (emails A). \<forall>y \<in> set (emails A). su_Id x = su_Id y \<longrightarrow> stateOf x = stateOf y"
    using assms(1) unfolding coherent_def by metis
  then show "states_of (emails A) (su_Id m) = Some (stateOf m)"
    using assms(2) by (rule states_of_consistent)
qed

lemma account_view_states: "coherent A \<Longrightarrow> account_view A = map_option shown \<circ> states_of (emails A)"
proof (rule ext)
  fix k
  assume A: "coherent A"
  show "account_view A k = (map_option shown \<circ> states_of (emails A)) k"
  proof (cases "k \<in> su_Id ` set (emails A)")
    case True
    with coherent_view [OF A] show ?thesis by auto
  next
    case False
    then have "find (\<lambda>m. su_Id m = k) (emails A) = None" by (auto simp: find_None_iff)
    moreover have "states_of (emails A) k = None" using False dom_states_of [of "emails A"] by (auto simp: dom_def)
    ultimately show ?thesis by (simp add: account_view_def)
  qed
qed

text \<open>The sync's own comparison is a comparison of what is shown.\<close>

lemma sameAs_shown:
  assumes "distinct (st_mailboxIDs s)" "distinct (st_mailboxIDs t)"
  shows "sameAs s t \<longleftrightarrow> shown s = shown t \<and> st_isRead s = st_isRead t \<and> st_isFlagged s = st_isFlagged t \<and>
    st_isDraft s = st_isDraft t"
proof -
  have "set (st_mailboxIDs s) = set (st_mailboxIDs t)"
    if "length (st_mailboxIDs s) = length (st_mailboxIDs t)" "set (st_mailboxIDs s) \<subseteq> set (st_mailboxIDs t)"
    using that assms by (intro card_subset_eq) (simp_all add: distinct_card)
  moreover have "length (st_mailboxIDs s) = length (st_mailboxIDs t)" if "set (st_mailboxIDs s) = set (st_mailboxIDs t)"
    using that assms by (metis distinct_card)
  ultimately show ?thesis
    by (auto simp: sameAs_def shown_def state_flags_def list_all_iff)
qed

text \<open>The part of the account a sync hears of: the folders that answered.\<close>

fun heard :: "MailboxResponseDto list \<Rightarrow> (err + EmailSummaryResponseDto list) list \<Rightarrow> account" where
  "heard (mailbox # mailboxes) (Inr ms # answers) = (mailbox, ms) # heard mailboxes answers"
| "heard (mailbox # mailboxes) (Inl e # answers) = heard mailboxes answers"
| "heard mailboxes answers = []"

lemma heard_all [simp]: "heard (map fst A) (map (Inr \<circ> snd) A) = A"
  by (induction A) simp_all

lemma length_folder_answers [simp]: "length (folder_answers MS mailboxes s) = length mailboxes"
  by (induction mailboxes arbitrary: s) (simp_all split: prod.split)

lemma emails_heard: "length answers = length mailboxes \<Longrightarrow> emails (heard mailboxes answers) = answered answers"
  by (induction mailboxes answers rule: heard.induct) (simp_all add: emails_def)

text \<open>
  No news is cut short: an email is heard of in one state only, and one that is not in \<open>K\<close> is heard of
  in all its folders. Where an email has a single folder, whatever is heard is such.
\<close>

definition whole_news :: "(string \<rightharpoonup> messageState) \<Rightarrow> account \<Rightarrow> bool" where
  "whole_news K B \<longleftrightarrow>
     (\<forall>m \<in> set (emails B). distinct (su_MailboxIds m) \<and>
        (K (su_Id m) = None \<longrightarrow> set (su_MailboxIds m) = folders_of B (su_Id m)) \<and>
        (\<forall>m' \<in> set (emails B). su_Id m' = su_Id m \<longrightarrow> stateOf m' = stateOf m))"

lemma coherent_whole_news: "coherent A \<Longrightarrow> whole_news K A"
  unfolding coherent_def whole_news_def by blast

lemma in_emails: "m \<in> set (emails B) \<longleftrightarrow> (\<exists>mailbox ms. (mailbox, ms) \<in> set B \<and> m \<in> set ms)"
  by (force simp: emails_def)

lemma single_folder_whole_news:
  assumes "\<forall>(mailbox, ms) \<in> set B. \<forall>m \<in> set ms. su_MailboxIds m = [mb_Id mailbox]"
    and "\<forall>m \<in> set (emails B). \<forall>m' \<in> set (emails B). su_Id m' = su_Id m \<longrightarrow> stateOf m' = stateOf m"
  shows "whole_news K B"
proof -
  have single: "su_MailboxIds m = [mb_Id mailbox]" if "(mailbox, ms) \<in> set B" "m \<in> set ms" for mailbox ms m
    using bspec [OF assms(1) that(1)] that(2) by simp
  have "folders_of B (su_Id m) = {mb_Id mailbox}" if f: "(mailbox, ms) \<in> set B" "m \<in> set ms" for mailbox ms m
  proof
    have m: "m \<in> set (emails B)" unfolding in_emails using f by blast
    show "{mb_Id mailbox} \<subseteq> folders_of B (su_Id m)" using f unfolding folders_of_def by blast
    show "folders_of B (su_Id m) \<subseteq> {mb_Id mailbox}"
    proof
      fix folder
      assume "folder \<in> folders_of B (su_Id m)"
      then obtain other ms' m' where o: "(other, ms') \<in> set B" "m' \<in> set ms'" "su_Id m' = su_Id m" "folder = mb_Id other"
        unfolding folders_of_def by auto
      have "m' \<in> set (emails B)" unfolding in_emails using o(1,2) by blast
      then have "stateOf m' = stateOf m" using assms(2) m o(3) by blast
      then have "su_MailboxIds m' = su_MailboxIds m" by (simp add: stateOf_def)
      then show "folder \<in> {mb_Id mailbox}" using single [OF f] single [OF o(1,2)] o(4) by simp
    qed
  qed
  with single have "distinct (su_MailboxIds m) \<and> set (su_MailboxIds m) = folders_of B (su_Id m)"
    if "m \<in> set (emails B)" for m
    using that unfolding in_emails by fastforce
  with assms(2) show ?thesis unfolding whole_news_def by blast
qed

lemma whole_news_states:
  "whole_news K B \<Longrightarrow> m \<in> set (emails B) \<Longrightarrow> states_of (emails B) (su_Id m) = Some (stateOf m)"
  unfolding whole_news_def by (rule states_of_consistent) metis+

section \<open>Scanning\<close>

text \<open>
  In the middle of a scan the messages of \<open>P\<close> that were known are shown as the account has them, all
  others as they were remembered. \<open>K\<close> is what is remembered, \<open>S\<close> what the account has.
\<close>

definition scanned :: "(string \<rightharpoonup> messageState) \<Rightarrow> (string \<rightharpoonup> messageState) \<Rightarrow> string set \<Rightarrow> told \<Rightarrow> bool" where
  "scanned K S P t \<longleftrightarrow> (\<forall>k. t k = map_option shown (if k \<in> P \<and> K k \<noteq> None then S k else K k))"

definition tidy :: "(string \<rightharpoonup> messageState) \<Rightarrow> bool" where
  "tidy K \<longleftrightarrow> (\<forall>k state. K k = Some state \<longrightarrow> distinct (st_mailboxIDs state))"

lemma scanned_unknown: "scanned K S P t \<Longrightarrow> K k = None \<Longrightarrow> scanned K S (insert k P) t"
  by (auto simp: scanned_def)

lemma scanned_unchanged:
  assumes "scanned K S P t" "K k = Some s1" "S k = Some s2" "shown s1 = shown s2"
  shows "scanned K S (insert k P) t"
  using assms by (auto simp: scanned_def)

lemma scanned_changed:
  assumes "scanned K S P t" "K k = Some s1" "S k = Some s2"
  shows "scanned K S (insert k P) (t(k \<mapsto> shown s2))"
  using assms by (auto simp: scanned_def)

lemma scan_summary_told:
  assumes "scanned K S P (told_by (cs_updates c))" "knownMessage c = K" "tidy K"
    and "S (su_Id m) = Some (stateOf m)" "distinct (su_MailboxIds m)"
    and "scan_summary m (seen, created, c) = (seen', created', c')"
  shows "scanned K S (insert (su_Id m) P) (told_by (cs_updates c'))"
proof (cases "K (su_Id m)")
  case None
  with assms show ?thesis by (auto simp: scan_summary_def Let_def intro: scanned_unknown)
next
  case (Some known)
  have d: "distinct (st_mailboxIDs known)" "distinct (st_mailboxIDs (stateOf m))"
    using assms(3,5) Some by (simp_all add: tidy_def stateOf_def)
  show ?thesis
  proof (cases "sameAs known (stateOf m)")
    case True
    with sameAs_shown [OF d] have "shown known = shown (stateOf m)" by blast
    with scanned_unchanged [OF assms(1) Some assms(4)] True Some assms(2,6) show ?thesis
      by (simp add: scan_summary_def Let_def)
  next
    case False
    then have "cs_updates c' = cs_updates c @
        [MessageMailboxesUpdated (su_Id m) (imapMailboxIDs (stateOf m)) (state_flags (stateOf m))]"
      using Some assms(2,6) by (auto simp: scan_summary_def Let_def)
    with scanned_changed [OF assms(1) Some assms(4)] show ?thesis
      by (simp add: shown_def imapMailboxIDs_def)
  qed
qed

lemma scan_summaries_told:
  assumes "fold scan_summary ms (seen, created, c) = (seen', created', c')"
    and "scanned K S P (told_by (cs_updates c))" "knownMessage c = K" "tidy K"
    and "\<forall>m \<in> set ms. S (su_Id m) = Some (stateOf m) \<and> distinct (su_MailboxIds m)"
  shows "scanned K S (P \<union> su_Id ` set ms) (told_by (cs_updates c'))"
  using assms
proof (induction ms arbitrary: seen created c P)
  case (Cons m ms)
  obtain seen1 created1 c1 where one: "scan_summary m (seen, created, c) = (seen1, created1, c1)"
    by (metis prod.exhaust)
  have f: "fold scan_summary ms (seen1, created1, c1) = (seen', created', c')" using Cons.prems(1) one by simp
  have k: "knownMessage c1 = K" using scan_summary_one(3) [OF one] Cons.prems(3)
    by (simp add: knownMessage_def [abs_def])
  have t: "scanned K S (insert (su_Id m) P) (told_by (cs_updates c1))"
    by (rule scan_summary_told [OF Cons.prems(2-4) _ _ one]) (use Cons.prems(5) in auto)
  have "scanned K S (insert (su_Id m) P \<union> su_Id ` set ms) (told_by (cs_updates c'))"
    by (rule Cons.IH [OF f t k Cons.prems(4)]) (use Cons.prems(5) in auto)
  then show ?case by (simp add: insert_commute)
qed simp

lemma scanMailbox_told:
  assumes "scanMailbox MS mailbox seen c = (r, seen', c')"
    and "ms_ListAllEmails MS (folder_options mailbox) (cs_service c) = (Inr ms, s)"
    and "scanned K S P (told_by (cs_updates c))" "knownMessage c = K" "tidy K"
    and "\<forall>m \<in> set ms. S (su_Id m) = Some (stateOf m) \<and> distinct (su_MailboxIds m)"
  shows "scanned K S (P \<union> su_Id ` set ms) (told_by (cs_updates c'))"
proof -
  let ?c = "rememberMailboxType mailbox
    (if \<not> knownMailbox c (mb_Id mailbox) then send (MailboxCreated (toIMAPMailbox mailbox)) c else c)"
  have c: "cs_messages ?c = cs_messages c" "cs_service ?c = cs_service c" "told_by (cs_updates ?c) = told_by (cs_updates c)"
    by (simp_all add: rememberMailboxType_def Let_def)
  have w: "with_service (ms_ListAllEmails MS (folder_options mailbox)) ?c = (Inr ms, ?c\<lparr>cs_service := s\<rparr>)"
    unfolding with_service_def c(2) assms(2) by simp
  obtain seen1 created c1 where f: "fold scan_summary ms (seen, [], ?c\<lparr>cs_service := s\<rparr>) = (seen1, created, c1)"
    by (metis prod.exhaust)
  from assms(1) w f have "c' = c1"
    by (auto simp: scanMailbox_def Let_def folder_options_def [symmetric])
  moreover have "scanned K S (P \<union> su_Id ` set ms) (told_by (cs_updates c1))"
    by (rule scan_summaries_told [OF f _ _ assms(5,6)])
       (use assms(3,4) c in \<open>simp_all add: knownMessage_def [abs_def]\<close>)
  ultimately show ?thesis by simp
qed

text \<open>The work a scan leaves: the unknown emails of every folder that has some.\<close>

definition work_of :: "(string \<rightharpoonup> messageState) \<Rightarrow> account \<Rightarrow> mailboxWork list" where
  "work_of K A = filter (\<lambda>w. wk_created w \<noteq> [])
     (map (\<lambda>(mailbox, ms). \<lparr>wk_mailbox = mailbox, wk_created = filter (\<lambda>m. K (su_Id m) = None) ms\<rparr>) A)"

lemma work_of_Cons:
  "work_of K ((mailbox, ms) # B) =
     (let new = filter (\<lambda>m. K (su_Id m) = None) ms
      in (if new = [] then [] else [\<lparr>wk_mailbox = mailbox, wk_created = new\<rparr>]) @ work_of K B)"
  by (simp add: work_of_def Let_def)

text \<open>A folder that does not answer says nothing of any message.\<close>

lemma scanMailbox_silent:
  assumes "scanMailbox MS mailbox seen c = (r, seen', c')"
    and "ms_ListAllEmails MS (folder_options mailbox) (cs_service c) = (Inl e, s)"
  shows "told_by (cs_updates c') = told_by (cs_updates c)"
proof -
  let ?c = "rememberMailboxType mailbox
    (if \<not> knownMailbox c (mb_Id mailbox) then send (MailboxCreated (toIMAPMailbox mailbox)) c else c)"
  have c: "cs_service ?c = cs_service c" "told_by (cs_updates ?c) = told_by (cs_updates c)"
    by (simp_all add: rememberMailboxType_def Let_def)
  have w: "with_service (ms_ListAllEmails MS (folder_options mailbox)) ?c = (Inl e, ?c\<lparr>cs_service := s\<rparr>)"
    unfolding with_service_def c(1) assms(2) by simp
  with assms(1) c(2) show ?thesis by (auto simp: scanMailbox_def Let_def folder_options_def [symmetric])
qed

lemma scan_all_work:
  assumes "scan_all MS mailboxes seen c = (seen', work, whole, c')" "distinct (map fst seen)"
    and "folder_answers MS mailboxes (cs_service c) = answers"
  shows "work = work_of (knownMessage c) (heard mailboxes answers)"
  using assms
proof (induction mailboxes arbitrary: seen c work whole seen' c' answers)
  case Nil
  then show ?case by (simp add: work_of_def)
next
  case (Cons mailbox mailboxes)
  obtain r seen1 c1 where sc: "scanMailbox MS mailbox seen c = (r, seen1, c1)" by (metis prod.exhaust)
  obtain answer s where a: "ms_ListAllEmails MS (folder_options mailbox) (cs_service c) = (answer, s)" by fastforce
  note one = scanMailbox_facts [OF sc Cons.prems(2) a]
  define rest where "rest = folder_answers MS mailboxes (cs_service c1)"
  have answers: "answers = answer # rest" using Cons.prems(3) a one by (simp add: rest_def)
  have k1: "knownMessage c1 = knownMessage c" using one by (simp add: knownMessage_def [abs_def])
  obtain seen2 work2 whole2 c2 where all: "scan_all MS mailboxes seen1 c1 = (seen2, work2, whole2, c2)"
    by (metis prod.exhaust)
  have "distinct (map fst seen1)" using one by blast
  from Cons.IH [OF all this rest_def [symmetric]] k1
  have "work2 = work_of (knownMessage c) (heard mailboxes rest)" by simp
  with Cons.prems(1) sc all one show ?case
    by (cases answer) (auto simp: answers work_of_Cons Let_def)
qed

lemma scan_all_told:
  assumes "scan_all MS mailboxes seen c = (seen', work, whole, c')" "distinct (map fst seen)"
    and "folder_answers MS mailboxes (cs_service c) = answers"
    and "scanned K S P (told_by (cs_updates c))" "knownMessage c = K" "tidy K"
    and "\<forall>m \<in> set (answered answers). S (su_Id m) = Some (stateOf m) \<and> distinct (su_MailboxIds m)"
  shows "scanned K S (P \<union> su_Id ` set (answered answers)) (told_by (cs_updates c'))"
  using assms
proof (induction mailboxes arbitrary: seen c work whole seen' c' P answers)
  case Nil
  then show ?case by (simp add: answered_def)
next
  case (Cons mailbox mailboxes)
  obtain r seen1 c1 where sc: "scanMailbox MS mailbox seen c = (r, seen1, c1)" by (metis prod.exhaust)
  obtain answer s where a: "ms_ListAllEmails MS (folder_options mailbox) (cs_service c) = (answer, s)" by fastforce
  note one = scanMailbox_facts [OF sc Cons.prems(2) a]
  define rest where "rest = folder_answers MS mailboxes (cs_service c1)"
  have answers: "answers = answer # rest" using Cons.prems(3) a one by (simp add: rest_def)
  have k1: "knownMessage c1 = K" using one Cons.prems(5) by (simp add: knownMessage_def [abs_def])
  have d1: "distinct (map fst seen1)" using one by blast
  have t1: "scanned K S (P \<union> su_Id ` set (answered [answer])) (told_by (cs_updates c1))"
  proof (cases answer)
    case (Inl e)
    with scanMailbox_silent [OF sc a [unfolded Inl]] Cons.prems(4) show ?thesis by simp
  next
    case (Inr ms)
    have "\<forall>m \<in> set ms. S (su_Id m) = Some (stateOf m) \<and> distinct (su_MailboxIds m)"
      using Cons.prems(7) by (simp add: answers Inr)
    from scanMailbox_told [OF sc a [unfolded Inr] Cons.prems(4-6) this] show ?thesis by (simp add: Inr)
  qed
  obtain seen2 work2 whole2 c2 where all: "scan_all MS mailboxes seen1 c1 = (seen2, work2, whole2, c2)"
    by (metis prod.exhaust)
  have m: "\<forall>m \<in> set (answered rest). S (su_Id m) = Some (stateOf m) \<and> distinct (su_MailboxIds m)"
    using Cons.prems(7) by (cases answer) (auto simp: answers)
  have "c' = c2" using Cons.prems(1) sc all by (auto split: sum.splits)
  with Cons.IH [OF all d1 rest_def [symmetric] t1 k1 Cons.prems(6) m] show ?case
    by (cases answer) (simp_all add: answers image_Un Un_assoc)
qed

text \<open>A scan says nothing of a message that is unknown, or as it is remembered wherever it is met.\<close>

definition quiet :: "(string \<rightharpoonup> messageState) \<Rightarrow> string \<Rightarrow> EmailSummaryResponseDto list \<Rightarrow> bool" where
  "quiet K k ms \<longleftrightarrow> (\<forall>m \<in> set ms. su_Id m = k \<longrightarrow> (\<forall>known. K k = Some known \<longrightarrow> sameAs known (stateOf m)))"

lemma scan_summaries_quiet:
  assumes "fold scan_summary ms (seen, created, c) = (seen', created', c')" "quiet (knownMessage c) k ms"
  shows "told_by (cs_updates c') k = told_by (cs_updates c) k"
  using assms
proof (induction ms arbitrary: seen created c)
  case (Cons m ms)
  obtain seen1 created1 c1 where one: "scan_summary m (seen, created, c) = (seen1, created1, c1)"
    by (metis prod.exhaust)
  have f: "fold scan_summary ms (seen1, created1, c1) = (seen', created', c')" using Cons.prems(1) one by simp
  have "knownMessage c1 = knownMessage c" using scan_summary_one(3) [OF one] by (simp add: knownMessage_def [abs_def])
  moreover have "told_by (cs_updates c1) k = told_by (cs_updates c) k"
    using one Cons.prems(2) by (auto simp: scan_summary_def Let_def quiet_def split: option.splits if_splits)
  ultimately show ?case using Cons.IH [OF f] Cons.prems(2) by (simp add: quiet_def)
qed simp

lemma scan_all_quiet:
  assumes "scan_all MS mailboxes seen c = (seen', work, whole, c')" "distinct (map fst seen)"
    and "folder_answers MS mailboxes (cs_service c) = answers" "quiet (knownMessage c) k (answered answers)"
  shows "told_by (cs_updates c') k = told_by (cs_updates c) k"
  using assms
proof (induction mailboxes arbitrary: seen c work whole seen' c' answers)
  case Nil
  then show ?case by simp
next
  case (Cons mailbox mailboxes)
  obtain r seen1 c1 where sc: "scanMailbox MS mailbox seen c = (r, seen1, c1)" by (metis prod.exhaust)
  obtain answer s where a: "ms_ListAllEmails MS (folder_options mailbox) (cs_service c) = (answer, s)" by fastforce
  note one = scanMailbox_facts [OF sc Cons.prems(2) a]
  define rest where "rest = folder_answers MS mailboxes (cs_service c1)"
  have answers: "answers = answer # rest" using Cons.prems(3) a one by (simp add: rest_def)
  have k1: "knownMessage c1 = knownMessage c" using one by (simp add: knownMessage_def [abs_def])
  have q: "quiet (knownMessage c1) k (answered rest)"
    using Cons.prems(4) by (cases answer) (simp_all add: answers k1 quiet_def)
  have "told_by (cs_updates c1) k = told_by (cs_updates c) k"
  proof (cases answer)
    case (Inl e)
    with scanMailbox_silent [OF sc a [unfolded Inl]] show ?thesis by simp
  next
    case (Inr ms)
    let ?c = "rememberMailboxType mailbox
      (if \<not> knownMailbox c (mb_Id mailbox) then send (MailboxCreated (toIMAPMailbox mailbox)) c else c)"
    have c: "cs_messages ?c = cs_messages c" "cs_service ?c = cs_service c" "told_by (cs_updates ?c) = told_by (cs_updates c)"
      by (simp_all add: rememberMailboxType_def Let_def)
    have w: "with_service (ms_ListAllEmails MS (folder_options mailbox)) ?c = (Inr ms, ?c\<lparr>cs_service := s\<rparr>)"
      unfolding with_service_def c(2) a Inr by simp
    obtain seen2 created c2 where f: "fold scan_summary ms (seen, [], ?c\<lparr>cs_service := s\<rparr>) = (seen2, created, c2)"
      by (metis prod.exhaust)
    have "quiet (knownMessage (?c\<lparr>cs_service := s\<rparr>)) k ms"
      using Cons.prems(4) c(1) by (simp add: answers Inr quiet_def knownMessage_def)
    from scan_summaries_quiet [OF f this] c(3) sc w f show ?thesis
      by (auto simp: scanMailbox_def Let_def folder_options_def [symmetric])
  qed
  moreover obtain seen2 work2 whole2 c2 where all: "scan_all MS mailboxes seen1 c1 = (seen2, work2, whole2, c2)"
    by (metis prod.exhaust)
  moreover have "c' = c2" using Cons.prems(1) sc all by (auto split: sum.splits)
  moreover have "distinct (map fst seen1)" using one by blast
  ultimately show ?case using Cons.IH [OF all _ rest_def [symmetric] q] by simp
qed

section \<open>Announcing\<close>

text \<open>Whatever the interleaving, a message that is announced is one of the summaries, in this folder.\<close>

definition made_from :: "MailboxResponseDto \<Rightarrow> EmailSummaryResponseDto list \<Rightarrow> message_created \<Rightarrow> bool" where
  "made_from mailbox ms x \<longleftrightarrow>
     (\<exists>m \<in> set ms. mc_ID x = su_Id m \<and> mc_Flags x = messageFlags m \<and> mc_MailboxIDs x = [mb_Id mailbox])"

fun phase_made :: "(message_created \<Rightarrow> bool) \<Rightarrow> phase \<Rightarrow> bool" where
  "phase_made P (Appending x) = P x"
| "phase_made P (Holding batch) = list_all P batch"
| "phase_made P p = True"

definition update_made :: "(message_created \<Rightarrow> bool) \<Rightarrow> update \<Rightarrow> bool" where
  "update_made P u \<longleftrightarrow> (\<exists>b batch. u = MessagesCreated b batch \<and> list_all P batch)"

definition all_made :: "(message_created \<Rightarrow> bool) \<Rightarrow> update list \<Rightarrow> 's announcing \<Rightarrow> bool" where
  "all_made P us a \<longleftrightarrow> list_all P (an_pending a) \<and> list_all (phase_made P) (an_phases a) \<and>
     (\<exists>sent. cs_updates (an_connector a) = us @ sent \<and> list_all (update_made P) sent)"

lemma all_made_sent:
  "all_made P us a \<Longrightarrow> list_all P batch \<Longrightarrow>
     all_made P us (a\<lparr>an_connector := send (MessagesCreated b batch) (an_connector a)\<rparr>)"
  by (fastforce simp: all_made_def update_made_def)

lemma all_made_set_phase: "all_made P us a \<Longrightarrow> phase_made P p \<Longrightarrow> all_made P us (set_phase i p a)"
  using set_update_subset_insert [of "an_phases a" i p] by (auto simp: all_made_def set_phase_def list_all_iff)

lemma all_made_pending: "all_made P us a \<Longrightarrow> list_all P xs \<Longrightarrow> all_made P us (a\<lparr>an_pending := xs\<rparr>)"
  by (simp add: all_made_def)

lemma all_made_other:
  "all_made P us a \<Longrightarrow> cs_updates c = cs_updates (an_connector a) \<Longrightarrow> all_made P us (a\<lparr>an_connector := c\<rparr>)"
  "all_made P us a \<Longrightarrow> all_made P us (a\<lparr>an_progress := pe, an_ticks := n\<rparr>)"
  "all_made P us a \<Longrightarrow> all_made P us (a\<lparr>an_skipped := ks\<rparr>)"
  by (simp_all add: all_made_def)

lemma all_made_phase: "all_made P us a \<Longrightarrow> i < length (an_phases a) \<Longrightarrow> phase_made P (an_phases a ! i)"
  by (simp add: all_made_def list_all_length)

lemmas all_made_intros = all_made_set_phase all_made_other all_made_pending

lemma toIMAPMessage_made:
  "toIMAPMessage V mailbox m literal = Inr x \<Longrightarrow> m \<in> set ms \<Longrightarrow> made_from mailbox ms x"
  by (auto simp: toIMAPMessage_def Let_def made_from_def split: option.splits if_splits intro!: bexI [of _ m])

lemma announce_step_made:
  assumes made: "all_made (made_from mailbox ms) us a"
  shows "all_made (made_from mailbox ms) us (announce_step V MS mailbox ms i a)"
proof (cases "length ms \<le> i \<or> length (an_phases a) \<le> i")
  case True
  with made show ?thesis by (auto simp: announce_step_def)
next
  case False
  then have i: "i < length (an_phases a)" "i < length ms" by auto
  note phase = all_made_phase [OF made i(1)]
  show ?thesis
  proof (cases "an_phases a ! i")
    case Waiting
    with made i show ?thesis by (auto simp: announce_step_def intro!: all_made_intros)
  next
    case Started
    obtain literal err c where w: "with_service (ms_GetMessageLiteral MS (su_Id (ms ! i))) (an_connector a) =
        ((literal, err), c)" by (metis prod.exhaust)
    have "cs_updates c = cs_updates (an_connector a)"
      using with_service_updates(1) [of "ms_GetMessageLiteral MS (su_Id (ms ! i))" "an_connector a"] w by simp
    with Started made i w show ?thesis by (auto simp: announce_step_def intro!: all_made_intros)
  next
    case (Fetched literal)
    with made i show ?thesis by (auto simp: announce_step_def intro!: all_made_intros)
  next
    case (Counted literal)
    with made i show ?thesis
      by (auto simp: announce_step_def intro!: all_made_intros toIMAPMessage_made split: sum.split)
  next
    case (Appending x)
    with made i phase show ?thesis
      by (auto simp: announce_step_def Let_def intro!: all_made_intros) (simp_all add: all_made_def)
  next
    case FullBatch
    with made i show ?thesis
      by (auto simp: announce_step_def intro!: all_made_intros) (simp_all add: all_made_def)
  next
    case (Holding batch)
    with made i phase show ?thesis
      by (auto simp: announce_step_def intro!: all_made_intros all_made_sent)
  next
    case Returned
    with made i show ?thesis by (simp add: announce_step_def)
  qed
qed

lemma announceNewMessages_made:
  "\<exists>sent. cs_updates (an_connector (announceNewMessages V MS schedule mailbox ms c pe ticks)) = cs_updates c @ sent \<and>
     list_all (update_made (made_from mailbox ms)) sent"
proof -
  let ?P = "made_from mailbox ms"
  have step: "all_made ?P us a \<Longrightarrow> all_made ?P us (fold (announce_step V MS mailbox ms) sched a)" for us sched a
    by (induction sched arbitrary: a) (auto intro: announce_step_made)
  have start: "all_made ?P (cs_updates c) (announcing_start ms c pe ticks)"
    by (simp add: all_made_def announcing_start_def list_all_iff)
  have flush: "all_made ?P us (final_flush a)" if "all_made ?P us a" for us a
    using that all_made_sent [of ?P us "a\<lparr>an_pending := []\<rparr>" "an_pending a" True]
    by (auto simp: final_flush_def Let_def intro!: all_made_pending) (simp add: all_made_def)
  have "all_made ?P (cs_updates c) (announceNewMessages V MS schedule mailbox ms c pe ticks)"
    using flush [OF step [OF start]] start
    by (auto simp: announceNewMessages_def announcing_start_def Let_def simp del: fold_append)
  then show ?thesis by (simp add: all_made_def)
qed

lemma tell_created_at:
  "tell_created x t k = (if mc_ID x = k then Some (set (mc_MailboxIDs x) \<union> told_folders t k, mc_Flags x) else t k)"
  by (simp add: tell_created_def)

text \<open>What a list of announced messages of one folder says of a message.\<close>

lemma fold_tell_created:
  assumes "\<forall>x \<in> set xs. mc_MailboxIDs x = [folder]" "\<forall>x \<in> set xs. mc_ID x = k \<longrightarrow> mc_Flags x = flags"
  shows "fold tell_created xs t k =
    (if k \<in> mc_ID ` set xs then Some (insert folder (told_folders t k), flags) else t k)"
  using assms
proof (induction xs rule: rev_induct)
  case (snoc x xs)
  define t' where "t' = fold tell_created xs t"
  have IH: "t' k = (if k \<in> mc_ID ` set xs then Some (insert folder (told_folders t k), flags) else t k)"
    unfolding t'_def by (rule snoc.IH) (use snoc.prems in auto)
  then have "told_folders t' k = (if k \<in> mc_ID ` set xs then insert folder (told_folders t k) else told_folders t k)"
    unfolding told_folders_def [of t'] by (simp add: told_folders_def)
  moreover have step: "fold tell_created (xs @ [x]) t k = tell_created x t' k" by (simp add: t'_def)
  ultimately show ?case using IH snoc.prems tell_created_at [of x t' k] unfolding step by auto
qed simp

definition created_in :: "update list \<Rightarrow> message_created list" where
  "created_in us = concat (map (\<lambda>u. case u of MessagesCreated _ ms \<Rightarrow> ms | _ \<Rightarrow> []) us)"

lemma created_in_simps [simp]:
  "created_in [] = []" "created_in (MessagesCreated b batch # us) = batch @ created_in us"
  by (simp_all add: created_in_def)

lemma created_ids_in: "created_ids us = map mc_ID (created_in us)"
  unfolding created_ids_def created_in_def map_concat map_map
  by (rule arg_cong [of _ _ concat]) (auto split: update.split)

lemma fold_tell_sent:
  "list_all (update_made P) sent \<Longrightarrow>
     fold tell sent t = fold tell_created (created_in sent) t \<and> list_all P (created_in sent)"
  by (induction sent arbitrary: t) (auto simp: update_made_def)

lemma announceNewMessages_told:
  assumes "ce_parse V = (\<lambda>_. None)" and "\<forall>m \<in> set ms. su_Id m = k \<longrightarrow> messageFlags m = flags"
  shows "told_by (cs_updates (an_connector (announceNewMessages V MS schedule mailbox ms c pe ticks))) k =
    (if k \<in> su_Id ` set ms then Some (insert (mb_Id mailbox) (told_folders (told_by (cs_updates c)) k), flags)
     else told_by (cs_updates c) k)"
proof -
  let ?a = "announceNewMessages V MS schedule mailbox ms c pe ticks"
  obtain sent where sent: "cs_updates (an_connector ?a) = cs_updates c @ sent"
    "list_all (update_made (made_from mailbox ms)) sent"
    using announceNewMessages_made by blast
  obtain sent' where sent': "cs_updates (an_connector ?a) = cs_updates c @ sent'"
    "mset (created_ids sent') + mset (an_skipped ?a) = mset (map su_Id ms)"
    using announceNewMessages_facts(3) [OF refl] by metis
  then have "mset (created_ids sent) = mset (map su_Id ms)"
    using sent(1) skipped_none [OF assms(1), of MS schedule mailbox ms c pe ticks] by simp
  then have ids: "mc_ID ` set (created_in sent) = su_Id ` set ms"
    unfolding created_ids_in by (metis list.set_map set_mset_mset)
  note s = fold_tell_sent [OF sent(2)]
  have made: "\<forall>x \<in> set (created_in sent). made_from mailbox ms x" using s [THEN conjunct2] by (simp add: list_all_iff)
  have "\<forall>x \<in> set (created_in sent). mc_MailboxIDs x = [mb_Id mailbox]" using made by (auto simp: made_from_def)
  moreover have "\<forall>x \<in> set (created_in sent). mc_ID x = k \<longrightarrow> mc_Flags x = flags"
    using made assms(2) by (fastforce simp: made_from_def)
  ultimately show ?thesis using fold_tell_created [of "created_in sent"] s by (simp add: sent(1) ids)
qed

lemma downloadNewMessages_each:
  assumes "downloadNewMessages V MS schedules requested work c = (c', evs)"
  obtains pe0 pe where "download_each_mailbox V MS schedules 0 work c pe0 0 = (c', pe)"
  using assms by (auto simp: downloadNewMessages_def Let_def split: prod.splits)

text \<open>What the downloads of all the folders say together.\<close>

definition work_folders :: "mailboxWork list \<Rightarrow> string \<Rightarrow> string set" where
  "work_folders work k = {mb_Id (wk_mailbox w) | w. w \<in> set work \<and> k \<in> su_Id ` set (wk_created w)}"

lemma work_folders_Cons:
  "work_folders (w # work) k = (if k \<in> su_Id ` set (wk_created w) then {mb_Id (wk_mailbox w)} else {}) \<union> work_folders work k"
  by (auto simp: work_folders_def)

lemma download_told:
  assumes "ce_parse V = (\<lambda>_. None)"
    and "\<forall>w \<in> set work. \<forall>m \<in> set (wk_created w). su_Id m = k \<longrightarrow> messageFlags m = flags"
    and "download_each_mailbox V MS schedules n work c pe ticks = (c', pe')"
  shows "told_by (cs_updates c') k =
    (if work_folders work k = {} then told_by (cs_updates c) k
     else Some (work_folders work k \<union> told_folders (told_by (cs_updates c)) k, flags))"
  using assms
proof (induction work arbitrary: n c pe ticks)
  case Nil
  then show ?case by (simp add: work_folders_def)
next
  case (Cons w work)
  let ?a = "announceNewMessages V MS (schedules n) (wk_mailbox w) (wk_created w) c pe ticks"
  have t: "told_by (cs_updates (an_connector ?a)) k = (if k \<in> su_Id ` set (wk_created w)
      then Some (insert (mb_Id (wk_mailbox w)) (told_folders (told_by (cs_updates c)) k), flags)
      else told_by (cs_updates c) k)"
    by (rule announceNewMessages_told) (use Cons.prems in auto)
  have "download_each_mailbox V MS schedules (n + 1) work (an_connector ?a) (an_progress ?a) (an_ticks ?a) = (c', pe')"
    using Cons.prems(3) by (simp add: Let_def)
  from Cons.IH [OF Cons.prems(1) _ this] Cons.prems(2) show ?case
    by (auto simp: t work_folders_Cons told_folders_def)
qed

section \<open>A sync\<close>

text \<open>The connector remembers of every message what it has said of it.\<close>

definition mirrored :: "'s connector \<Rightarrow> bool" where
  "mirrored c \<longleftrightarrow> distinct (map fst (cs_messages c)) \<and> tidy (map_of (cs_messages c)) \<and>
     told_by (cs_updates c) = map_option shown \<circ> map_of (cs_messages c)"

lemma connector_New_mirrored: "mirrored (connector_New service)"
  by (simp add: mirrored_def connector_New_def tidy_def comp_def)

lemma in_work_of:
  "w \<in> set (work_of K A) \<longleftrightarrow> (\<exists>mailbox ms. (mailbox, ms) \<in> set A \<and> wk_mailbox w = mailbox \<and>
     wk_created w = filter (\<lambda>m. K (su_Id m) = None) ms \<and> wk_created w \<noteq> [])"
proof -
  have "w = \<lparr>wk_mailbox = wk_mailbox w, wk_created = wk_created w\<rparr>" by simp
  then show ?thesis unfolding work_of_def set_filter set_map by (auto simp: image_iff) force
qed

lemma work_of_emails: "w \<in> set (work_of K B) \<Longrightarrow> set (wk_created w) \<subseteq> set (emails B)"
  unfolding in_work_of emails_def by auto

lemma work_of_unknown: "w \<in> set (work_of K B) \<Longrightarrow> m \<in> set (wk_created w) \<Longrightarrow> K (su_Id m) = None"
  unfolding in_work_of by auto

lemma work_folders_of: "work_folders (work_of K A) k = (if K k = None then folders_of A k else {})"
proof (cases "K k")
  case (Some state)
  then have "k \<notin> su_Id ` set (wk_created w)" if "w \<in> set (work_of K A)" for w
    using that by (auto simp: in_work_of)
  with Some show ?thesis by (auto simp: work_folders_def)
next
  case None
  have work: "k \<in> su_Id ` set (filter (\<lambda>m. K (su_Id m) = None) ms) \<longleftrightarrow> k \<in> su_Id ` set ms" for ms
    using None by auto
  have "folder \<in> work_folders (work_of K A) k \<longleftrightarrow> folder \<in> folders_of A k" for folder
  proof
    assume "folder \<in> work_folders (work_of K A) k"
    then obtain w where "w \<in> set (work_of K A)" "k \<in> su_Id ` set (wk_created w)" "folder = mb_Id (wk_mailbox w)"
      unfolding work_folders_def by blast
    then show "folder \<in> folders_of A k" unfolding in_work_of folders_of_def by fastforce
  next
    assume "folder \<in> folders_of A k"
    then obtain mailbox ms where f: "(mailbox, ms) \<in> set A" "k \<in> su_Id ` set ms" "folder = mb_Id mailbox"
      unfolding folders_of_def by blast
    let ?new = "filter (\<lambda>m. K (su_Id m) = None) ms"
    have k: "k \<in> su_Id ` set ?new" using f(2) by (simp only: work)
    then have "?new \<noteq> []" by force
    with f(1) have "\<lparr>wk_mailbox = mailbox, wk_created = ?new\<rparr> \<in> set (work_of K A)"
      unfolding in_work_of by auto
    with k f(3) show "folder \<in> work_folders (work_of K A) k" unfolding work_folders_def by force
  qed
  with None show ?thesis by auto
qed

lemma folders_of_empty: "folders_of A k = {} \<longleftrightarrow> k \<notin> su_Id ` set (emails A)"
  by (fastforce simp: folders_of_def emails_def)

lemma answered_Inr: "answered (map (Inr \<circ> snd) A) = emails A"
  by (simp add: answered_def emails_def comp_def)

text \<open>What was said when every folder has been gone through and every body downloaded.\<close>

lemma downloaded_view:
  assumes B: "whole_news K B"
    and scan: "scanned K (states_of (emails B)) (su_Id ` set (emails B)) t"
    and after: "\<And>k. t' k = (if work_folders (work_of K B) k = {} then t k
       else Some (work_folders (work_of K B) k \<union> told_folders t k,
         case states_of (emails B) k of None \<Rightarrow> {} | Some state \<Rightarrow> state_flags state))"
  shows "t' = map_option shown \<circ> (K ++ states_of (emails B))"
proof (rule ext)
  fix k
  show "t' k = (map_option shown \<circ> (K ++ states_of (emails B))) k"
  proof (cases "k \<in> su_Id ` set (emails B)")
    case False
    then have "states_of (emails B) k = None" using dom_states_of [of "emails B"] by (auto simp: dom_def)
    with False scan after folders_of_empty [of B k] show ?thesis
      by (auto simp: work_folders_of scanned_def map_add_def)
  next
    case True
    then obtain m where m: "m \<in> set (emails B)" "su_Id m = k" by auto
    have S: "states_of (emails B) k = Some (stateOf m)" using whole_news_states [OF B m(1)] m(2) by simp
    show ?thesis
    proof (cases "K k")
      case None
      then have "set (su_MailboxIds m) = folders_of B k" using B m unfolding whole_news_def by blast
      then have "shown (stateOf m) = (folders_of B k, state_flags (stateOf m))" by (simp add: shown_def stateOf_def)
      moreover have "t k = None" using scan None by (simp add: scanned_def)
      moreover have "folders_of B k \<noteq> {}" using True folders_of_empty by blast
      ultimately show ?thesis using None
        by (simp add: after work_folders_of S told_folders_def map_add_def)
    next
      case (Some state)
      with True scan S show ?thesis by (simp add: after work_folders_of scanned_def map_add_def)
    qed
  qed
qed

text \<open>The three parts of a sync: the scan, the downloads, and the messages that are gone.\<close>

lemma Sync_parts:
  assumes "ms_ListMailboxes MS (cs_service c) = (Inr mailboxes, s)" "folder_answers MS mailboxes s = answers"
    and "distinct (map fst (cs_messages c))" and "Sync V MS schedules requested c = (r, evs, c')"
  obtains seen whole c1 c2 pe0 pe where
    "scan_all MS mailboxes [] (c\<lparr>cs_service := s\<rparr>) =
       (seen, work_of (knownMessage c) (heard mailboxes answers), whole, c1)"
    "download_each_mailbox V MS schedules 0 (work_of (knownMessage c) (heard mailboxes answers)) c1 pe0 0 = (c2, pe)"
    "told_by (cs_updates c') = told_by (cs_updates c2) |` (- (if list_all is_ok answers
       then dom (knownMessage c) - su_Id ` set (answered answers) else {}))"
proof -
  define c0 where "c0 = c\<lparr>cs_service := s\<rparr>"
  have w: "with_service (ms_ListMailboxes MS) c = (Inr mailboxes, c0)"
    by (simp add: with_service_def assms(1) c0_def)
  have k0: "knownMessage c0 = knownMessage c" "knownMessage c = map_of (cs_messages c)"
    by (simp_all add: knownMessage_def [abs_def] c0_def)
  have ans: "folder_answers MS mailboxes (cs_service c0) = answers" by (simp add: c0_def assms(2))
  obtain seen work whole c1 where sc: "scan_all MS mailboxes [] c0 = (seen, work, whole, c1)"
    by (metis prod.exhaust)
  have work: "work = work_of (knownMessage c) (heard mailboxes answers)" using scan_all_work [OF sc _ ans] k0 by simp
  obtain c2 evs' where dl: "downloadNewMessages V MS schedules requested work c1 = (c2, evs')" by fastforce
  then obtain pe pe0 where each: "download_each_mailbox V MS schedules 0 work c1 pe0 0 = (c2, pe)"
    by (rule downloadNewMessages_each)
  have "c' = forget_threads MS (if whole then forgetDeleted seen (rememberMessages seen c2) else rememberMessages seen c2)"
    using assms(4) by (simp add: Sync_def w sc dl Let_def del: scan_all.simps)
  then have "\<exists>gone. cs_updates c' = cs_updates c2 @ map (\<lambda>i. MessagesDeleted [i]) gone"
    using fold_send_deleted [of _ "rememberMessages seen c2"]
    by (cases whole) (auto simp: forget_threads_def forgetDeleted_def forgetMessages_def rememberMessages_def Let_def)
  then obtain gone where gone: "cs_updates c' = cs_updates c2 @ map (\<lambda>i. MessagesDeleted [i]) gone" by blast
  obtain new1 new2 where "cs_updates c1 = cs_updates c0 @ new1" "deleted_ids new1 = []"
    "cs_updates c2 = cs_updates c1 @ new2" "deleted_ids new2 = []"
    using scan_all_facts [OF sc _ ans] download_each_facts [OF each] by auto
  then have c2: "cs_updates c2 = cs_updates c @ new1 @ new2" "deleted_ids (new1 @ new2) = []"
    by (simp_all add: c0_def)
  obtain new gone' where u: "cs_updates c' = cs_updates c @ new @ map (\<lambda>i. MessagesDeleted [i]) gone'"
    "deleted_ids new = []"
    "set gone' = (if list_all is_ok answers then dom (knownMessage c) - su_Id ` set (answered answers) else {})"
    using Sync_facts(5) [OF assms(3,1,2,4), folded k0(2)] by (elim exE conjE) (rule that)
  have "new @ map (\<lambda>i. MessagesDeleted [i]) gone' = (new1 @ new2) @ map (\<lambda>i. MessagesDeleted [i]) gone"
    using u(1) gone c2(1) by simp
  from arg_cong [OF this, of deleted_ids] have "gone' = gone" using u(2) c2(2) by simp
  then have "told_by (cs_updates c') = told_by (cs_updates c2) |` (- (if list_all is_ok answers
       then dom (knownMessage c) - su_Id ` set (answered answers) else {}))"
    using u(3) by (simp add: gone fold_deleted)
  with sc each show thesis unfolding work c0_def by (rule that)
qed

text \<open>A sync in which no news is cut short remembers what it said, whether every folder answered or not.\<close>

lemma Sync_keeps_mirrored:
  assumes "mirrored c" and "ce_parse V = (\<lambda>_. None)"
    and "ms_ListMailboxes MS (cs_service c) = (Inr mailboxes, s)"
    and "whole_news (knownMessage c) (heard mailboxes (folder_answers MS mailboxes s))"
    and "Sync V MS schedules requested c = (r, evs, c')"
  shows "mirrored c'"
proof -
  define answers where "answers = folder_answers MS mailboxes s"
  define B where "B = heard mailboxes answers"
  let ?K = "knownMessage c" and ?S = "states_of (emails B)" and ?ids = "su_Id ` set (emails B)"
  have B: "whole_news ?K B" using assms(4) by (simp add: B_def answers_def)
  have e: "answered answers = emails B" by (simp add: B_def answers_def emails_heard)
  have K: "?K = map_of (cs_messages c)" by (simp add: knownMessage_def [abs_def])
  have c: "distinct (map fst (cs_messages c))" "tidy ?K" "told_by (cs_updates c) = map_option shown \<circ> ?K"
    using assms(1) by (simp_all add: mirrored_def K)
  note facts = Sync_facts [OF c(1) assms(3) answers_def [symmetric] assms(5), unfolded e, folded K]
  have m: "\<forall>m \<in> set (emails B). ?S (su_Id m) = Some (stateOf m) \<and> distinct (su_MailboxIds m)"
    using whole_news_states [OF B] B unfolding whole_news_def by blast
  from Sync_parts [OF assms(3) answers_def [symmetric] c(1) assms(5)]
  obtain seen whole c1 c2 pe0 pe where
    sc: "scan_all MS mailboxes [] (c\<lparr>cs_service := s\<rparr>) = (seen, work_of ?K B, whole, c1)" and
    each: "download_each_mailbox V MS schedules 0 (work_of ?K B) c1 pe0 0 = (c2, pe)" and
    told': "told_by (cs_updates c') = told_by (cs_updates c2) |` (- (if list_all is_ok answers then dom ?K - ?ids else {}))"
    unfolding e B_def .
  have start: "scanned ?K ?S {} (told_by (cs_updates (c\<lparr>cs_service := s\<rparr>)))" using c(3) by (simp add: scanned_def)
  have "\<forall>m \<in> set (answered answers). ?S (su_Id m) = Some (stateOf m) \<and> distinct (su_MailboxIds m)"
    using m by (simp only: e)
  moreover have "folder_answers MS mailboxes (cs_service (c\<lparr>cs_service := s\<rparr>)) = answers"
    "knownMessage (c\<lparr>cs_service := s\<rparr>) = ?K"
    by (simp_all add: answers_def knownMessage_def [abs_def])
  ultimately have scan: "scanned ?K ?S ?ids (told_by (cs_updates c1))"
    using scan_all_told [OF sc _ _ start _ c(2)] by (simp add: e)
  let ?F = "\<lambda>k. case ?S k of None \<Rightarrow> {} | Some state \<Rightarrow> state_flags state"
  have "\<forall>x \<in> set (work_of ?K B). \<forall>m \<in> set (wk_created x). su_Id m = k \<longrightarrow> messageFlags m = ?F k" for k
    using m work_of_emails by (fastforce simp: messageFlags_state)
  note told2 = download_told [OF assms(2) this each]
  have told: "told_by (cs_updates c') =
      (map_option shown \<circ> (?K ++ ?S)) |` (- (if list_all is_ok answers then dom ?K - ?ids else {}))"
    using downloaded_view [OF B scan told2] told' by simp
  have S: "?S k = None \<longleftrightarrow> k \<notin> ?ids" for k by (metis dom_states_of domIff)
  have "distinct (st_mailboxIDs state)" if k: "?S k = Some state" for k state
  proof -
    have "k \<in> ?ids" using S [of k] k by simp
    then obtain x where "x \<in> set (emails B)" "su_Id x = k" by blast
    with m k show ?thesis by (fastforce simp: stateOf_def)
  qed
  then have "tidy (map_of (cs_messages c'))"
    using c(2) unfolding facts(4) tidy_def by (simp add: map_add_Some_iff) blast
  moreover have "told_by (cs_updates c') = map_option shown \<circ> map_of (cs_messages c')"
  proof (rule ext)
    fix k
    show "told_by (cs_updates c') k = (map_option shown \<circ> map_of (cs_messages c')) k"
    proof (cases "?S k")
      case None
      then have "k \<notin> ?ids" using S [of k] by blast
      with None show ?thesis unfolding told facts(4) by (auto simp: restrict_map_def map_add_def domIff)
    next
      case (Some state)
      then have "k \<in> ?ids" using S [of k] by simp
      with Some show ?thesis unfolding told facts(4) by (simp add: restrict_map_def map_add_def)
    qed
  qed
  ultimately show ?thesis using facts(2) by (simp add: mirrored_def)
qed

text \<open>A sync that is not told the folders changes neither what is remembered nor what was said.\<close>

lemma Sync_unlisted_mirrored:
  assumes "mirrored c" "ms_ListMailboxes MS (cs_service c) = (Inl e, s)" "Sync V MS schedules requested c = (r, evs, c')"
  shows "mirrored c'"
  using assms by (auto simp: Sync_def with_service_def mirrored_def forget_threads_def Let_def)

text \<open>A sync that every folder answers leaves Gluon told of the account, and remembers what it said.\<close>

lemma Sync_mirrors:
  assumes "mirrored c" and "coherent A" and "ce_parse V = (\<lambda>_. None)"
    and "ms_ListMailboxes MS (cs_service c) = (Inr (map fst A), s)"
    and "folder_answers MS (map fst A) s = map (Inr \<circ> snd) A"
    and "Sync V MS schedules requested c = (r, evs, c')"
  shows "r = Inr () \<and> told_by (cs_updates c') = account_view A"
proof -
  have "whole_news (knownMessage c) (heard (map fst A) (folder_answers MS (map fst A) s))"
    unfolding assms(5) heard_all by (rule coherent_whole_news [OF assms(2)])
  then have told: "told_by (cs_updates c') = map_option shown \<circ> map_of (cs_messages c')"
    using Sync_keeps_mirrored [OF assms(1,3,4) _ assms(6)] by (simp add: mirrored_def)
  have d: "distinct (map fst (cs_messages c))" using assms(1) by (simp add: mirrored_def)
  note facts = Sync_facts [OF d assms(4-6), unfolded answered_Inr]
  have "list_all is_ok (map (Inr \<circ> snd) A :: (err + EmailSummaryResponseDto list) list)"
    by (simp add: list_all_iff)
  then have "map_of (cs_messages c') = states_of (emails A)" using facts(4) by simp
  with told facts(1) account_view_states [OF assms(2)] show ?thesis by simp
qed

section \<open>The life of a connector\<close>

text \<open>
  Whatever happens to a connector: requests of the mail client, anything done to the service behind it
  (mail sent, a new session, a change of the account on another device), and syncs, each of which may
  fail, or hear of some folders only as long as no news is cut short. The service may answer
  differently at every step.
\<close>

definition news_of :: "'s mail_service \<Rightarrow> 's connector \<Rightarrow> account" where
  "news_of MS c = (case ms_ListMailboxes MS (cs_service c) of
     (Inl e, s) \<Rightarrow> [] | (Inr mailboxes, s) \<Rightarrow> heard mailboxes (folder_answers MS mailboxes s))"

inductive lived :: "connector_env \<Rightarrow> 's connector \<Rightarrow> bool" for V where
  lived_new: "lived V (connector_New service)"
| lived_asked: "lived V c \<Longrightarrow> lived V (act MS request c)"
| lived_elsewhere: "lived V c \<Longrightarrow> lived V (c\<lparr>cs_service := service\<rparr>)"
| lived_synced: "lived V c \<Longrightarrow> whole_news (knownMessage c) (news_of MS c) \<Longrightarrow>
    Sync V MS schedules requested c = (r, evs, c') \<Longrightarrow> lived V c'"

lemma mirrored_same_memory: "mirrored c \<Longrightarrow> same_memory c c' \<Longrightarrow> mirrored c'"
  by (simp add: mirrored_def same_memory_def)

lemma lived_mirrored:
  assumes "lived V c" "ce_parse V = (\<lambda>_. None)"
  shows "mirrored c"
  using assms(1)
proof (induction rule: lived.induct)
  case (lived_new service)
  show ?case by (rule connector_New_mirrored)
next
  case (lived_asked c MS request)
  from lived_asked.IH act_same_memory show ?case by (rule mirrored_same_memory)
next
  case (lived_elsewhere c service)
  from lived_elsewhere.IH show ?case by (rule mirrored_same_memory) simp
next
  case (lived_synced c MS schedules requested r evs c')
  show ?case
  proof (cases "ms_ListMailboxes MS (cs_service c)")
    case (Pair answer s)
    show ?thesis
    proof (cases answer)
      case (Inl e)
      with Pair Sync_unlisted_mirrored [OF lived_synced.IH _ lived_synced.hyps(3)] show ?thesis by simp
    next
      case (Inr mailboxes)
      have "whole_news (knownMessage c) (heard mailboxes (folder_answers MS mailboxes s))"
        using lived_synced.hyps(2) by (simp add: news_of_def Pair Inr)
      with Sync_keeps_mirrored [OF lived_synced.IH assms(2) Pair [unfolded Inr] _ lived_synced.hyps(3)]
      show ?thesis by simp
    qed
  qed
qed

section \<open>News cut short\<close>

text \<open>
  A sync hears of a message in one state only: wherever a folder lists it, it has that state, and when every
  folder answers some folder lists it. A sync that is not told the folders hears nothing.
\<close>

definition hears_as :: "string \<Rightarrow> messageState \<Rightarrow> 's mail_service \<Rightarrow> 's connector \<Rightarrow> bool" where
  "hears_as k state MS c \<longleftrightarrow>
     (case ms_ListMailboxes MS (cs_service c) of
       (Inl e, s) \<Rightarrow> True
     | (Inr mailboxes, s) \<Rightarrow>
         (\<forall>m \<in> set (answered (folder_answers MS mailboxes s)). su_Id m = k \<longrightarrow> stateOf m = state) \<and>
         (list_all is_ok (folder_answers MS mailboxes s) \<longrightarrow>
            k \<in> su_Id ` set (answered (folder_answers MS mailboxes s))))"

text \<open>
  A stretch of a connector's life in which the message keeps its state: requests of the mail client, anything
  done to the service behind the connector, and any number of syncs, failed, partial or whole.
\<close>

inductive steady :: "connector_env \<Rightarrow> string \<Rightarrow> messageState \<Rightarrow> 's connector \<Rightarrow> 's connector \<Rightarrow> bool"
  for V k state c where
  steady_start: "steady V k state c c"
| steady_asked: "steady V k state c c1 \<Longrightarrow> steady V k state c (act MS request c1)"
| steady_elsewhere: "steady V k state c c1 \<Longrightarrow> steady V k state c (c1\<lparr>cs_service := service\<rparr>)"
| steady_synced: "steady V k state c c1 \<Longrightarrow> hears_as k state MS c1 \<Longrightarrow>
    Sync V MS schedules requested c1 = (r, evs, c2) \<Longrightarrow> steady V k state c c2"

text \<open>An account that has the message in that state, each folder of it answering, is heard so.\<close>

lemma coherent_hears_as:
  assumes "ms_ListMailboxes MS (cs_service c) = (Inr (map fst A), s)"
    and "folder_answers MS (map fst A) s = map (Inr \<circ> snd) A"
    and "coherent A" "states_of (emails A) k = Some state"
  shows "hears_as k state MS c"
proof -
  have "k \<in> su_Id ` set (emails A)" using assms(4) dom_states_of [of "emails A"] by blast
  moreover have "stateOf m = state" if "m \<in> set (emails A)" "su_Id m = k" for m
    using coherent_view(2) [OF assms(3) that(1)] that(2) assms(4) by simp
  ultimately show ?thesis by (auto simp: hears_as_def assms(1,2) answered_Inr)
qed

text \<open>What the connector knows of a message, and what it has said of it.\<close>

definition settled_as :: "string \<Rightarrow> messageState \<Rightarrow> (string set \<times> string set) option \<Rightarrow> 's connector \<Rightarrow> bool" where
  "settled_as k state said c \<longleftrightarrow>
     distinct (map fst (cs_messages c)) \<and> knownMessage c k = Some state \<and> told_by (cs_updates c) k = said"

lemma settled_as_same_memory: "settled_as k state said c \<Longrightarrow> same_memory c c' \<Longrightarrow> settled_as k state said c'"
  by (simp add: settled_as_def same_memory_def knownMessage_def)

lemma states_of_in: "states_of ms k = Some state \<Longrightarrow> \<exists>m \<in> set ms. su_Id m = k \<and> stateOf m = state"
  by (auto simp: states_of_def dest!: map_of_SomeD)

text \<open>A sync that hears of a known message as it is known says nothing of it, and keeps knowing it.\<close>

lemma Sync_settled_as:
  assumes "settled_as k state said c" "ce_parse V = (\<lambda>_. None)" "hears_as k state MS c"
    and "Sync V MS schedules requested c = (r, evs, c')"
  shows "settled_as k state said c'"
proof (cases "ms_ListMailboxes MS (cs_service c)")
  case (Pair answer s)
  have c: "distinct (map fst (cs_messages c))" "knownMessage c k = Some state" "told_by (cs_updates c) k = said"
    using assms(1) by (simp_all add: settled_as_def)
  show ?thesis
  proof (cases answer)
    case (Inl e)
    with assms(4) Pair have "same_memory c c'"
      by (auto simp: Sync_def with_service_def same_memory_def forget_threads_def Let_def)
    with assms(1) show ?thesis by (rule settled_as_same_memory)
  next
    case (Inr mailboxes)
    define answers where "answers = folder_answers MS mailboxes s"
    let ?B = "heard mailboxes answers"
    have e: "emails ?B = answered answers" by (simp add: answers_def emails_heard)
    have l: "ms_ListMailboxes MS (cs_service c) = (Inr mailboxes, s)" by (simp add: Pair Inr)
    have same: "\<forall>m \<in> set (answered answers). su_Id m = k \<longrightarrow> stateOf m = state"
      and whole: "list_all is_ok answers \<longrightarrow> k \<in> su_Id ` set (answered answers)"
      using assms(3) by (simp_all add: hears_as_def Pair Inr answers_def)
    note facts = Sync_facts [OF c(1) l answers_def [symmetric] assms(4)]
    from Sync_parts [OF l answers_def [symmetric] c(1) assms(4)]
    obtain seen complete c1 c2 pe0 pe where
      sc: "scan_all MS mailboxes [] (c\<lparr>cs_service := s\<rparr>) = (seen, work_of (knownMessage c) ?B, complete, c1)" and
      each: "download_each_mailbox V MS schedules 0 (work_of (knownMessage c) ?B) c1 pe0 0 = (c2, pe)" and
      told: "told_by (cs_updates c') = told_by (cs_updates c2) |` (- (if list_all is_ok answers
        then dom (knownMessage c) - su_Id ` set (answered answers) else {}))" .
    have "quiet (knownMessage (c\<lparr>cs_service := s\<rparr>)) k (answered answers)"
      using same c(2) sameAs_refl by (simp add: quiet_def knownMessage_def)
    from scan_all_quiet [OF sc _ _ this] have "told_by (cs_updates c1) k = said"
      using c(3) by (simp add: answers_def)
    moreover have "work_folders (work_of (knownMessage c) ?B) k = {}" by (simp add: work_folders_of c(2))
    moreover have "\<forall>w \<in> set (work_of (knownMessage c) ?B). \<forall>m \<in> set (wk_created w). su_Id m = k \<longrightarrow>
        messageFlags m = state_flags state"
      using c(2) work_of_unknown by fastforce
    note download_told [OF assms(2) this each]
    ultimately have "told_by (cs_updates c2) k = said" by simp
    then have "told_by (cs_updates c') k = said" using whole by (simp add: told)
    moreover have "knownMessage c' k = Some state"
    proof (cases "states_of (answered answers) k")
      case None
      then have "k \<notin> su_Id ` set (answered answers)" by (metis dom_states_of domIff)
      with whole None c(2) show ?thesis using facts(4) by (auto simp: knownMessage_def map_add_def)
    next
      case (Some state')
      then obtain m where "m \<in> set (answered answers)" "su_Id m = k" "stateOf m = state'"
        using states_of_in by blast
      with same Some show ?thesis using facts(4) by (auto simp: knownMessage_def map_add_def)
    qed
    ultimately show ?thesis using facts(2) by (simp add: settled_as_def)
  qed
qed

lemma steady_settled_as:
  assumes "steady V k state c c'" "ce_parse V = (\<lambda>_. None)" "settled_as k state said c"
  shows "settled_as k state said c'"
  using assms(1)
proof (induction rule: steady.induct)
  case steady_start
  show ?case by (rule assms(3))
next
  case (steady_asked c1 MS request)
  from steady_asked.IH act_same_memory show ?case by (rule settled_as_same_memory)
next
  case (steady_elsewhere c1 service)
  from steady_elsewhere.IH show ?case by (rule settled_as_same_memory) simp
next
  case (steady_synced c1 MS schedules requested r evs c2)
  from Sync_settled_as [OF steady_synced.IH assms(2) steady_synced.hyps(2,3)] show ?case .
qed

text \<open>
  C24: What Gluon is told of a new email is where it was listed, what is remembered is the state it was
  listed in last, and where the two differ they stay so. A sync hears of an email it does not know in
  the folders \<open>folders_of B k\<close>, last in the state \<open>state\<close>. As long as the account then has the email in
  that state, nothing corrects what Gluon was told: no request of the mail client and no later sync, however
  many there are, whether they fail, hear of some folders or of all. An account that has the email in
  that state has it in the folders \<open>state\<close> names. So an email loses a folder that did not answer when it was
  new, and one that was moved while the sync went through the folders stays in both.
\<close>

theorem news_cut_short_stays:
  assumes "lived V c" "ce_parse V = (\<lambda>_. None)" "knownMessage c k = None"
    and "ms_ListMailboxes MS (cs_service c) = (Inr mailboxes, s)" "heard mailboxes (folder_answers MS mailboxes s) = B"
    and "states_of (emails B) k = Some state" "\<forall>m \<in> set (emails B). su_Id m = k \<longrightarrow> messageFlags m = state_flags state"
    and "Sync V MS schedules requested c = (r, evs, c1)"
    and "steady V k state c1 c2"
  shows "told_by (cs_updates c2) k = Some (folders_of B k, state_flags state) \<and> knownMessage c2 k = Some state \<and>
    (\<forall>A. coherent A \<and> states_of (emails A) k = Some state \<longrightarrow>
       account_view A k = Some (set (st_mailboxIDs state), state_flags state))"
proof -
  define answers where "answers = folder_answers MS mailboxes s"
  have e: "answered answers = emails B" using assms(5) by (simp add: answers_def emails_heard [symmetric])
  have k: "k \<in> su_Id ` set (emails B)" using assms(6) dom_states_of [of "emails B"] by blast
  have c: "distinct (map fst (cs_messages c))" "told_by (cs_updates c) k = None"
    using lived_mirrored [OF assms(1,2)] assms(3) by (simp_all add: mirrored_def knownMessage_def)
  have ans: "folder_answers MS mailboxes (cs_service (c\<lparr>cs_service := s\<rparr>)) = answers" by (simp add: answers_def)
  from Sync_parts [OF assms(4) answers_def [symmetric] c(1) assms(8)]
  obtain seen whole d1 d2 pe0 pe where
    sc: "scan_all MS mailboxes [] (c\<lparr>cs_service := s\<rparr>) = (seen, work_of (knownMessage c) B, whole, d1)" and
    each: "download_each_mailbox V MS schedules 0 (work_of (knownMessage c) B) d1 pe0 0 = (d2, pe)" and
    told1: "told_by (cs_updates c1) = told_by (cs_updates d2) |` (- (if list_all is_ok answers
      then dom (knownMessage c) - su_Id ` set (emails B) else {}))"
    unfolding e assms(5) [folded answers_def] .
  have "quiet (knownMessage (c\<lparr>cs_service := s\<rparr>)) k (answered answers)"
    using assms(3) by (simp add: quiet_def knownMessage_def)
  from scan_all_quiet [OF sc _ ans this] have "told_by (cs_updates d1) k = None" using c(2) by simp
  moreover have "\<forall>w \<in> set (work_of (knownMessage c) B). \<forall>m \<in> set (wk_created w). su_Id m = k \<longrightarrow>
      messageFlags m = state_flags state"
    using assms(7) work_of_emails by blast
  from download_told [OF assms(2) this each] have "told_by (cs_updates d2) k = (if folders_of B k = {}
      then told_by (cs_updates d1) k
      else Some (folders_of B k \<union> told_folders (told_by (cs_updates d1)) k, state_flags state))"
    by (simp add: work_folders_of assms(3))
  ultimately have "told_by (cs_updates c1) k = Some (folders_of B k, state_flags state)"
    using k by (simp add: told1 folders_of_empty told_folders_def)
  moreover note facts = Sync_facts [OF c(1) assms(4) answers_def [symmetric] assms(8), unfolded e]
  have "knownMessage c1 k = Some state" using facts(4) assms(6) by (simp add: knownMessage_def map_add_def)
  ultimately have "settled_as k state (Some (folders_of B k, state_flags state)) c1"
    using facts(2) by (simp add: settled_as_def)
  from steady_settled_as [OF assms(9,2) this]
  have "told_by (cs_updates c2) k = Some (folders_of B k, state_flags state)" "knownMessage c2 k = Some state"
    by (simp_all add: settled_as_def)
  moreover have "account_view A k = Some (set (st_mailboxIDs state), state_flags state)"
    if "coherent A" "states_of (emails A) k = Some state" for A
    unfolding account_view_states [OF that(1)] using that(2) by (simp add: shown_def)
  ultimately show ?thesis by blast
qed

section \<open>Witnesses\<close>

text \<open>
  An email of two folders, the second of which does not answer the first sync; and an email moved from
  the first to the second between their listings.
\<close>

definition two_folders :: "(err + EmailSummaryResponseDto list) \<Rightarrow> (err + EmailSummaryResponseDto list) \<Rightarrow> unit mail_service" where
  "two_folders inbox archive = (toy_service [])\<lparr>
     ms_ListMailboxes := (\<lambda>s. (Inr [toy_folder ''inbox'', toy_folder ''archive''], s)),
     ms_ListAllEmails := (\<lambda>opts s. (if lo_Mailbox opts = ''archive'' then archive else inbox, s))\<rparr>"

lemma two_folders_answers:
  "ms_ListMailboxes (two_folders inbox archive) s = (Inr [toy_folder ''inbox'', toy_folder ''archive''], s)"
  "folder_answers (two_folders inbox archive) [toy_folder ''inbox'', toy_folder ''archive''] s = [inbox, archive]"
  by (simp_all add: two_folders_def folder_options_def toy_folder_def mailboxType_def)

definition in_folders :: "string list \<Rightarrow> EmailSummaryResponseDto" where
  "in_folders folders = (toy_summary ''a'')\<lparr>su_MailboxIds := folders\<rparr>"

lemma in_folders_simps [simp]:
  "su_Id (in_folders folders) = ''a''" "messageFlags (in_folders folders) = {}"
  "st_mailboxIDs (stateOf (in_folders folders)) = folders" "su_MailboxIds (in_folders folders) = folders"
  "state_flags (stateOf (in_folders folders)) = {}"
  by (simp_all add: in_folders_def toy_summary_def zero_summary_def messageFlags_def stateOf_def state_flags_def)

definition synced :: "unit mail_service \<Rightarrow> unit connector \<Rightarrow> unit connector" where
  "synced MS c = snd (snd (Sync toy_env MS (\<lambda>k. []) False c))"

theorem news_cut_short_stays_witness:
  "told_by (cs_updates (synced (two_folders (Inr [in_folders [''box-inbox'', ''box-archive'']]) (Inr [in_folders [''box-inbox'', ''box-archive'']]))
       (synced (two_folders (Inr [in_folders [''box-inbox'', ''box-archive'']]) (Inl (ErrExt ''down''))) (connector_New ())))) ''a'' =
     Some ({''box-inbox''}, {}) \<and>
   told_by (cs_updates (synced (two_folders (Inr []) (Inr [in_folders [''box-archive'']]))
       (synced (two_folders (Inr [in_folders [''box-inbox'']]) (Inr [in_folders [''box-archive'']])) (connector_New ())))) ''a'' =
     Some ({''box-inbox'', ''box-archive''}, {})"
proof -
  let ?f = "[toy_folder ''inbox'', toy_folder ''archive'']"
  let ?m = "in_folders [''box-inbox'', ''box-archive'']" and ?moved = "in_folders [''box-archive'']"
  have env: "ce_parse toy_env = (\<lambda>_. None)" by (simp add: toy_env_def)
  have known: "knownMessage (connector_New ()) ''a'' = None" by (simp add: knownMessage_def connector_New_def)
  have box: "mb_Id (toy_folder kind) = ''box-'' @ kind" for kind by (simp add: toy_folder_def)
  have stays: "told_by (cs_updates (synced (two_folders inbox' archive') (synced (two_folders inbox archive) (connector_New ())))) ''a'' =
      Some (folders_of B ''a'', {})"
    if B: "heard ?f [inbox, archive] = B" "\<forall>x \<in> set (emails B). \<exists>folders. x = in_folders folders"
      and last: "states_of (emails B) ''a'' = Some (stateOf (in_folders folders))"
      and A: "map fst A = ?f" "map (Inr \<circ> snd) A = [inbox', archive']" "coherent A"
        "states_of (emails A) ''a'' = Some (stateOf (in_folders folders))"
    for B inbox archive folders A inbox' archive'
  proof -
    obtain r evs c1 where one: "Sync toy_env (two_folders inbox archive) (\<lambda>k. []) False (connector_New ()) = (r, evs, c1)"
      by (metis prod.exhaust)
    obtain r' evs' c2 where two: "Sync toy_env (two_folders inbox' archive') (\<lambda>k. []) False (c1\<lparr>cs_service := ()\<rparr>) = (r', evs', c2)"
      by (metis prod.exhaust)
    have l: "ms_ListMailboxes (two_folders inbox archive) (cs_service (connector_New ())) = (Inr ?f, ())"
      "ms_ListMailboxes (two_folders inbox' archive') () = (Inr (map fst A), ())"
      by (simp_all add: two_folders_answers A(1))
    have h: "heard ?f (folder_answers (two_folders inbox archive) ?f ()) = B"
      "folder_answers (two_folders inbox' archive') (map fst A) () = map (Inr \<circ> snd) A"
      by (simp_all only: two_folders_answers A B)
    have fl: "\<forall>x \<in> set (emails B). su_Id x = ''a'' \<longrightarrow> messageFlags x = state_flags (stateOf (in_folders folders))"
      using B(2) by fastforce
    have heard: "hears_as ''a'' (stateOf (in_folders folders)) (two_folders inbox' archive') (c1\<lparr>cs_service := ()\<rparr>)"
      using coherent_hears_as [OF _ h(2) A(3,4)] l(2) by simp
    have "steady toy_env ''a'' (stateOf (in_folders folders)) c1 c2"
      by (rule steady_synced [OF steady_elsewhere [OF steady_start] heard two])
    from news_cut_short_stays [OF lived_new env known l(1) h(1) last fl one this]
    have "told_by (cs_updates c2) ''a'' = Some (folders_of B ''a'', {})" by simp
    moreover have same: "c1\<lparr>cs_service := ()\<rparr> = c1" by simp
    ultimately show ?thesis using one two [unfolded same] by (simp add: synced_def)
  qed
  have "told_by (cs_updates (synced (two_folders (Inr [?m]) (Inr [?m]))
      (synced (two_folders (Inr [?m]) (Inl (ErrExt ''down''))) (connector_New ())))) ''a'' =
    Some (folders_of [(toy_folder ''inbox'', [?m])] ''a'', {})"
    by (rule stays [where folders = "[''box-inbox'', ''box-archive'']" and A = "[(toy_folder ''inbox'', [?m]), (toy_folder ''archive'', [?m])]"])
       (auto simp: emails_def coherent_def box)
  moreover have "told_by (cs_updates (synced (two_folders (Inr []) (Inr [?moved]))
      (synced (two_folders (Inr [in_folders [''box-inbox'']]) (Inr [?moved])) (connector_New ())))) ''a'' =
    Some (folders_of [(toy_folder ''inbox'', [in_folders [''box-inbox'']]), (toy_folder ''archive'', [?moved])] ''a'', {})"
    by (rule stays [where folders = "[''box-archive'']" and A = "[(toy_folder ''inbox'', []), (toy_folder ''archive'', [?moved])]"])
       (auto simp: emails_def coherent_def box)
  ultimately show ?thesis by (simp add: box insert_commute)
qed

end
