(* ===== verification/Gateway.thy ===== *)
theory Gateway
  imports Mirror MailServiceProps Poller
begin

text \<open>
  The whole way of a message from the Mail API to Gluon: the poller runs the connector's sync, the
  connector asks the mail service, the service runs the commands, the commands call the client. What
  a sync does to the service is the locale \<open>reading_service\<close>; it is interpreted on the mail service
  twice, once for the calls it makes and once for what it keeps.
\<close>

section \<open>The mail service as the connector sees it\<close>

text \<open>
  A listing that never ends, and a draft whose reading panics, have no result; the interface of the
  connector gives them an error, and what is said of results says that they have one.
\<close>

definition account_service :: "'s mail_env \<Rightarrow> 's service_state mail_service" where
  "account_service V =
     \<lparr>ms_ListMailboxes = svc_ListMailboxes V,
      ms_ListAllEmails = (\<lambda>opts s. case svc_ListAllEmails V opts s of
        Some answer \<Rightarrow> answer | None \<Rightarrow> (Inl (ErrExt ''no answer''), s)),
      ms_GetMessageLiteral = svc_GetMessageLiteral V,
      ms_ForgetThreads = ForgetThreads,
      ms_MarkRead = svc_MarkRead V, ms_MarkFlagged = svc_MarkFlagged V,
      ms_Move = svc_Move V, ms_Delete = svc_Delete V,
      ms_SaveDraft = (\<lambda>literal s. case svc_SaveDraft V literal s of
        Some answer \<Rightarrow> answer | None \<Rightarrow> (Inl (ErrExt ''no answer''), s)),
      ms_SentCopyID = svc_SentCopyID V, ms_DiscardDrafts = svc_DiscardDrafts V\<rparr>"

section \<open>What a sync leaves as it is\<close>

lemma remembering_keeps:
  "cs_service (forgetDeleted seen c) = cs_service c" "cs_service (rememberMessages seen c) = cs_service c"
proof -
  have "cs_service (fold (\<lambda>ident. send (MessagesDeleted [ident])) ids c) = cs_service c" for ids
    by (induction ids arbitrary: c) simp_all
  then show "cs_service (forgetDeleted seen c) = cs_service c" "cs_service (rememberMessages seen c) = cs_service c"
    by (simp_all add: forgetDeleted_def forgetMessages_def rememberMessages_def Let_def)
qed

locale reading_service =
  fixes MS :: "'s mail_service" and inv :: "'s \<Rightarrow> bool"
  assumes lists_folders: "inv s \<Longrightarrow> inv (snd (ms_ListMailboxes MS s))"
    and lists_emails: "inv s \<Longrightarrow> inv (snd (ms_ListAllEmails MS opts s))"
    and serves_literal: "inv s \<Longrightarrow> inv (snd (ms_GetMessageLiteral MS i s))"
    and forgets_threads: "inv s \<Longrightarrow> inv (ms_ForgetThreads MS s)"
begin

lemma with_service_keeps:
  "(\<And>s. inv s \<Longrightarrow> inv (snd (f s))) \<Longrightarrow> inv (cs_service c) \<Longrightarrow> inv (cs_service (snd (with_service f c)))"
  by (auto simp: with_service_def split: prod.split) (metis snd_conv)

lemma scan_fold_keeps: "cs_service (snd (snd (fold scan_summary ms acc))) = cs_service (snd (snd acc))"
proof (induction ms arbitrary: acc)
  case (Cons m ms)
  obtain seen created c where acc: "acc = (seen, created, c)" by (metis prod_cases3)
  show ?case using scan_summary_one(4) [of m seen created c] by (simp add: Cons acc) (metis prod.collapse)
qed simp

lemma scanMailbox_keeps:
  assumes "inv (cs_service c)"
  shows "inv (cs_service (snd (snd (scanMailbox MS mailbox seen c))))"
proof -
  let ?c = "rememberMailboxType mailbox
    (if \<not> knownMailbox c (mb_Id mailbox) then send (MailboxCreated (toIMAPMailbox mailbox)) c else c)"
  have "inv (cs_service ?c)" using assms by (simp add: rememberMailboxType_def Let_def)
  then have "inv (cs_service (snd (with_service (ms_ListAllEmails MS (folder_options mailbox)) ?c)))"
    by (intro with_service_keeps lists_emails)
  moreover obtain r c1 where "with_service (ms_ListAllEmails MS (folder_options mailbox)) ?c = (r, c1)" by fastforce
  ultimately show ?thesis
    using scan_fold_keeps [of _ "(seen, [], c1)"]
    by (auto simp: scanMailbox_def Let_def folder_options_def [symmetric] split_beta split: sum.split)
qed

lemma scan_all_keeps: "inv (cs_service c) \<Longrightarrow> inv (cs_service (snd (snd (snd (scan_all MS mailboxes seen c)))))"
proof (induction mailboxes arbitrary: seen c)
  case (Cons mailbox mailboxes)
  obtain r seen1 c1 where sc: "scanMailbox MS mailbox seen c = (r, seen1, c1)" by (metis prod_cases3)
  have "inv (cs_service c1)" using scanMailbox_keeps [OF Cons.prems, of mailbox seen] sc by simp
  from Cons.IH [OF this, of seen1] sc show ?case by (auto simp: split_beta Let_def split: sum.split)
qed simp

lemma announce_step_keeps:
  assumes "inv (cs_service (an_connector a))"
  shows "inv (cs_service (an_connector (announce_step V MS mailbox ms i a)))"
proof -
  have "inv (cs_service (snd (with_service (ms_GetMessageLiteral MS k) (an_connector a))))" for k
    using assms by (intro with_service_keeps serves_literal)
  with assms show ?thesis
    by (auto simp: announce_step_def set_phase_def Let_def split_beta split: phase.split sum.split)
qed

lemma announce_keeps:
  assumes "inv (cs_service c)"
  shows "inv (cs_service (an_connector (announceNewMessages V MS schedule mailbox ms c pe ticks)))"
proof -
  have "inv (cs_service (an_connector a)) \<Longrightarrow>
      inv (cs_service (an_connector (fold (announce_step V MS mailbox ms) sched a)))" for sched a
    by (induction sched arbitrary: a) (auto intro: announce_step_keeps)
  with assms show ?thesis by (auto simp: announceNewMessages_def final_flush_def Let_def simp del: fold_append)
qed

lemma download_keeps:
  "inv (cs_service c) \<Longrightarrow> inv (cs_service (fst (download_each_mailbox V MS schedules k work c pe ticks)))"
proof (induction work arbitrary: k c pe ticks)
  case (Cons w work)
  show ?case using Cons.IH [OF announce_keeps [OF Cons.prems]] by (simp add: Let_def)
qed simp

lemma Sync_keeps:
  assumes "inv (cs_service c)"
  shows "inv (cs_service (snd (snd (Sync V MS schedules requested c))))"
proof -
  obtain r c1 where l: "with_service (ms_ListMailboxes MS) c = (r, c1)" by fastforce
  have c1: "inv (cs_service c1)"
    using with_service_keeps [of "ms_ListMailboxes MS", OF lists_folders assms] l by simp
  show ?thesis
  proof (cases r)
    case (Inl e)
    with c1 l show ?thesis by (simp add: Sync_def forget_threads_def forgets_threads Let_def)
  next
    case (Inr mailboxes)
    obtain seen work whole c2 where sc: "scan_all MS mailboxes [] c1 = (seen, work, whole, c2)" by (metis prod.exhaust)
    have "inv (cs_service c2)" using scan_all_keeps [OF c1, of mailboxes "[]"] sc by simp
    obtain c3 evs where dl: "downloadNewMessages V MS schedules requested work c2 = (c3, evs)" by fastforce
    from this obtain pe0 pe where "download_each_mailbox V MS schedules 0 work c2 pe0 0 = (c3, pe)"
      by (rule downloadNewMessages_each)
    then have "inv (cs_service c3)"
      using download_keeps [OF \<open>inv (cs_service c2)\<close>, where V = V and schedules = schedules and k = 0 and
          work = work and pe = pe0 and ticks = 0] by simp
    have "Sync V MS schedules requested c = (Inr (), evs, forget_threads MS
        (if whole then forgetDeleted seen (rememberMessages seen c3) else rememberMessages seen c3))"
      by (simp add: Sync_def l Inr sc dl Let_def del: scan_all.simps)
    then show ?thesis
      using \<open>inv (cs_service c3)\<close> by (simp add: forget_threads_def forgets_threads remembering_keeps)
  qed
qed

lemma poll_keeps:
  assumes "poll_run (connector_sync V MS) c ls p" "inv (cs_service c)"
  shows "inv (cs_service (pl_connector p))"
  using assms
proof (induction rule: poll_run.induct)
  case poll_start
  then show ?case by (simp add: StartPolling_def)
next
  case (poll_next ls p l p')
  then have "inv (cs_service (pl_connector p))" by blast
  with poll_next.hyps(2) show ?case
    by (cases rule: poll_step.cases)
       (auto simp: poller_Resync_def syncOnce_def connector_sync_def intro: Sync_keeps)
qed

end

lemma account_service_simps [simp]:
  "ms_ListMailboxes (account_service V) = svc_ListMailboxes V"
  "ms_ListAllEmails (account_service V) opts s =
     (case svc_ListAllEmails V opts s of Some answer \<Rightarrow> answer | None \<Rightarrow> (Inl (ErrExt ''no answer''), s))"
  "ms_GetMessageLiteral (account_service V) = svc_GetMessageLiteral V"
  "ms_ForgetThreads (account_service V) = ForgetThreads"
  by (simp_all add: account_service_def)

text \<open>The calls a sync makes all read.\<close>

interpretation calls: reading_service "account_service (W\<lparr>mv_client := recording C\<rparr>)" "\<lambda>s. reads_only (sv_api s)"
  for W :: "('s \<times> call list) mail_env" and C :: "'s client"
proof unfold_locales
  let ?V = "W\<lparr>mv_client := recording C\<rparr>"
  have client: "mv_client ?V = recording C" by simp
  fix s :: "('s \<times> call list) service_state" and opts i
  assume s: "reads_only (sv_api s)"
  note reads = serving_only_reads [OF client s]
  show "reads_only (sv_api (snd (ms_ListMailboxes (account_service ?V) s)))"
    "reads_only (sv_api (snd (ms_GetMessageLiteral (account_service ?V) i s)))"
    using reads by simp_all
  show "reads_only (sv_api (snd (ms_ListAllEmails (account_service ?V) opts s)))"
    using reads [of opts] s by (auto split: option.split prod.splits)
  show "reads_only (sv_api (ms_ForgetThreads (account_service ?V) s))" using s by (simp add: ForgetThreads_def)
qed

text \<open>The session and the copies sent stay as they are; only the remembered threads come and go.\<close>

definition same_session :: "'s service_state \<Rightarrow> 's service_state \<Rightarrow> bool" where
  "same_session s t \<longleftrightarrow> sv_account t = sv_account s \<and> sv_sentCopies t = sv_sentCopies s \<and>
     sv_sentOrder t = sv_sentOrder s \<and> sv_draws t = sv_draws s"

lemma same_session_refl [simp]: "same_session s s"
  by (simp add: same_session_def)

lemma same_session_on_api: "same_session s t \<Longrightarrow> same_session s (snd (on_api f t))"
  by (simp add: same_session_def on_api_def split: prod.split)

lemma same_session_email: "same_session s t \<Longrightarrow> same_session s (snd (svc_email V x t))"
  using same_session_on_api [of s t "cl_GetThread (mv_client V) (svc_token t) x"]
  by (auto simp: svc_email_def rememberThread_def same_session_def Let_def split: option.split prod.split sum.split)

interpretation session: reading_service "account_service W" "same_session s0" for W :: "'s mail_env" and s0
proof unfold_locales
  fix s :: "'s service_state" and opts i
  assume s: "same_session s0 s"
  show "same_session s0 (snd (ms_ListMailboxes (account_service W) s))"
    using s by (simp add: svc_ListMailboxes_def same_session_on_api)
  show "same_session s0 (snd (ms_ListAllEmails (account_service W) opts s))"
    using s by (auto simp: svc_ListAllEmails_def same_session_def split: option.split)
  show "same_session s0 (snd (ms_GetMessageLiteral (account_service W) i s))"
    using same_session_email [OF s, of W i] by (auto simp: svc_GetMessageLiteral_def split: prod.split sum.split)
  show "same_session s0 (ms_ForgetThreads (account_service W) s)"
    using s by (simp add: ForgetThreads_def same_session_def)
qed

text \<open>
  C19: Showing mail never changes the account. However long the poller runs, on its timer and on
  request, whatever the service answers and however the downloads interleave: every call made so far
  reads, and so does every call of serving a message then, from the remembered threads or not, and of
  completing it with its attachments. The session, the copies sent and the random source are as they
  were when the poller was started.
\<close>

theorem polling_only_reads:
  assumes "mv_client V = recording C" and "reads_only (sv_api (cs_service c))"
    and "poll_run (connector_sync E (account_service V)) c ls p"
  shows "reads_only (sv_api (cs_service (pl_connector p))) \<and>
    reads_only (sv_api (cs_service (snd (GetMessageLiteral (account_service V) x (pl_connector p))))) \<and>
    reads_only (sv_api (snd (svc_ResolveAttachments V x literal (cs_service (pl_connector p))))) \<and>
    same_session (cs_service c) (cs_service (pl_connector p))"
proof -
  have V: "V\<lparr>mv_client := recording C\<rparr> = V" using assms(1) by simp
  note reads = calls.poll_keeps [where W = V and C = C, unfolded V, OF assms(3,2)]
  note kept = session.poll_keeps [OF assms(3) same_session_refl]
  note serving = serving_only_reads [OF assms(1) reads]
  have "cs_service (snd (GetMessageLiteral (account_service V) x (pl_connector p))) =
      snd (svc_GetMessageLiteral V x (cs_service (pl_connector p)))"
    by (auto simp: GetMessageLiteral_def with_service_def split: prod.split option.split)
  with reads serving [of undefined x literal] kept show ?thesis by simp
qed

section \<open>From the account to the mail client\<close>

text \<open>
  A client behind which an account is: its folders, each served page by page under its type, as long as
  the state of the client is in \<open>Q\<close>, where the listings leave it.
\<close>

definition hosts :: "('s \<Rightarrow> bool) \<Rightarrow> 's client \<Rightarrow> account \<Rightarrow> nat \<Rightarrow> bool" where
  "hosts Q C A page \<longleftrightarrow> 0 < page \<and>
     (\<forall>token s. Q s \<longrightarrow> (\<exists>s'. cl_GetMailboxes C token s = (Inr (map fst A), s') \<and> Q s')) \<and>
     (\<forall>(mailbox, ms) \<in> set A. length ms < 2 ^ 63 \<and> serves_mailbox Q (\<lambda>kind. kind = mailboxType mailbox) C ms page)"

definition decrypted :: "deps \<Rightarrow> Account \<Rightarrow> EmailSummaryResponseDto \<Rightarrow> EmailSummaryResponseDto" where
  "decrypted D account m = fst (decryptPreview D m account)"

definition opened_account :: "deps \<Rightarrow> Account \<Rightarrow> account \<Rightarrow> account" where
  "opened_account D account A = map (\<lambda>(mailbox, ms). (mailbox, map (decrypted D account) ms)) A"

lemma decrypted_fields [simp]:
  "su_Id (decrypted D account m) = su_Id m" "su_MailboxIds (decrypted D account m) = su_MailboxIds m"
  "stateOf (decrypted D account m) = stateOf m" "messageFlags (decrypted D account m) = messageFlags m"
  by (auto simp: decrypted_def decryptPreview_def stateOf_def messageFlags_def Let_def split: option.split sum.split)

lemma opened_account_simps [simp]:
  "opened_account D account [] = []"
  "opened_account D account ((mailbox, ms) # A) =
     (mailbox, map (decrypted D account) ms) # opened_account D account A"
  by (simp_all add: opened_account_def)

lemma fst_opened [simp]: "map fst (opened_account D account A) = map fst A"
  by (simp add: opened_account_def split_def)

lemma emails_opened: "emails (opened_account D account A) = map (decrypted D account) (emails A)"
  by (simp add: emails_def opened_account_def split_def map_concat comp_def)

lemma folders_opened [simp]: "folders_of (opened_account D account A) k = folders_of A k"
  by (induction A) (auto simp: image_image)

text \<open>Opening the previews changes nothing of what is mirrored.\<close>

lemma opened_account_view:
  "coherent A \<Longrightarrow> coherent (opened_account D account A)"
  "account_view (opened_account D account A) = account_view A"
proof -
  show "coherent A \<Longrightarrow> coherent (opened_account D account A)"
    unfolding coherent_def emails_opened set_map ball_simps decrypted_fields folders_opened by blast
  have "find (\<lambda>m. su_Id m = k) (map (decrypted D account) ms) = map_option (decrypted D account) (find (\<lambda>m. su_Id m = k) ms)"
    for k ms by (induction ms) simp_all
  then show "account_view (opened_account D account A) = account_view A"
    by (auto simp: account_view_def emails_opened fun_eq_iff split: option.split)
qed

lemma hosted_listing:
  assumes "hosts Q (mv_client V) A page" "(mailbox, ms) \<in> set A" "Q (sv_api s)"
  shows "\<exists>api. ms_ListAllEmails (account_service V) (folder_options mailbox) s =
    (Inr (map (decrypted (mv_deps V) (decryptionAccount s)) ms), s\<lparr>sv_api := api\<rparr>) \<and> Q api"
proof -
  have C: "serves_mailbox Q (\<lambda>kind. kind = mailboxType mailbox) (mv_client V) ms page" "0 < page" "length ms < 2 ^ 63"
    using assms(1,2) by (auto simp: hosts_def)
  have opts: "lo_Position (folder_options mailbox) = int 0" "lo_Mailbox (folder_options mailbox) = mailboxType mailbox"
    by (simp_all add: folder_options_def)
  from list_all_from_folder [OF C opts(1) _ opts(2) assms(3), of "mv_deps V" "svc_token s" "decryptionAccount s" "[]" "[]"]
  show ?thesis
    by (auto simp: svc_ListAllEmails_def ListAllEmails_def decrypt_page_def decrypted_def [abs_def])
qed

lemma hosted_answers:
  assumes "hosts Q (mv_client V) A page" "set B \<subseteq> set A" "Q (sv_api s)"
  shows "folder_answers (account_service V) (map fst B) s = map (Inr \<circ> snd) (opened_account (mv_deps V) (decryptionAccount s) B)"
  using assms(2,3)
proof (induction B arbitrary: s)
  case (Cons f B)
  obtain mailbox ms where f: "f = (mailbox, ms)" by fastforce
  then have "(mailbox, ms) \<in> set A" using Cons.prems(1) by simp
  from hosted_listing [OF assms(1) this Cons.prems(2)]
  obtain api where l: "ms_ListAllEmails (account_service V) (folder_options mailbox) s =
      (Inr (map (decrypted (mv_deps V) (decryptionAccount s)) ms), s\<lparr>sv_api := api\<rparr>)" "Q api"
    by blast
  have "decryptionAccount (s\<lparr>sv_api := api\<rparr>) = decryptionAccount s" by (simp add: decryptionAccount_def)
  with Cons.IH [of "s\<lparr>sv_api := api\<rparr>"] Cons.prems l show ?case
    by (simp add: f del: account_service_simps)
qed simp

lemma hosted_Sync:
  assumes "lived E c" "ce_parse E = (\<lambda>_. None)" "hosts Q (mv_client V) A page" "coherent A" "Q (sv_api (cs_service c))"
    and "Sync E (account_service V) schedules requested c = (r, evs, c')"
  shows "r = Inr () \<and> told_by (cs_updates c') = account_view A"
proof -
  let ?s = "cs_service c"
  obtain api where api: "cl_GetMailboxes (mv_client V) (svc_token ?s) (sv_api ?s) = (Inr (map fst A), api)" "Q api"
    using assms(3,5) unfolding hosts_def by blast
  then have l: "svc_ListMailboxes V ?s = (Inr (map fst A), ?s\<lparr>sv_api := api\<rparr>)"
    by (simp add: svc_ListMailboxes_def ListMailboxes_def on_api_def)
  let ?A = "opened_account (mv_deps V) (decryptionAccount (?s\<lparr>sv_api := api\<rparr>)) A"
  have lists: "ms_ListMailboxes (account_service V) ?s = (Inr (map fst ?A), ?s\<lparr>sv_api := api\<rparr>)"
    using l by simp
  have answers: "folder_answers (account_service V) (map fst ?A) (?s\<lparr>sv_api := api\<rparr>) = map (Inr \<circ> snd) ?A"
    using hosted_answers [OF assms(3) subset_refl, of "?s\<lparr>sv_api := api\<rparr>"] api(2) by simp
  show ?thesis
    using Sync_mirrors [OF lived_mirrored [OF assms(1,2)] opened_account_view(1) [OF assms(4)] assms(2) lists answers assms(6)]
    by (simp add: opened_account_view(2))
qed

text \<open>
  C3: Whatever happened before, one whole sync brings the mail client to the account. The connector may
  have lived through anything: requests of the client, mail sent, changes on other devices, syncs that
  failed or heard of some folders only (no news cut short: a new email is heard of in all its folders).
  Then it syncs over the mail service, the service over the commands and the commands over a client
  behind which an account is, in folders of any size served in pages of any size. No listing goes on
  forever, the sync succeeds, and Gluon has been told of exactly the emails the account has now, each in
  exactly the folders that hold it and with its flags. (It asks that an email is the same in every
  folder that holds it, and that Gluon can parse every message.)
\<close>

theorem account_reaches_Gluon:
  assumes "lived E c" and "ce_parse E = (\<lambda>_. None)" and "hosts Q (mv_client V) A page" and "coherent A"
    and "Q (sv_api (cs_service c))" and "Sync E (account_service V) schedules requested c = (r, evs, c')"
  shows "r = Inr () \<and> told_by (cs_updates c') = account_view A"
  using assms by (rule hosted_Sync)

section \<open>Witnesses\<close>

theorem polling_only_reads_witness:
  "\<exists>p. poll_run (connector_sync toy_env (account_service (toy_mail (recording thread_client))))
      (connector_New (svc_New ((), []) toy_account)) [CallResync, TakeReset, SyncReturns] p \<and>
     pl_phase p = Selecting \<and> reads_only (sv_api (cs_service (pl_connector p))) \<and>
     sv_account (cs_service (pl_connector p)) = toy_account"
proof -
  let ?V = "toy_mail (recording thread_client)" and ?c = "connector_New (svc_New ((), []) toy_account)"
  let ?sync = "connector_sync toy_env (account_service ?V)" and ?p0 = "StartPolling ?c"
  let ?p1 = "poller_Resync ?p0"
  let ?p2 = "?p1\<lparr>pl_reset := False, pl_phase := Syncing True\<rparr>"
  obtain w where w: "syncOnce ?sync True (pl_connector ?p2) w"
    unfolding syncOnce_def using connector_sync_total by blast
  let ?p3 = "?p2\<lparr>pl_tick := False, pl_phase := Selecting, pl_connector := w\<rparr>"
  have "poll_run ?sync ?c ([] @ [CallResync]) ?p1" by (intro poll_next [OF poll_start] call_resync)
  then have "poll_run ?sync ?c (([] @ [CallResync]) @ [TakeReset]) ?p2"
    by (rule poll_next) (intro take_reset, simp_all add: StartPolling_def poller_Resync_def)
  then have "poll_run ?sync ?c ((([] @ [CallResync]) @ [TakeReset]) @ [SyncReturns]) ?p3"
    by (rule poll_next) (use sync_returns [OF _ w] in simp)
  then have run: "poll_run ?sync ?c [CallResync, TakeReset, SyncReturns] ?p3" by simp
  have V: "mv_client ?V = recording thread_client" by (simp add: toy_mail_def)
  have start: "reads_only (sv_api (cs_service ?c))" "sv_account (cs_service ?c) = toy_account"
    by (simp_all add: connector_New_def svc_New_def reads_only_def)
  from polling_only_reads [OF V start(1) run] start(2) run show ?thesis
    by (intro exI [of _ ?p3]) (simp add: same_session_def)
qed

definition one_folder :: account where
  "one_folder = [(toy_folder ''inbox'', [toy_summary ''a'', toy_summary ''b''])]"

definition hosting_client :: "unit client" where
  "hosting_client = (folder_client (concat (map snd one_folder)) 1)\<lparr>cl_GetMailboxes := (\<lambda>t s. (Inr (map fst one_folder), s))\<rparr>"

text \<open>A service of two folders, the second of which does not answer.\<close>

definition half_service :: "unit service_state mail_service" where
  "half_service = (account_service (toy_mail hosting_client))\<lparr>
     ms_ListMailboxes := (\<lambda>s. (Inr [toy_folder ''inbox'', toy_folder ''archive''], s)),
     ms_ListAllEmails := (\<lambda>opts s. (if lo_Mailbox opts = ''archive'' then Inl (ErrExt ''down'') else Inr [toy_summary ''gone''], s))\<rparr>"

theorem account_reaches_Gluon_witness:
  "\<exists>c. c = act half_service (RemoveFrom [''gone''] ''box-inbox'') (snd (snd (Sync toy_env half_service (\<lambda>k. []) False
       (connector_New (svc_New () toy_account))))) \<and> lived toy_env c \<and>
     told_by (cs_updates (snd (snd (Sync toy_env (account_service (toy_mail hosting_client)) (\<lambda>k. [0, 0]) False c)))) =
       [''a'' \<mapsto> ({''box-inbox''}, {}), ''b'' \<mapsto> ({''box-inbox''}, {})]"
proof -
  let ?c0 = "connector_New (svc_New () toy_account)" and ?V = "toy_mail hosting_client"
  obtain r0 evs0 c1 where half: "Sync toy_env half_service (\<lambda>k. []) False ?c0 = (r0, evs0, c1)" by (metis prod.exhaust)
  have "news_of half_service ?c0 = [(toy_folder ''inbox'', [toy_summary ''gone''])]"
    by (simp add: news_of_def half_service_def folder_options_def toy_folder_def mailboxType_def)
  then have "whole_news (knownMessage ?c0) (news_of half_service ?c0)"
    by (simp add: whole_news_def emails_def toy_summary_def toy_folder_def)
  then have "lived toy_env c1" by (rule lived_synced [OF lived_new _ half])
  then have lived: "lived toy_env (act half_service (RemoveFrom [''gone''] ''box-inbox'') c1)" by (rule lived_asked)
  obtain r evs c' where sync: "Sync toy_env (account_service ?V) (\<lambda>k. [0, 0]) False
      (act half_service (RemoveFrom [''gone''] ''box-inbox'') c1) = (r, evs, c')"
    by (metis prod.exhaust)
  have h: "hosts (\<lambda>s. True) (mv_client ?V) one_folder 1"
    by (auto simp: hosts_def toy_mail_def hosting_client_def serves_mailbox_def folder_client_def one_folder_def)
  have a: "coherent one_folder" "ce_parse toy_env = (\<lambda>_. None)"
    by (auto simp: coherent_def emails_def one_folder_def toy_summary_def toy_folder_def toy_env_def)
  have "account_view one_folder = [''a'' \<mapsto> ({''box-inbox''}, {}), ''b'' \<mapsto> ({''box-inbox''}, {})]"
    by (auto simp: account_view_def emails_def one_folder_def toy_summary_def toy_folder_def messageFlags_def
        zero_summary_def fun_eq_iff)
  with account_reaches_Gluon [OF lived a(2) h a(1) TrueI sync] lived half sync show ?thesis by simp
qed

end
