(* ===== verification/Settled.thy ===== *)
theory Settled
  imports Gateway
begin

text \<open>
  The other way round: what a mail client asks for is carried out in the account, and comes back to
  Gluon as it was asked for. Emails are changed one by one, which is the locale \<open>one_by_one\<close>, interpreted
  on the three loops of the commands; over a client that keeps an account a request changes a first
  part of the emails it names, all of them when it is granted.
\<close>

section \<open>An account that changes\<close>

type_synonym shown_as = "string set \<times> string set"

definition set_flag :: "string \<Rightarrow> bool \<Rightarrow> string set \<Rightarrow> string set" where
  "set_flag flag on flags = (if on then insert flag flags else flags - {flag})"

text \<open>The folders of a type.\<close>

definition named :: "account \<Rightarrow> Mailbox \<Rightarrow> string set" where
  "named A kind = {mb_Id f | f ms. (f, ms) \<in> set A \<and> mailboxType f = kind}"

lemma named_simps [simp]:
  "named [] kind = {}"
  "named ((f, ms) # A) kind = (if mailboxType f = kind then {mb_Id f} else {}) \<union> named A kind"
  by (auto simp: named_def)

text \<open>What an update asks for, as a mail client sees the email.\<close>

definition updated :: "(Mailbox \<Rightarrow> string set) \<Rightarrow> UpdateEmailRequestDto \<Rightarrow> shown_as \<Rightarrow> shown_as" where
  "updated W u x =
     (case up_Mailbox u of None \<Rightarrow> fst x | Some kind \<Rightarrow> W kind,
      (case up_IsRead u of None \<Rightarrow> id | Some on \<Rightarrow> set_flag FlagSeen on)
        ((case up_IsFlagged u of None \<Rightarrow> id | Some on \<Rightarrow> set_flag FlagFlagged on) (snd x)))"

definition changes :: "(shown_as \<Rightarrow> shown_as option) \<Rightarrow> string \<Rightarrow> account \<Rightarrow> account \<Rightarrow> bool" where
  "changes ask k A A' \<longleftrightarrow> named A' = named A \<and>
     account_view A' = (account_view A)(k := Option.bind (account_view A k) ask)"

text \<open>A call that fails may have been carried out all the same.\<close>

definition attempted :: "(shown_as \<Rightarrow> shown_as option) \<Rightarrow> string \<Rightarrow> err + unit \<Rightarrow> account \<Rightarrow> account \<Rightarrow> bool" where
  "attempted ask k r A A' \<longleftrightarrow> changes ask k A A' \<or> (\<not> is_ok r \<and> A' = A)"

text \<open>
  A client that keeps an account: it serves it, page by page, as long as the account stays as it is, and
  an update, a deletion and the discarding of a draft change the one email they name.
\<close>

definition keeps_account :: "'s client \<Rightarrow> ('s \<Rightarrow> account) \<Rightarrow> nat \<Rightarrow> bool" where
  "keeps_account C acct page \<longleftrightarrow>
     (\<forall>s. coherent (acct s) \<and> hosts (\<lambda>t. acct t = acct s) C (acct s) page) \<and>
     (\<forall>token k u s. attempted (Some \<circ> updated (named (acct s)) u) k
        (fst (cl_UpdateEmail C token k u s)) (acct s) (acct (snd (cl_UpdateEmail C token k u s)))) \<and>
     (\<forall>token k s. attempted (\<lambda>x. None) k
        (fst (cl_DeleteEmail C token k s)) (acct s) (acct (snd (cl_DeleteEmail C token k s)))) \<and>
     (\<forall>token k s. attempted (\<lambda>x. None) k
        (fst (cl_DiscardDraft C token k s)) (acct s) (acct (snd (cl_DiscardDraft C token k s))))"

section \<open>One email after the other\<close>

definition carried_out :: "(shown_as \<Rightarrow> shown_as option) \<Rightarrow> string list \<Rightarrow> told \<Rightarrow> told" where
  "carried_out ask ks view = (\<lambda>k. if k \<in> set ks then Option.bind (view k) ask else view k)"

definition repeatable :: "(shown_as \<Rightarrow> shown_as option) \<Rightarrow> bool" where
  "repeatable ask \<longleftrightarrow> (\<forall>x. Option.bind (ask x) ask = ask x)"

lemma carried_out_none [simp]: "carried_out ask [] view = view"
  by (simp add: carried_out_def)

lemma carried_out_Cons:
  assumes "repeatable ask"
  shows "carried_out ask (k # ks) view = carried_out ask ks (view(k := Option.bind (view k) ask))"
proof (rule ext)
  fix x
  have "Option.bind (Option.bind (view k) ask) ask = Option.bind (view k) ask"
  proof (cases "view k")
    case (Some x)
    with assms show ?thesis unfolding repeatable_def by (metis bind.bind_lunit)
  qed simp
  then show "carried_out ask (k # ks) view x = carried_out ask ks (view(k := Option.bind (view k) ask)) x"
    by (simp add: carried_out_def)
qed

locale one_by_one =
  fixes each :: "string list \<Rightarrow> ('s, unit) op" and one :: "string \<Rightarrow> ('s, unit) op" and label :: string
  assumes each_none: "each [] s = (Inr (), s)"
    and each_more: "each (k # ks) s = bind_st (wrap_st label (one k s)) (\<lambda>_. each ks)"
begin

lemma each_fails: "fst (one k s) = Inl e \<Longrightarrow> each (k # ks) s = (Inl (ErrWrap label e), snd (one k s))"
  by (cases "one k s") (simp add: each_more)

lemma each_goes_on: "fst (one k s) = Inr x \<Longrightarrow> each (k # ks) s = each ks (snd (one k s))"
  by (cases "one k s") (simp add: each_more)

lemma carries_out:
  assumes one: "\<And>k s. named (acct s) = W \<Longrightarrow> attempted ask k (fst (one k s)) (acct s) (acct (snd (one k s)))"
    and "repeatable ask" "each ks s = (r, s')" "named (acct s) = W"
  shows "\<exists>n \<le> length ks. (is_ok r \<longrightarrow> n = length ks) \<and> named (acct s') = W \<and>
    account_view (acct s') = carried_out ask (take n ks) (account_view (acct s))"
  using assms(3,4)
proof (induction ks arbitrary: s)
  case Nil
  then show ?case by (simp add: each_none)
next
  case (Cons k ks)
  note step = one [OF Cons.prems(2), of k, unfolded attempted_def]
  have changed: "named (acct (snd (one k s))) = W"
      "carried_out ask (take (Suc n) (k # ks)) (account_view (acct s)) =
        carried_out ask (take n ks) (account_view (acct (snd (one k s))))"
    if "changes ask k (acct s) (acct (snd (one k s)))" for n
    using that Cons.prems(2) by (simp_all add: changes_def carried_out_Cons [OF assms(2)])
  show ?case
  proof (cases "fst (one k s)")
    case (Inl e)
    with each_fails [OF Inl] Cons.prems(1) have r: "\<not> is_ok r" "s' = snd (one k s)" by auto
    show ?thesis
    proof (cases "changes ask k (acct s) (acct s')")
      case True
      with changed(1) changed(2) [of 0] r show ?thesis by (intro exI [of _ "Suc 0"]) (simp del: take_Suc_Cons)
    next
      case False
      with step r Cons.prems(2) show ?thesis by (intro exI [of _ 0]) simp
    qed
  next
    case (Inr x)
    then have "changes ask k (acct s) (acct (snd (one k s)))" using step by simp
    note new = changed [OF this]
    have "each ks (snd (one k s)) = (r, s')" using each_goes_on [OF Inr] Cons.prems(1) by simp
    from Cons.IH [OF this new(1)] obtain n where "n \<le> length ks" "is_ok r \<longrightarrow> n = length ks" "named (acct s') = W"
      "account_view (acct s') = carried_out ask (take n ks) (account_view (acct (snd (one k s))))"
      by blast
    with new(2) [of n] show ?thesis by (intro exI [of _ "Suc n"]) (simp del: take_Suc_Cons)
  qed
qed

end

interpretation updating: one_by_one "\<lambda>ids. updateEach C token ids u" "\<lambda>k. cl_UpdateEmail C token k u" "''update email''"
  for C :: "'s client" and token u
  by unfold_locales simp_all

interpretation deleting: one_by_one "Delete C token" "cl_DeleteEmail C token" "''delete email''"
  for C :: "'s client" and token
  by unfold_locales simp_all

interpretation discarding: one_by_one "DiscardDrafts C token" "cl_DiscardDraft C token" "''discard draft''"
  for C :: "'s client" and token
  by unfold_locales simp_all

section \<open>What the client asks for\<close>

fun request_ids :: "client_request \<Rightarrow> string list" where
  "request_ids (Seen ids on) = ids"
| "request_ids (Flagged ids on) = ids"
| "request_ids (MoveTo ids from_box to_box) = ids"
| "request_ids (CopyTo ids mbox) = ids"
| "request_ids (RemoveFrom ids mbox) = ids"
| "request_ids (Append mbox literal flags date) = []"
| "request_ids (Fetch ident) = []"

text \<open>
  What a request asks of one email, the types of the folders being those learnt from the sync: removed
  from the trash or the drafts an email is gone, from any other folder it goes to the trash.
\<close>

fun asked :: "(string \<Rightarrow> Mailbox option) \<Rightarrow> (Mailbox \<Rightarrow> string set) \<Rightarrow> client_request \<Rightarrow> shown_as \<Rightarrow> shown_as option" where
  "asked kind W (Seen ids on) x = Some (fst x, set_flag FlagSeen on (snd x))"
| "asked kind W (Flagged ids on) x = Some (fst x, set_flag FlagFlagged on (snd x))"
| "asked kind W (MoveTo ids from_box to_box) x = Some ({to_box}, snd x)"
| "asked kind W (CopyTo ids mbox) x = Some ({mbox}, snd x)"
| "asked kind W (RemoveFrom ids mbox) x =
     (if kind mbox \<in> {Some MailboxDrafts, Some MailboxTrash} then None else Some (W MailboxTrash, snd x))"
| "asked kind W (Append mbox literal flags date) x = Some x"
| "asked kind W (Fetch ident) x = Some x"

fun is_change :: "client_request \<Rightarrow> bool" where
  "is_change (Append mbox literal flags date) = False"
| "is_change (Fetch ident) = False"
| "is_change request = True"

text \<open>Whether the connector answered without an error.\<close>

fun granted :: "'s mail_service \<Rightarrow> client_request \<Rightarrow> 's connector \<Rightarrow> bool" where
  "granted MS (Seen ids on) c = is_ok (fst (MarkMessagesSeen MS ids on c))"
| "granted MS (Flagged ids on) c = is_ok (fst (MarkMessagesFlagged MS ids on c))"
| "granted MS (MoveTo ids from_box to_box) c = (snd (fst (MoveMessages MS ids from_box to_box c)) = None)"
| "granted MS (CopyTo ids mbox) c = is_ok (fst (AddMessagesToMailbox MS ids mbox c))"
| "granted MS (RemoveFrom ids mbox) c = is_ok (fst (RemoveMessagesFromMailbox MS ids mbox c))"
| "granted MS (Append mbox literal flags date) c = is_ok (fst (CreateMessage MS mbox literal flags date c))"
| "granted MS (Fetch ident) c = is_ok (fst (GetMessageLiteral MS ident c))"

lemma repeatable_updated: "repeatable (Some \<circ> updated W u)"
  by (auto simp: repeatable_def updated_def set_flag_def split: option.split)

lemma repeatable_gone: "repeatable (\<lambda>x. None)"
  by (simp add: repeatable_def)

definition brought :: "(shown_as \<Rightarrow> shown_as option) \<Rightarrow> string list \<Rightarrow> bool \<Rightarrow> account \<Rightarrow> account \<Rightarrow> bool" where
  "brought ask ids ok A A' \<longleftrightarrow> (\<exists>n \<le> length ids. (ok \<longrightarrow> n = length ids) \<and>
     account_view A' = carried_out ask (take n ids) (account_view A))"

lemma brought_nothing: "brought ask ids False A A"
  unfolding brought_def by (intro exI [of _ 0]) simp

text \<open>The three loops over a client that keeps an account.\<close>

lemma loops_brought:
  assumes "keeps_account C acct page"
  shows "brought (Some \<circ> updated (named (acct s)) u) ids (is_ok (fst (updateEach C token ids u s)))
      (acct s) (acct (snd (updateEach C token ids u s)))"
    and "brought (\<lambda>x. None) ids (is_ok (fst (Delete C token ids s))) (acct s) (acct (snd (Delete C token ids s)))"
    and "brought (\<lambda>x. None) ids (is_ok (fst (DiscardDrafts C token ids s))) (acct s) (acct (snd (DiscardDrafts C token ids s)))"
proof -
  have W: "named (acct s) = named (acct s)" ..
  have up: "attempted (Some \<circ> updated (named (acct s)) u) k (fst (cl_UpdateEmail C token k u t)) (acct t)
      (acct (snd (cl_UpdateEmail C token k u t)))" if "named (acct t) = named (acct s)" for k t
    using assms that unfolding keeps_account_def by metis
  have del: "attempted (\<lambda>x. None) k (fst (cl_DeleteEmail C token k t)) (acct t) (acct (snd (cl_DeleteEmail C token k t)))"
    and dis: "attempted (\<lambda>x. None) k (fst (cl_DiscardDraft C token k t)) (acct t) (acct (snd (cl_DiscardDraft C token k t)))" for k t
    using assms unfolding keeps_account_def by blast+
  show "brought (Some \<circ> updated (named (acct s)) u) ids (is_ok (fst (updateEach C token ids u s)))
      (acct s) (acct (snd (updateEach C token ids u s)))"
    using updating.carries_out [of acct "named (acct s)", OF up repeatable_updated prod.collapse [symmetric] W]
    unfolding brought_def by blast
  show "brought (\<lambda>x. None) ids (is_ok (fst (Delete C token ids s))) (acct s) (acct (snd (Delete C token ids s)))"
    using deleting.carries_out [of acct "named (acct s)", OF del repeatable_gone prod.collapse [symmetric] W]
    unfolding brought_def by blast
  show "brought (\<lambda>x. None) ids (is_ok (fst (DiscardDrafts C token ids s))) (acct s) (acct (snd (DiscardDrafts C token ids s)))"
    using discarding.carries_out [of acct "named (acct s)", OF dis repeatable_gone prod.collapse [symmetric] W]
    unfolding brought_def by blast
qed

text \<open>The same through the service and the connector.\<close>

lemma on_api_parts [simp]:
  "fst (on_api f s) = fst (f (sv_api s))" "sv_api (snd (on_api f s)) = snd (f (sv_api s))"
  by (simp_all add: on_api_def split: prod.split)

lemma with_service_parts [simp]:
  "fst (with_service f c) = fst (f (cs_service c))" "cs_service (snd (with_service f c)) = snd (f (cs_service c))"
  by (simp_all add: with_service_def split: prod.split)

lemma account_service_changes [simp]:
  "ms_MarkRead (account_service V) = svc_MarkRead V" "ms_MarkFlagged (account_service V) = svc_MarkFlagged V"
  "ms_Move (account_service V) = svc_Move V" "ms_Delete (account_service V) = svc_Delete V"
  "ms_DiscardDrafts (account_service V) = svc_DiscardDrafts V"
  by (simp_all add: account_service_def)

lemma updated_simps:
  "updated W (no_update\<lparr>up_IsRead := Some on\<rparr>) x = (fst x, set_flag FlagSeen on (snd x))"
  "updated W (no_update\<lparr>up_IsFlagged := Some on\<rparr>) x = (fst x, set_flag FlagFlagged on (snd x))"
  "updated W (no_update\<lparr>up_Mailbox := Some kind\<rparr>) x = (W kind, snd x)"
  by (simp_all add: updated_def no_update_def)

lemma Move_brought:
  assumes "keeps_account C acct page"
  shows "brought (\<lambda>x. Some (named (acct s) kind, snd x)) ids (is_ok (fst (Move C token ids kind s)))
    (acct s) (acct (snd (Move C token ids kind s)))"
proof (cases "updateMailbox kind")
  case (Inl e)
  then show ?thesis using brought_nothing by (simp add: Move_def)
next
  case (Inr destination)
  then have "destination = kind" by (simp add: updateMailbox_def split: if_splits)
  moreover have "Some \<circ> updated (named (acct s)) (no_update\<lparr>up_Mailbox := Some kind\<rparr>) = (\<lambda>x. Some (named (acct s) kind, snd x))"
    by (simp add: fun_eq_iff updated_simps)
  ultimately show ?thesis
    using loops_brought(1) [OF assms, of s "no_update\<lparr>up_Mailbox := Some kind\<rparr>"] Inr by (simp add: Move_def)
qed

lemma mailboxTypeOf_cases:
  "mailboxTypeOf c b = (case map_of (cs_mailboxTypes c) b of None \<Rightarrow> Inl (ErrNew ''unknown mailbox'') | Some kind \<Rightarrow> Inr kind)"
  by (simp add: mailboxTypeOf_def)

lemma moved_brought:
  fixes c :: "'s service_state connector"
  assumes "keeps_account (mv_client V) acct page" and "named (acct (sv_api (cs_service c))) kind = {b}"
  shows "brought (\<lambda>x. Some ({b}, snd x)) ids (is_ok (fst (svc_Move V ids kind (cs_service c))))
    (acct (sv_api (cs_service c))) (acct (sv_api (snd (svc_Move V ids kind (cs_service c)))))"
  using Move_brought [OF assms(1), of "sv_api (cs_service c)" kind ids] assms(2) by (simp add: svc_Move_def)

lemma act_brought:
  fixes c :: "'s service_state connector"
  assumes C: "keeps_account (mv_client V) acct page" and "is_change q"
    and agree: "\<And>b kind. map_of (cs_mailboxTypes c) b = Some kind \<Longrightarrow> named (acct (sv_api (cs_service c))) kind = {b}"
  shows "brought (asked (map_of (cs_mailboxTypes c)) (named (acct (sv_api (cs_service c)))) q) (request_ids q)
    (granted (account_service V) q c) (acct (sv_api (cs_service c)))
    (acct (sv_api (cs_service (act (account_service V) q c))))"
proof -
  let ?s = "sv_api (cs_service c)" and ?t = "svc_token (cs_service c)"
  note move = moved_brought [OF C agree]
  show ?thesis
  proof (cases q)
    case (Seen ids on)
    have "asked (map_of (cs_mailboxTypes c)) (named (acct ?s)) q = Some \<circ> updated (named (acct ?s)) (no_update\<lparr>up_IsRead := Some on\<rparr>)"
      by (simp add: Seen fun_eq_iff updated_simps)
    with loops_brought(1) [OF C, of ?s "no_update\<lparr>up_IsRead := Some on\<rparr>" ids ?t] show ?thesis
      by (simp add: Seen MarkMessagesSeen_def svc_MarkRead_def MarkRead_def)
  next
    case (Flagged ids on)
    have "asked (map_of (cs_mailboxTypes c)) (named (acct ?s)) q = Some \<circ> updated (named (acct ?s)) (no_update\<lparr>up_IsFlagged := Some on\<rparr>)"
      by (simp add: Flagged fun_eq_iff updated_simps)
    with loops_brought(1) [OF C, of ?s "no_update\<lparr>up_IsFlagged := Some on\<rparr>" ids ?t] show ?thesis
      by (simp add: Flagged MarkMessagesFlagged_def svc_MarkFlagged_def MarkFlagged_def)
  next
    case (MoveTo ids from_box b)
    have q: "asked (map_of (cs_mailboxTypes c)) (named (acct ?s)) q = (\<lambda>x. Some ({b}, snd x))" by (simp add: MoveTo fun_eq_iff)
    show ?thesis
    proof (cases "map_of (cs_mailboxTypes c) b")
      case None
      then show ?thesis using brought_nothing by (simp add: MoveTo MoveMessages_def mailboxTypeOf_cases)
    next
      case (Some kind)
      obtain r c' where w: "with_service (svc_Move V ids kind) c = (r, c')" by fastforce
      then have "fst (svc_Move V ids kind (cs_service c)) = r" "snd (svc_Move V ids kind (cs_service c)) = cs_service c'"
        using with_service_parts [of "svc_Move V ids kind" c] by simp_all
      with move [OF Some, of ids] q w Some show ?thesis
        by (cases r) (simp_all add: MoveTo MoveMessages_def mailboxTypeOf_cases)
    qed
  next
    case (CopyTo ids b)
    have q: "asked (map_of (cs_mailboxTypes c)) (named (acct ?s)) q = (\<lambda>x. Some ({b}, snd x))" by (simp add: CopyTo fun_eq_iff)
    show ?thesis
    proof (cases "map_of (cs_mailboxTypes c) b")
      case None
      then show ?thesis using brought_nothing by (simp add: CopyTo AddMessagesToMailbox_def mailboxTypeOf_cases)
    next
      case (Some kind)
      with move [OF Some, of ids] q show ?thesis by (simp add: CopyTo AddMessagesToMailbox_def mailboxTypeOf_cases)
    qed
  next
    case (RemoveFrom ids b)
    show ?thesis
    proof (cases "map_of (cs_mailboxTypes c) b")
      case None
      then show ?thesis using brought_nothing by (simp add: RemoveFrom RemoveMessagesFromMailbox_def mailboxTypeOf_cases)
    next
      case (Some kind)
      consider "kind = MailboxDrafts" | "kind \<noteq> MailboxDrafts" "kind = MailboxTrash" | "kind \<noteq> MailboxDrafts" "kind \<noteq> MailboxTrash"
        by blast
      then show ?thesis
      proof cases
        case 1
        then have "asked (map_of (cs_mailboxTypes c)) (named (acct ?s)) q = (\<lambda>x. None)" by (simp add: RemoveFrom Some fun_eq_iff)
        with 1 Some loops_brought(3) [OF C, of ids ?t ?s] show ?thesis
          by (simp add: RemoveFrom RemoveMessagesFromMailbox_def mailboxTypeOf_cases svc_DiscardDrafts_def)
      next
        case 2
        then have "asked (map_of (cs_mailboxTypes c)) (named (acct ?s)) q = (\<lambda>x. None)" by (simp add: RemoveFrom Some fun_eq_iff)
        with 2 Some loops_brought(2) [OF C, of ids ?t ?s] show ?thesis
          by (simp add: RemoveFrom RemoveMessagesFromMailbox_def mailboxTypeOf_cases svc_Delete_def)
      next
        case 3
        then have "asked (map_of (cs_mailboxTypes c)) (named (acct ?s)) q = (\<lambda>x. Some (named (acct ?s) MailboxTrash, snd x))"
          by (simp add: RemoveFrom Some fun_eq_iff)
        with 3 Some Move_brought [OF C, of ?s MailboxTrash ids ?t] show ?thesis
          by (simp add: RemoveFrom RemoveMessagesFromMailbox_def mailboxTypeOf_cases svc_Move_def)
      qed
    qed
  next
    case (Append mbox literal flags date)
    with assms(2) show ?thesis by simp
  next
    case (Fetch ident)
    with assms(2) show ?thesis by simp
  qed
qed

text \<open>
  C13: What the client did is what it sees. A mail client marks messages read or flagged, moves or
  copies them, or removes them from a folder; then a sync follows. The connector runs over the mail
  service, the service over the commands and the commands over a client that keeps the account. Gluon is then
  told of the account with the request carried out on a first part of the messages it names, on all of
  them when the connector granted it, and of nothing else: an email that was removed is in the trash, or gone
  when it was in the trash or a draft; a copied one is in the new folder only. (A folder the connector
  knows the type of is to be the only one of that type.)
\<close>

theorem client_change_settles:
  fixes c :: "'s service_state connector"
  assumes "lived E c" and "ce_parse E = (\<lambda>_. None)" and "keeps_account (mv_client V) acct page" and "is_change q"
    and "\<And>b kind. map_of (cs_mailboxTypes c) b = Some kind \<Longrightarrow> named (acct (sv_api (cs_service c))) kind = {b}"
    and "Sync E (account_service V) schedules requested (act (account_service V) q c) = (r, evs, c')"
  shows "r = Inr () \<and> (\<exists>n \<le> length (request_ids q). (granted (account_service V) q c \<longrightarrow> n = length (request_ids q)) \<and>
    told_by (cs_updates c') = carried_out
      (asked (map_of (cs_mailboxTypes c)) (named (acct (sv_api (cs_service c)))) q) (take n (request_ids q))
      (account_view (acct (sv_api (cs_service c)))))"
proof -
  let ?c = "act (account_service V) q c"
  let ?A = "acct (sv_api (cs_service ?c))"
  have "hosts (\<lambda>t. acct t = ?A) (mv_client V) ?A page" "coherent ?A"
    using assms(3) unfolding keeps_account_def by blast+
  then have "r = Inr () \<and> told_by (cs_updates c') = account_view ?A"
    using hosted_Sync [OF lived_asked [OF assms(1)] assms(2) _ _ _ assms(6)] by blast
  moreover note act_brought [OF assms(3,4,5)]
  ultimately show ?thesis unfolding brought_def by simp
qed

section \<open>Witness\<close>

text \<open>An account of one email, in the inbox or the trash, read or not, flagged or not; or gone.\<close>

type_synonym lone = "(bool \<times> bool \<times> bool) option"

definition lone_summary :: "bool \<times> bool \<times> bool \<Rightarrow> EmailSummaryResponseDto" where
  "lone_summary x = (case x of (trashed, is_read, flagged) \<Rightarrow> zero_summary\<lparr>su_Id := ''a'',
     su_MailboxIds := [if trashed then ''box-trash'' else ''box-inbox''], su_IsRead := is_read, su_IsFlagged := flagged\<rparr>)"

definition lone_inbox :: "lone \<Rightarrow> EmailSummaryResponseDto list" where
  "lone_inbox s = (case s of Some (False, x) \<Rightarrow> [lone_summary (False, x)] | _ \<Rightarrow> [])"

definition lone_trash :: "lone \<Rightarrow> EmailSummaryResponseDto list" where
  "lone_trash s = (case s of Some (True, x) \<Rightarrow> [lone_summary (True, x)] | _ \<Rightarrow> [])"

definition lone_account :: "lone \<Rightarrow> account" where
  "lone_account s = [(toy_folder ''inbox'', lone_inbox s), (toy_folder ''trash'', lone_trash s)]"

definition lone_update :: "UpdateEmailRequestDto \<Rightarrow> lone \<Rightarrow> lone" where
  "lone_update u = map_option (\<lambda>(trashed, is_read, flagged).
     (case up_Mailbox u of None \<Rightarrow> trashed | Some kind \<Rightarrow> kind = ''trash'',
      case up_IsRead u of None \<Rightarrow> is_read | Some on \<Rightarrow> on,
      case up_IsFlagged u of None \<Rightarrow> flagged | Some on \<Rightarrow> on))"

definition lone_client :: "lone client" where
  "lone_client =
     \<lparr>cl_GetUserFolder = (\<lambda>token opts s. (Inr \<lparr>li_Emails = drop (nat (lo_Position opts))
          (if lo_Mailbox opts = ''trash'' then lone_trash s else lone_inbox s),
        li_HasMoreMails = False, li_NextAnchor = None, li_Total = 0\<rparr>, s)),
      cl_GetMailboxes = (\<lambda>token s. (Inr (map fst (lone_account s)), s)),
      cl_GetThread = (\<lambda>token i s. (Inl (ErrExt ''none''), s)),
      cl_UpdateEmail = (\<lambda>token i u s.
        if up_Mailbox u \<notin> {None, Some ''inbox'', Some ''trash''} then (Inl (ErrExt ''no such folder''), s)
        else (Inr (), if i = ''a'' then lone_update u s else s)),
      cl_DeleteEmail = (\<lambda>token i s. (Inr (), if i = ''a'' then None else s)),
      cl_LookupRecipientKeys = (\<lambda>token a s. (Inl (ErrExt ''none''), s)),
      cl_SendEmail = (\<lambda>token e s. (Inl (ErrExt ''none''), s)),
      cl_ReplyEmail = (\<lambda>token i e s. (Inl (ErrExt ''none''), s)),
      cl_SaveDraft = (\<lambda>token d s. (Inl (ErrExt ''none''), s)),
      cl_DiscardDraft = (\<lambda>token i s. (Inl (ErrExt ''not a draft''), s)),
      cl_DownloadAttachment = (\<lambda>token i b s. (Inl (ErrExt ''none''), s)),
      cl_UploadAttachment = (\<lambda>token n t b s. (Inl (ErrExt ''none''), s))\<rparr>"

definition lone_view :: "lone \<Rightarrow> told" where
  "lone_view s = (case s of None \<Rightarrow> Map.empty | Some (trashed, is_read, flagged) \<Rightarrow>
     [''a'' \<mapsto> ({if trashed then ''box-trash'' else ''box-inbox''},
       (if is_read then {FlagSeen} else {}) \<union> (if flagged then {FlagFlagged} else {}))])"

lemma lone_cases: obtains "s = None" | r f where "s = Some (False, r, f)" | r f where "s = Some (True, r, f)"
  by (metis (full_types) option.exhaust prod_cases3)

lemma lone_account_simps [simp]:
  "lone_account None = [(toy_folder ''inbox'', []), (toy_folder ''trash'', [])]"
  "lone_account (Some (False, x)) = [(toy_folder ''inbox'', [lone_summary (False, x)]), (toy_folder ''trash'', [])]"
  "lone_account (Some (True, x)) = [(toy_folder ''inbox'', []), (toy_folder ''trash'', [lone_summary (True, x)])]"
  by (simp_all add: lone_account_def lone_inbox_def lone_trash_def)

lemma lone_summary_simps [simp]:
  "su_Id (lone_summary x) = ''a''"
  "su_MailboxIds (lone_summary (trashed, r, f)) = [if trashed then ''box-trash'' else ''box-inbox'']"
  "messageFlags (lone_summary (trashed, r, f)) = (if r then {FlagSeen} else {}) \<union> (if f then {FlagFlagged} else {})"
  by (auto simp: lone_summary_def messageFlags_def zero_summary_def split: prod.split)

lemma toy_folder_simps [simp]: "mb_Id (toy_folder kind) = ''box-'' @ kind" "mailboxType (toy_folder kind) = kind"
  by (simp_all add: toy_folder_def mailboxType_def)

lemma lone_account_view: "account_view (lone_account s) = lone_view s"
  by (cases s rule: lone_cases) (auto simp: account_view_def emails_def lone_view_def fun_eq_iff)

lemma lone_named: "named (lone_account s) =
    (\<lambda>kind. if kind = ''inbox'' then {''box-inbox''} else if kind = ''trash'' then {''box-trash''} else {})"
  by (auto simp: lone_account_def fun_eq_iff)

lemma lone_coherent: "coherent (lone_account s)"
  by (cases s rule: lone_cases) (auto simp: coherent_def emails_def)

lemma flags_apart: "FlagSeen \<noteq> FlagFlagged"
  by (simp add: FlagSeen_def FlagFlagged_def bs_def)

lemma lone_updated:
  assumes "up_Mailbox u \<in> {None, Some ''inbox'', Some ''trash''}"
  shows "lone_view (lone_update u s) = (lone_view s)(''a'' := Option.bind (lone_view s ''a'') (Some \<circ> updated (named (lone_account t)) u))"
proof (cases s)
  case (Some x)
  obtain trashed r f where x: "x = (trashed, r, f)" by (cases x)
  have "updated (named (lone_account t)) u (snd (''a'', the (lone_view s ''a''))) = the (lone_view (lone_update u s) ''a'')"
    using assms flags_apart
    by (auto simp: Some x lone_view_def lone_update_def updated_def lone_named set_flag_def split: option.split)
  then show ?thesis by (simp add: Some x lone_view_def lone_update_def fun_eq_iff)
qed (simp add: lone_view_def lone_update_def)

lemma lone_hosts: "hosts (\<lambda>t. lone_account t = lone_account s) lone_client (lone_account s) 1"
proof -
  have same: "lone_inbox t = lone_inbox s" "lone_trash t = lone_trash s" if "lone_account t = lone_account s" for t
    using that by (simp_all add: lone_account_def)
  have small: "length (lone_inbox s) \<le> 1" "length (lone_trash s) \<le> 1"
    by (cases s rule: lone_cases; simp add: lone_inbox_def lone_trash_def)+
  then have part: "take 1 (drop n (lone_inbox s)) = drop n (lone_inbox s)" "take 1 (drop n (lone_trash s)) = drop n (lone_trash s)"
      "\<not> Suc n < length (lone_inbox s)" "\<not> Suc n < length (lone_trash s)" for n
    by simp_all
  have page: "\<exists>res t'. cl_GetUserFolder lone_client token opts t = (Inr res, t') \<and> lone_account t' = lone_account s \<and>
      li_Emails res = take 1 (drop (nat (lo_Position opts)) ms) \<and> li_HasMoreMails res = (nat (lo_Position opts) + 1 < length ms)"
    if "lone_account t = lone_account s" "ms = (if lo_Mailbox opts = ''trash'' then lone_trash s else lone_inbox s)"
    for token opts t ms
    using that(1) same [OF that(1)] part [of "nat (lo_Position opts)"] by (simp add: lone_client_def that(2))
  have "serves_mailbox (\<lambda>t. lone_account t = lone_account s) (\<lambda>kind. kind = ''inbox'') lone_client (lone_inbox s) 1"
    unfolding serves_mailbox_def by (intro allI impI page) simp_all
  moreover have "serves_mailbox (\<lambda>t. lone_account t = lone_account s) (\<lambda>kind. kind = ''trash'') lone_client (lone_trash s) 1"
    unfolding serves_mailbox_def by (intro allI impI page) simp_all
  moreover have "cl_GetMailboxes lone_client token t = (Inr (map fst (lone_account s)), t)" for token t
    by (simp add: lone_client_def lone_account_def)
  ultimately show ?thesis using small by (simp add: hosts_def lone_account_def)
qed

lemma lone_keeps: "keeps_account lone_client lone_account 1"
proof -
  have none: "lone_view s k = None" if "k \<noteq> ''a''" for s k
    using that by (auto simp: lone_view_def split: option.split)
  have up: "attempted (Some \<circ> updated (named (lone_account s)) u) k (fst (cl_UpdateEmail lone_client token k u s))
      (lone_account s) (lone_account (snd (cl_UpdateEmail lone_client token k u s)))" for token k u s
  proof (cases "up_Mailbox u \<in> {None, Some ''inbox'', Some ''trash''}")
    case True
    then have "changes (Some \<circ> updated (named (lone_account s)) u) k (lone_account s) (lone_account (if k = ''a'' then lone_update u s else s))"
      using lone_updated [OF True, of s s] none [of k s]
      by (simp add: changes_def lone_account_view lone_named fun_upd_idem)
    with True show ?thesis by (auto simp: attempted_def lone_client_def)
  next
    case False
    then show ?thesis by (simp add: attempted_def lone_client_def)
  qed
  have "changes (\<lambda>x. None) k (lone_account s) (lone_account (if k = ''a'' then None else s))" for k s
    using none [of k s] by (auto simp: changes_def lone_account_view lone_named fun_upd_idem lone_view_def fun_eq_iff split: option.split)
  then have del: "attempted (\<lambda>x. None) k (fst (cl_DeleteEmail lone_client token k s))
      (lone_account s) (lone_account (snd (cl_DeleteEmail lone_client token k s)))" for token k s
    by (simp add: attempted_def lone_client_def)
  have "attempted (\<lambda>x. None) k (fst (cl_DiscardDraft lone_client token k s))
      (lone_account s) (lone_account (snd (cl_DiscardDraft lone_client token k s)))" for token k s
    by (simp add: attempted_def lone_client_def)
  then show ?thesis
    unfolding keeps_account_def using lone_hosts up del lone_coherent by blast
qed

text \<open>A sync of the empty folders, from which the connector learns their types.\<close>

definition empty_folders :: "lone service_state mail_service" where
  "empty_folders = (account_service (toy_mail lone_client))\<lparr>
     ms_ListMailboxes := (\<lambda>s. (Inr [toy_folder ''inbox'', toy_folder ''trash''], s)),
     ms_ListAllEmails := (\<lambda>opts s. (Inr [], s))\<rparr>"

definition acquainted :: "lone service_state connector" where
  "acquainted = snd (snd (Sync toy_env empty_folders (\<lambda>k. []) False (connector_New (svc_New (Some (False, True, False)) toy_account))))"

lemma acquainted_types:
  "map_of (cs_mailboxTypes acquainted) = [''box-inbox'' \<mapsto> ''inbox'', ''box-trash'' \<mapsto> ''trash'']"
  "sv_api (cs_service acquainted) = Some (False, True, False)" "lived toy_env acquainted"
proof -
  let ?c = "connector_New (svc_New (Some (False, True, False)) toy_account)"
  show "map_of (cs_mailboxTypes acquainted) = [''box-inbox'' \<mapsto> ''inbox'', ''box-trash'' \<mapsto> ''trash'']"
    "sv_api (cs_service acquainted) = Some (False, True, False)"
    by (auto simp: acquainted_def Sync_def with_service_def connector_New_def empty_folders_def scanMailbox_def Let_def
        rememberMailboxType_def knownMailbox_def downloadNewMessages_def rememberMessages_def forgetDeleted_def
        missingMessages_def forgetMessages_def forget_threads_def put_def drop_key_def svc_New_def account_service_def ForgetThreads_def fun_eq_iff)
  obtain r evs c' where sync: "Sync toy_env empty_folders (\<lambda>k. []) False ?c = (r, evs, c')" by (metis prod.exhaust)
  have "news_of empty_folders ?c = [(toy_folder ''inbox'', []), (toy_folder ''trash'', [])]"
    by (simp add: news_of_def empty_folders_def)
  then have "whole_news (knownMessage ?c) (news_of empty_folders ?c)" by (simp add: whole_news_def emails_def)
  from lived_synced [OF lived_new this sync] show "lived toy_env acquainted" by (simp add: acquainted_def sync)
qed

theorem client_change_settles_witness:
  "granted (account_service (toy_mail lone_client)) (RemoveFrom [''a''] ''box-inbox'') acquainted \<and>
   told_by (cs_updates (snd (snd (Sync toy_env (account_service (toy_mail lone_client)) (\<lambda>k. []) False
     (act (account_service (toy_mail lone_client)) (RemoveFrom [''a''] ''box-inbox'') acquainted))))) =
     [''a'' \<mapsto> ({''box-trash''}, {FlagSeen})]"
proof -
  let ?V = "toy_mail lone_client" and ?q = "RemoveFrom [''a''] ''box-inbox''"
  have env: "ce_parse toy_env = (\<lambda>_. None)" by (simp add: toy_env_def)
  have C: "keeps_account (mv_client ?V) lone_account 1" using lone_keeps by (simp add: toy_mail_def)
  have change: "is_change ?q" by simp
  have types: "named (lone_account (sv_api (cs_service acquainted))) kind = {b}"
    if "map_of (cs_mailboxTypes acquainted) b = Some kind" for b kind
    using that by (auto simp: acquainted_types lone_named split: if_splits)
  obtain r evs c' where sync: "Sync toy_env (account_service ?V) (\<lambda>k. []) False (act (account_service ?V) ?q acquainted) = (r, evs, c')"
    by (metis prod.exhaust)
  have kind: "mailboxTypeOf acquainted ''box-inbox'' = Inr ''inbox''" by (simp add: mailboxTypeOf_def acquainted_types)
  have "updateMailbox ''trash'' = Inr ''trash''" by (simp add: updateMailbox_def mailbox_defs)
  then have granted: "granted (account_service ?V) ?q acquainted"
    by (simp add: RemoveMessagesFromMailbox_def kind svc_Move_def Move_def mailbox_defs toy_mail_def lone_client_def no_update_def)
  from client_change_settles [OF acquainted_types(3) env C change types sync] granted
  have "told_by (cs_updates c') = carried_out (asked (map_of (cs_mailboxTypes acquainted))
      (named (lone_account (Some (False, True, False)))) ?q) [''a''] (lone_view (Some (False, True, False)))"
    by (auto simp: acquainted_types lone_account_view simp del: lone_account_simps)
  also have "\<dots> = [''a'' \<mapsto> ({''box-trash''}, {FlagSeen})]"
    by (auto simp: carried_out_def lone_view_def acquainted_types lone_named mailbox_defs fun_eq_iff)
  finally show ?thesis using granted sync by simp
qed

end
