(* ===== verification/Logger.thy ===== *)
theory Logger
  imports Prelude
begin

text \<open>
  \<open>internal/logger\<close>: a logger of one part of the program over Go's \<open>log\<close>, and the adapter that gives it to
  the SMTP library. What is written to the standard error is a list of lines; \<open>sprintf\<close> is \<open>fmt.Sprintf\<close>
  on arguments already rendered, \<open>stamp\<close> the date and time of the call.
\<close>

record Logger =
  lg_prefix :: string

definition logger_New :: "string \<Rightarrow> Logger" where
  "logger_New scope = \<lparr>lg_prefix = ''['' @ scope @ ''] ''\<rparr>"

text \<open>\<open>Printf\<close> of a \<open>log.Logger\<close> whose prefix stands before the message; a missing newline is added.\<close>

definition ended :: "string \<Rightarrow> string" where
  "ended line = (if line \<noteq> [] \<and> last line = CHR 0x0A then line else line @ [CHR 0x0A])"

definition log_Printf :: "(string \<Rightarrow> string list \<Rightarrow> string) \<Rightarrow> string \<Rightarrow> Logger \<Rightarrow> string \<Rightarrow> string list \<Rightarrow>
    string list \<Rightarrow> string list" where
  "log_Printf sprintf stamp lg format args out = out @ [stamp @ lg_prefix lg @ ended (sprintf format args)]"

definition logger_Info :: "(string \<Rightarrow> string list \<Rightarrow> string) \<Rightarrow> string \<Rightarrow> Logger \<Rightarrow> string \<Rightarrow> string list \<Rightarrow>
    string list \<Rightarrow> string list" where
  "logger_Info sprintf stamp lg format = log_Printf sprintf stamp lg (''INFO  '' @ format)"

definition logger_Warn :: "(string \<Rightarrow> string list \<Rightarrow> string) \<Rightarrow> string \<Rightarrow> Logger \<Rightarrow> string \<Rightarrow> string list \<Rightarrow>
    string list \<Rightarrow> string list" where
  "logger_Warn sprintf stamp lg format = log_Printf sprintf stamp lg (''WARN  '' @ format)"

definition logger_Error :: "(string \<Rightarrow> string list \<Rightarrow> string) \<Rightarrow> string \<Rightarrow> Logger \<Rightarrow> string \<Rightarrow> string list \<Rightarrow>
    string list \<Rightarrow> string list" where
  "logger_Error sprintf stamp lg format = log_Printf sprintf stamp lg (''ERROR '' @ format)"

text \<open>The logger as go-smtp wants it (\<open>smtpserver.go\<close>): everything is an error.\<close>

definition smtpLogger_Printf :: "(string \<Rightarrow> string list \<Rightarrow> string) \<Rightarrow> string \<Rightarrow> Logger \<Rightarrow> string \<Rightarrow> string list \<Rightarrow>
    string list \<Rightarrow> string list" where
  "smtpLogger_Printf = logger_Error"

definition smtpLogger_Println :: "(string \<Rightarrow> string list \<Rightarrow> string) \<Rightarrow> (string list \<Rightarrow> string) \<Rightarrow> string \<Rightarrow> Logger \<Rightarrow>
    string list \<Rightarrow> string list \<Rightarrow> string list" where
  "smtpLogger_Println sprintf sprintln stamp lg v = logger_Error sprintf stamp lg ''%s'' [sprintln v]"

text \<open>Every call writes one entry at the end, under the prefix of its part, and ends it.\<close>

lemma log_Printf_entry:
  "\<exists>text. log_Printf sprintf stamp lg format args out = out @ [stamp @ lg_prefix lg @ text @ [CHR 0x0A]]"
proof (cases "\<exists>text. sprintf format args = text @ [CHR 0x0A]")
  case True
  then show ?thesis by (auto simp: log_Printf_def ended_def)
next
  case False
  then have "ended (sprintf format args) = sprintf format args @ [CHR 0x0A]"
    unfolding ended_def using append_butlast_last_id [of "sprintf format args"] by metis
  then show ?thesis by (simp add: log_Printf_def)
qed

end
