(* ===== verification/GoOs.thy ===== *)
theory GoOs
  imports Stateful
begin

text \<open>
  What the program uses of Go's \<open>os\<close> and \<open>flag\<close> packages outside the store: reading and writing whole
  files, and the command line. A call to the operating system takes the head of a list of outcomes; an
  empty list means it goes through.
\<close>

section \<open>Files\<close>

datatype os_outcome = OsOk | OsFails err | OsWritesPart nat err

record os_state =
  os_files :: "string \<rightharpoonup> bytes"
  os_outcomes :: "os_outcome list"

definition os_next :: "os_state \<Rightarrow> os_outcome \<times> os_state" where
  "os_next s = (case os_outcomes s of [] \<Rightarrow> (OsOk, s) | x # xs \<Rightarrow> (x, s\<lparr>os_outcomes := xs\<rparr>))"

text \<open>A call that only succeeds or fails.\<close>

definition os_do :: "(os_state, unit) op" where
  "os_do s =
     (case os_next s of
       (OsOk, s) \<Rightarrow> (Inr (), s)
     | (OsFails e, s) \<Rightarrow> (Inl e, s)
     | (OsWritesPart n e, s) \<Rightarrow> (Inl e, s))"

definition ReadFile :: "string \<Rightarrow> (os_state, bytes) op" where
  "ReadFile path s =
     bind_st (os_do s) (\<lambda>_ s.
       ((case os_files s path of None \<Rightarrow> Inl (ErrSentinel OsErrNotExist) | Some content \<Rightarrow> Inr content), s))"

text \<open>The directory itself is not part of the state: only whether the call goes through.\<close>

definition MkdirAll :: "string \<Rightarrow> (os_state, unit) op" where
  "MkdirAll path s = os_do s"

text \<open>\<open>os.WriteFile\<close> truncates the file before it writes, so a failure can leave a part of the data.\<close>

definition WriteFile :: "string \<Rightarrow> bytes \<Rightarrow> (os_state, unit) op" where
  "WriteFile path data s =
     (case os_next s of
       (OsOk, s) \<Rightarrow> (Inr (), s\<lparr>os_files := (os_files s)(path \<mapsto> data)\<rparr>)
     | (OsFails e, s) \<Rightarrow> (Inl e, s)
     | (OsWritesPart n e, s) \<Rightarrow> (Inl e, s\<lparr>os_files := (os_files s)(path \<mapsto> take n data)\<rparr>))"

definition os_Remove :: "string \<Rightarrow> (os_state, unit) op" where
  "os_Remove path s =
     bind_st (os_do s) (\<lambda>_ s.
       if os_files s path = None then (Inl (ErrSentinel OsErrNotExist), s)
       else (Inr (), s\<lparr>os_files := (os_files s)(path := None)\<rparr>))"

lemma os_do_files [simp]: "os_files (snd (os_do s)) = os_files s"
  by (auto simp: os_do_def os_next_def split: list.splits os_outcome.splits prod.splits)

lemma ReadFile_files: "ReadFile path s = (r, s') \<Longrightarrow> os_files s' = os_files s"
  using os_do_files [of s]
  by (cases "os_do s") (auto simp: ReadFile_def split: sum.splits elim!: bind_st.elims)

lemma ReadFile_calm: "os_outcomes s = [] \<Longrightarrow>
    ReadFile path s = ((case os_files s path of None \<Rightarrow> Inl (ErrSentinel OsErrNotExist) | Some content \<Rightarrow> Inr content), s)"
  by (simp add: ReadFile_def os_do_def os_next_def)

lemma os_next_files: "os_next s = (x, s') \<Longrightarrow> os_files s' = os_files s"
  by (auto simp: os_next_def split: list.splits)

lemma WriteFile_Inr: "WriteFile path data s = (Inr u, s') \<Longrightarrow> os_files s' = (os_files s)(path \<mapsto> data)"
  by (auto simp: WriteFile_def dest!: os_next_files split: prod.splits os_outcome.splits)

section \<open>The command line\<close>

text \<open>
  \<open>flag.Parse\<close> for string and boolean flags. The value of a flag is the last one given. A command line
  it cannot parse ends the process: with status 0 when the help was asked for, with status 2 otherwise.
\<close>

datatype flag_kind = StringFlag | BoolFlag

datatype flag_stop = FlagHelp | FlagError string

definition parse_bool :: "string \<Rightarrow> bool option" where
  "parse_bool v =
     (if v \<in> {''1'', ''t'', ''T'', ''TRUE'', ''true'', ''True''} then Some True
      else if v \<in> {''0'', ''f'', ''F'', ''FALSE'', ''false'', ''False''} then Some False else None)"

text \<open>The name of a flag and, after an equals sign that is not its first byte, its value.\<close>

definition flag_split :: "string \<Rightarrow> string \<times> string option" where
  "flag_split name =
     (let key = takeWhile (\<lambda>c. c \<noteq> CHR ''='') (tl name)
      in (hd name # key, if CHR ''='' \<in> set (tl name) then Some (drop (length key + 2) name) else None))"

definition flag_name :: "string \<Rightarrow> string" where
  "flag_name arg = (if arg ! 1 = CHR ''-'' then drop 2 arg else drop 1 arg)"

fun parse_flags :: "(string \<rightharpoonup> flag_kind) \<Rightarrow> (string \<rightharpoonup> string) \<Rightarrow> string list \<Rightarrow>
    flag_stop + (string \<rightharpoonup> string) \<times> string list" where
  "parse_flags formal given [] = Inr (given, [])"
| "parse_flags formal given (arg # args) =
     (if length arg < 2 \<or> hd arg \<noteq> CHR ''-'' then Inr (given, arg # args)
      else if arg = ''--'' then Inr (given, args)
      else
        let name = flag_name arg
        in if name = [] \<or> hd name = CHR ''-'' \<or> hd name = CHR ''='' then Inl (FlagError ''bad flag syntax'')
           else
             (case flag_split name of (key, val) \<Rightarrow>
               (case formal key of
                 None \<Rightarrow>
                   Inl (if key = ''help'' \<or> key = ''h'' then FlagHelp else FlagError ''flag provided but not defined'')
               | Some BoolFlag \<Rightarrow>
                   (case val of
                     None \<Rightarrow> parse_flags formal (given(key \<mapsto> ''true'')) args
                   | Some v \<Rightarrow>
                       if parse_bool v = None then Inl (FlagError ''invalid boolean value'')
                       else parse_flags formal (given(key \<mapsto> v)) args)
               | Some StringFlag \<Rightarrow>
                   (case val of
                     Some v \<Rightarrow> parse_flags formal (given(key \<mapsto> v)) args
                   | None \<Rightarrow>
                       (case args of
                         [] \<Rightarrow> Inl (FlagError ''flag needs an argument'')
                       | v # args \<Rightarrow> parse_flags formal (given(key \<mapsto> v)) args)))))"

definition string_flag :: "(string \<rightharpoonup> string) \<Rightarrow> string \<Rightarrow> string \<Rightarrow> string" where
  "string_flag given name preset = (case given name of None \<Rightarrow> preset | Some v \<Rightarrow> v)"

definition bool_flag :: "(string \<rightharpoonup> string) \<Rightarrow> string \<Rightarrow> bool \<Rightarrow> bool" where
  "bool_flag given name preset =
     (case given name of None \<Rightarrow> preset | Some v \<Rightarrow> parse_bool v = Some True)"

text \<open>\<open>flag.Arg(0)\<close>: the first argument after the flags, empty when there is none.\<close>

definition first_arg :: "string list \<Rightarrow> string" where
  "first_arg rest = (case rest of [] \<Rightarrow> [] | a # as \<Rightarrow> a)"

end
