(* ===== verification/Development.thy ===== *)
theory Development
  imports Control GoOs Base64
begin

text \<open>
  \<open>internal/development\<close>: the stand-in for the parent process during development. It speaks the other
  end of the control channel: it hands one bridge its session, waits for the addresses of its servers,
  asks for resyncs and prints the progress of a sync. The session comes from the environment, with a
  mail password that is made once and kept in a file; and \<open>imapserver/development.go\<close>, the fixture
  mailbox. What is printed is the list of the lines printed, without their line ends.
\<close>

section \<open>The parent's end of the channel\<close>

text \<open>The message types are repeated in this package, since those of \<open>control\<close> are not exported.\<close>

definition dev_startSessionType :: string where "dev_startSessionType = ''start_session''"
definition dev_readyType :: string where "dev_readyType = ''ready''"
definition dev_errorType :: string where "dev_errorType = ''error''"
definition dev_resyncType :: string where "dev_resyncType = ''resync''"
definition dev_syncStartedType :: string where "dev_syncStartedType = ''sync_started''"
definition dev_syncProgressType :: string where "dev_syncProgressType = ''sync_progress''"
definition dev_syncFinishedType :: string where "dev_syncFinishedType = ''sync_finished''"

definition SendResync :: "transport \<Rightarrow> bool \<Rightarrow> conn \<Rightarrow> err option \<times> conn" where
  "SendResync T d c = WriteMessage T d (no_message\<lparr>m_Type := dev_resyncType\<rparr>) c"

text \<open>What one message prints: the cases of the switch, and nothing for any other message.\<close>

definition finished_line :: "SyncFinished \<Rightarrow> string" where
  "finished_line f =
     (if sf_Code f \<noteq> [] then
        ''Sync gave up after '' @ itoa (sf_Downloaded f) @ '' of '' @ itoa (sf_Total f) @ '' emails: '' @ sf_Code f
      else ''Sync finished: '' @ itoa (sf_Downloaded f) @ '' emails'')"

definition progress_lines :: "Message \<Rightarrow> string list" where
  "progress_lines message =
     (if m_Type message = dev_syncStartedType \<and> m_Started message \<noteq> None then
        [''Sync started: '' @ itoa (sn_Total (the (m_Started message))) @ '' emails to download'']
      else if m_Type message = dev_syncProgressType \<and> m_Progress message \<noteq> None then
        let p = the (m_Progress message)
        in [''  '' @ itoa (sg_Percent p) @ ''% ('' @ itoa (sg_Downloaded p) @ '' of '' @ itoa (sg_Total p) @ '' emails)'']
      else if m_Type message = dev_syncFinishedType \<and> m_Finished message \<noteq> None then
        [finished_line (the (m_Finished message))]
      else [])"

function ReportProgress :: "transport \<Rightarrow> bool \<Rightarrow> string list \<Rightarrow> conn \<Rightarrow> err \<times> string list \<times> conn" where
  "ReportProgress T d printed c =
     (case ReadMessage T d c of
       (Inl e, c) \<Rightarrow> (e, printed, c)
     | (Inr message, c) \<Rightarrow> ReportProgress T d (printed @ progress_lines message) c)"
  by pat_completeness auto
termination
  by (relation "measure (\<lambda>(T, d, printed, c). length (cn_in c))") (auto dest: ReadMessage_shrinks [OF sym])

declare ReportProgress.simps [simp del]

definition receiveReady :: "transport \<Rightarrow> bool \<Rightarrow> (conn, Ready) op" where
  "receiveReady T d c =
     (case ReadMessage T d c of
       (Inl e, c) \<Rightarrow> (Inl (ErrWrap ''read bridge reply'' e), c)
     | (Inr message, c) \<Rightarrow>
         if m_Type message = dev_errorType \<and> m_Error message \<noteq> None then
           (Inl (ErrNew (''bridge failed to start: '' @ cr_Code (the (m_Error message)))), c)
         else if m_Type message \<noteq> dev_readyType \<or> m_Ready message = None then
           (Inl (ErrNew ''expected a ready message from the bridge''), c)
         else (Inr (the (m_Ready message)), c))"

definition handshake :: "transport \<Rightarrow> bool \<Rightarrow> Session \<Rightarrow> (conn, Ready) op" where
  "handshake T d session c =
     (case WriteMessage T d (no_message\<lparr>m_Type := dev_startSessionType, m_Session := Some session\<rparr>) c of
       (Some e, c) \<Rightarrow> (Inl (ErrWrap ''send session'' e), c)
     | (None, c) \<Rightarrow> receiveReady T d c)"

text \<open>
  \<open>Serve\<close> of the parent: \<open>accepted\<close> is what the listener answers. The connection, when there was one, is
  returned open after a handshake and closed after a failed one.
\<close>

definition dev_Serve :: "transport \<Rightarrow> bool \<Rightarrow> err + conn \<Rightarrow> Session \<Rightarrow> (err + Ready) \<times> conn option" where
  "dev_Serve T d accepted session =
     (case accepted of
       Inl e \<Rightarrow> (Inl (ErrWrap ''accept bridge connection'' e), None)
     | Inr connection \<Rightarrow>
         (case handshake T d session connection of
           (Inl e, connection) \<Rightarrow> (Inl e, Some (client_Close connection))
         | (Inr ready, connection) \<Rightarrow> (Inr ready, Some connection)))"

section \<open>The session\<close>

definition passwordBytes :: nat where "passwordBytes = 32"
definition passwordFile :: string where "passwordFile = ''dev-mail-password''"

text \<open>\<open>base64.RawURLEncoding\<close>: the alphabet that is safe in a URL, without padding.\<close>

definition url_char :: "char \<Rightarrow> char" where
  "url_char c = (if c = CHR ''+'' then CHR ''-'' else if c = CHR ''/'' then CHR ''_'' else c)"

definition b64_raw_url :: "bytes \<Rightarrow> string" where
  "b64_raw_url bs = map url_char (filter (\<lambda>c. c \<noteq> CHR ''='') (b64_encode bs))"

definition randomPassword :: "(nat \<Rightarrow> err + bytes) \<Rightarrow> err + string" where
  "randomPassword rd =
     bind_err (wrap_err ''generate development password'' (rd passwordBytes)) (\<lambda>value. Inr (b64_raw_url value))"

text \<open>What a development run depends on: the environment, the codec, the random source and the paths.\<close>

record dev_env =
  dv_Getenv :: "string \<Rightarrow> string"
  dv_MarshalBackend :: "BackendSession \<Rightarrow> err + bytes"
  dv_rand :: "nat \<Rightarrow> err + bytes"
  dv_join :: "string \<Rightarrow> string \<Rightarrow> string"

text \<open>The second half of \<open>ensurePassword\<close>: a new password, kept for the next time.\<close>

definition keep_password :: "dev_env \<Rightarrow> string \<Rightarrow> (os_state, string) op" where
  "keep_password V stateDir s =
     (case randomPassword (dv_rand V) of
       Inl e \<Rightarrow> (Inl e, s)
     | Inr generated \<Rightarrow>
         bind_st (wrap_st ''create state directory'' (MkdirAll stateDir s)) (\<lambda>_ s.
         bind_st (wrap_st ''store development password''
           (WriteFile (dv_join V stateDir passwordFile) (str_bytes generated) s)) (\<lambda>_ s.
         (Inr generated, s))))"

definition ensurePassword :: "dev_env \<Rightarrow> string \<Rightarrow> (os_state, string) op" where
  "ensurePassword V stateDir s =
     (case ReadFile (dv_join V stateDir passwordFile) s of
       (Inr stored, s) \<Rightarrow> if length stored > 0 then (Inr (bytes_str stored), s) else keep_password V stateDir s
     | (Inl e, s) \<Rightarrow>
         if \<not> errors_is e OsErrNotExist then (Inl (ErrWrap ''read development password'' e), s)
         else keep_password V stateDir s)"

definition SessionFromEnv :: "dev_env \<Rightarrow> string \<Rightarrow> (os_state, Session) op" where
  "SessionFromEnv V stateDir s =
     (let address = dv_Getenv V ''BRIDGE_DEV_EMAIL''
      in if address = [] then (Inl (ErrNew ''BRIDGE_DEV_EMAIL is not set''), s)
         else
           case wrap_err ''encode backend session'' (dv_MarshalBackend V
               \<lparr>be_Token = dv_Getenv V ''BRIDGE_DEV_TOKEN'',
                be_EncryptionPrivateKey = dv_Getenv V ''BRIDGE_DEV_ENCRYPTION_PRIVATE_KEY'',
                be_EncryptionPublicKey = dv_Getenv V ''BRIDGE_DEV_PUBLIC_KEY''\<rparr>) of
             Inl e \<Rightarrow> (Inl e, s)
           | Inr backend \<Rightarrow>
               bind_st (ensurePassword V stateDir s) (\<lambda>password s.
               (Inr \<lparr>ss_AccountID = address, ss_Addresses = [address], ss_BackendSession = backend,
                  ss_MailClient = \<lparr>lc_Username = address, lc_Password = password\<rparr>\<rparr>, s)))"

section \<open>What the user is told\<close>

text \<open>The dash of the last line is the three bytes of its UTF-8 encoding.\<close>

definition ReportConnectionSettings :: "Session \<Rightarrow> Ready \<Rightarrow> string list" where
  "ReportConnectionSettings session ready =
     [[], ''The bridge is running. Add this account to a mail client:'', [],
      ''  Username:  '' @ lc_Username (ss_MailClient session),
      ''  Password:  '' @ lc_Password (ss_MailClient session), [],
      ''  IMAP:      '' @ rd_IMAPAddress ready,
      ''  SMTP:      '' @ rd_SMTPAddress ready, []] @
     [if rd_StartTLS ready then ''  Security:  STARTTLS''
      else ''  Security:  none '' @ [CHR 0xE2, CHR 0x80, CHR 0x94] @
        '' turn TLS/SSL off, and allow an insecure password''] @
     [[], ''The password is stored, so it stays the same across restarts.'',
      ''IMAP serves the account's mail; SMTP accepts submissions but does not send them yet.'',
      ''Press Enter to ask the bridge to resync, or Ctrl+C to stop.'']"

section \<open>The fixture mailbox\<close>

text \<open>
  Gluon's dummy connector: made from addresses, a password, the period of its updates in nanoseconds
  and its flags, with a message added at a time.
\<close>

record 'c dummy_lib =
  dy_NewDummy :: "string list \<Rightarrow> bytes \<Rightarrow> int \<Rightarrow> string list \<Rightarrow> string list \<Rightarrow> string list \<Rightarrow> 'c"
  dy_CreateMessage :: "string \<Rightarrow> bytes \<Rightarrow> string list \<Rightarrow> ('c, unit) op"
  dy_ClearUpdates :: "'c \<Rightarrow> 'c"

text \<open>The raw strings of the source have two backslashes each, and so do these flags.\<close>

definition development_flags :: "string list" where
  "development_flags = map (\<lambda>f. CHR 0x5C # CHR 0x5C # f) [''Answered'', ''Seen'', ''Flagged'', ''Deleted'']"

fun add_development_messages :: "'c dummy_lib \<Rightarrow> bytes list \<Rightarrow> ('c, unit) op" where
  "add_development_messages L [] c = (Inr (), c)"
| "add_development_messages L (message # messages) c =
     bind_st (wrap_st ''add development message'' (dy_CreateMessage L ''0'' message [] c))
       (\<lambda>_. add_development_messages L messages)"

definition NewDevelopmentConnectorFactory :: "'c dummy_lib \<Rightarrow> bytes list \<Rightarrow> string list \<Rightarrow> string \<Rightarrow> err + 'c" where
  "NewDevelopmentConnectorFactory L messages addresses password =
     (case add_development_messages L messages
         (dy_NewDummy L addresses (str_bytes password) 1000000 development_flags development_flags []) of
       (Inl e, _) \<Rightarrow> Inl e
     | (Inr _, c) \<Rightarrow> Inr (dy_ClearUpdates L c))"

end
