(* ===== verification/DevelopmentProps.thy ===== *)
theory DevelopmentProps
  imports Development DaemonProps
begin

text \<open>
  The stand-in parent and the bridge together: the session the parent makes reaches the bridge whole,
  the parent learns how a start went, and what a sync reports is what the parent prints. The password
  of the session is made once.
\<close>

section \<open>Output\<close>

text \<open>Reading writes nothing, and writing only appends.\<close>

lemma ReadFull_out: "ReadFull n c = (r, c') \<Longrightarrow> cn_out c' = cn_out c"
  by (auto simp: ReadFull_def split: if_splits)

lemma readFrame_out: "readFrame T d c = (r, c') \<Longrightarrow> cn_out c' = cn_out c"
  by (auto simp: readFrame_def Let_def ReadFull_def split: option.splits if_splits elim!: bind_st.elims)

lemma ReadMessage_out: "ReadMessage T d c = (r, c') \<Longrightarrow> cn_out c' = cn_out c"
  by (cases "readFrame T d c") (auto simp: ReadMessage_def dest: readFrame_out
      split: sum.splits prod.splits option.splits if_splits elim!: bind_st.elims)

lemma writeFrame_appends: "\<exists>more. cn_out (snd (writeFrame T d payload c)) = cn_out c @ more"
proof -
  obtain e c1 where h: "writeAll T (be32 (length payload)) c = (e, c1)" by fastforce
  obtain e2 c2 where b: "writeAll T payload c1 = (e2, c2)" by fastforce
  have "\<exists>more. cn_out c1 = cn_out c @ more" using writeAll_prefix [of "be32 (length payload)" T c] h by auto
  moreover have "\<exists>more. cn_out c2 = cn_out c1 @ more" using writeAll_prefix [of payload T c1] b by auto
  ultimately show ?thesis
    using h b by (auto simp: writeFrame_def split: option.splits)
qed

lemma SendError_appends: "\<exists>more. cn_out (snd (SendError T rid code c)) = cn_out c @ more"
  using writeFrame_appends
  by (auto simp: SendError_def client_send_def WriteMessage_def split: sum.splits)

lemma Serve_appends:
  "Serve T d ended resync update k evs c = (e, evs', c') \<Longrightarrow> \<exists>more. cn_out c' = cn_out c @ more"
proof (induction T d ended resync update k evs c arbitrary: e evs' c' rule: Serve.induct)
  case (1 T d ended resync update k evs c)
  obtain r c1 where read: "ReadMessage T d c = (r, c1)" by fastforce
  note out = ReadMessage_out [OF read]
  note step = "1.prems" [unfolded Serve.simps [of T d ended resync update k evs c] read]
  show ?case
  proof (cases "ended k")
    case (Some x)
    then show ?thesis using step by simp
  next
    case None
    show ?thesis
    proof (cases r)
      case (Inl x)
      then show ?thesis using step None out SendError_appends [of T "[]" malformedFrameCode c1] by (auto split: if_splits)
    next
      case (Inr m)
      note IH = "1.IH" [OF None read [symmetric] Inr]
      show ?thesis
        using step None Inr out IH SendError_appends [of T "[]" badSessionUpdateCode c1]
        by (auto split: if_splits sum.splits)
    qed
  qed
qed

section \<open>What a run tells its parent\<close>

fun is_report :: "daemon_effect \<Rightarrow> bool" where
  "is_report ReadySent = True"
| "is_report (ErrorSent code) = True"
| "is_report _ = False"

definition reports :: "daemon_effect list \<Rightarrow> daemon_effect list" where
  "reports tr = filter is_report tr"

lemma reports_append [simp]: "reports (tr @ tr') = reports tr @ reports tr'"
  by (simp add: reports_def)

lemma reports_simps [simp]: "reports [] = []" "reports (ReadySent # tr) = ReadySent # reports tr"
  "reports (ErrorSent code # tr) = ErrorSent code # reports tr" "reports (IMAPEffect x # tr) = reports tr"
  "reports (SMTPListen a # tr) = reports tr" "reports (SMTPShutdown # tr) = reports tr"
  "reports (ParentEvent e # tr) = reports tr" "reports (ControlOpened # tr) = reports tr"
  "reports (ControlClosed # tr) = reports tr" "reports (RunContextDone # tr) = reports tr"
  by (simp_all add: reports_def)

lemma reports_IMAP [simp]: "reports (map IMAPEffect xs) = []"
  by (induction xs) simp_all

lemma note_effects_fields [simp]: "dm_conn (note_effects xs s) = dm_conn s"
  "dm_trace (note_effects xs s) = dm_trace s @ xs"
  by (simp_all add: note_effects_def)

text \<open>Starting and stopping the servers writes nothing and reports nothing.\<close>

definition quiet :: "('k, 's) daemon_state \<Rightarrow> ('k, 's) daemon_state \<Rightarrow> bool" where
  "quiet s s' \<longleftrightarrow> dm_conn s' = dm_conn s \<and> reports (dm_trace s') = reports (dm_trace s)"

lemma quiet_trans: "quiet s s' \<Longrightarrow> quiet s' s'' \<Longrightarrow> quiet s s''"
  by (simp add: quiet_def)

lemma startIMAP_quiet: "startIMAP D opts session tls s = (r, s') \<Longrightarrow> quiet s s'"
  by (auto simp: startIMAP_def Let_def quiet_def split: prod.splits sum.splits)

lemma startSMTP_quiet: "startSMTP D opts tls s = (r, s') \<Longrightarrow> quiet s s'"
  by (auto simp: startSMTP_def Let_def quiet_def split: prod.splits option.splits)

lemma close_imap_quiet: "close_imap D im s = (r, s') \<Longrightarrow> quiet s s'"
  by (auto simp: close_imap_def quiet_def split: prod.splits)

lemma stop_smtp_quiet: "quiet s (snd (stop_smtp D s))"
  by (simp add: stop_smtp_def quiet_def)

lemma handle_events_quiet: "quiet s (fold (handle_event im) events s)"
proof (induction events arbitrary: s)
  case Nil
  then show ?case by (simp add: quiet_def)
next
  case (Cons event events)
  have "quiet s (handle_event im event s)"
    by (cases event) (simp_all add: handle_event_def quiet_def)
  then show ?case using Cons quiet_trans by fastforce
qed

lemma amid_quiet: "amid pace im k steps events s = (rest, s') \<Longrightarrow> reports steps = [] \<Longrightarrow> quiet s s'"
proof (induction steps arbitrary: k events s)
  case Nil
  then show ?case using handle_events_quiet [of s im "take (pace k) events"] by (auto simp: act_on_def)
next
  case (Cons x steps)
  let ?s1 = "fold (handle_event im) (take (pace k) events) s"
  have x: "reports [x] = []" "reports steps = []"
    using Cons.prems(2) by (simp_all add: reports_def split: if_splits)
  have "quiet (note_effects [x] ?s1) s'"
    using Cons.prems(1) x(2) by (intro Cons.IH) (auto simp: act_on_def)
  then show ?case using handle_events_quiet [of s im "take (pace k) events"] x(1) by (auto simp: quiet_def)
qed

lemma shutdownServices_quiet: "shutdownServices D im k events s = (r, s') \<Longrightarrow> quiet s s'"
proof -
  assume down: "shutdownServices D im k events s = (r, s')"
  obtain q effs im' where close: "imap_Close (dn_imap D) im = (q, effs, im')" by (metis prod_cases3)
  obtain rest s1 where run: "amid (dn_pace D) im' k (map IMAPEffect effs @ [SMTPShutdown]) events s = (rest, s1)"
    by fastforce
  have "s' = s1" using down close run by (simp add: shutdownServices_def)
  with amid_quiet [OF run] show ?thesis by simp
qed

text \<open>
  The three things a run can have told its parent between two states: that it is ready, and possibly
  more after that; the code of one error; or nothing.
\<close>

definition ready_message :: "Ready \<Rightarrow> Message" where
  "ready_message rdy = no_message\<lparr>m_Type := readyType, m_Ready := Some rdy\<rparr>"

definition error_message :: "string \<Rightarrow> Message" where
  "error_message code = no_message\<lparr>m_Type := errorType, m_RequestID := [], m_Error := Some \<lparr>cr_Code = code\<rparr>\<rparr>"

datatype outcome = SaidReady Ready | SaidError string | SaidNothing

fun said :: "transport \<Rightarrow> outcome \<Rightarrow> ('k, 's) daemon_state \<Rightarrow> ('k, 's) daemon_state \<Rightarrow> bool" where
  "said T (SaidReady rdy) s s' \<longleftrightarrow> reports (dm_trace s') = reports (dm_trace s) @ [ReadySent] \<and>
     (\<exists>c more. WriteMessage T False (ready_message rdy) (dm_conn s) = (None, c) \<and>
        cn_out (dm_conn s') = cn_out c @ more)"
| "said T (SaidError code) s s' \<longleftrightarrow> reports (dm_trace s') = reports (dm_trace s) @ [ErrorSent code] \<and>
     (\<exists>c. WriteMessage T False (error_message code) (dm_conn s) = (None, c) \<and>
        cn_out (dm_conn s') = cn_out c)"
| "said T SaidNothing s s' \<longleftrightarrow> reports (dm_trace s') = reports (dm_trace s) \<and> cn_out (dm_conn s') = cn_out (dm_conn s)"

lemma said_after_quiet: "quiet s s1 \<Longrightarrow> said T o1 s1 s' \<Longrightarrow> said T o1 s s'"
  by (cases o1) (auto simp: quiet_def)

lemma said_before_quiet: "said T o1 s s1 \<Longrightarrow> quiet s1 s' \<Longrightarrow> said T o1 s s'"
  by (cases o1) (auto simp: quiet_def)

text \<open>
  A writer that always accepts something, and a codec for which the two errors of a start fit a frame.
\<close>

definition start_errors :: "string set" where
  "start_errors = {''start_imap'', ''start_smtp''}"

definition delivering :: "transport \<Rightarrow> bool" where
  "delivering T \<longleftrightarrow> progressing T \<and>
     (\<forall>code \<in> start_errors. \<exists>p. ct_Marshal T (error_message code) = Inr p \<and> frameable p)"

lemma WriteMessage_fails: "progressing T \<Longrightarrow> WriteMessage T False m c = (Some e, c') \<Longrightarrow> c' = c"
proof -
  assume T: "progressing T" and w: "WriteMessage T False m c = (Some e, c')"
  show "c' = c"
  proof (cases "ct_Marshal T m")
    case (Inr p)
    then have "writeFrame T False p c = (Some e, c')" using w by (simp add: WriteMessage_def)
    moreover from this have "\<not> frameable p" using writeFrame_delivers [OF T, of p c] by auto
    ultimately show ?thesis by (auto simp: writeFrame_def frameable_def split: if_splits)
  qed (use w in \<open>simp add: WriteMessage_def\<close>)
qed

lemma report_error_said:
  assumes "delivering (dn_transport D)" and "code \<in> start_errors"
  shows "said (dn_transport D) (SaidError code) s (report_error D code s)"
proof -
  obtain p where p: "ct_Marshal (dn_transport D) (error_message code) = Inr p" "frameable p"
    using assms by (auto simp: delivering_def)
  then obtain c where "WriteMessage (dn_transport D) False (error_message code) (dm_conn s) = (None, c)"
    using assms(1) writeFrame_delivers [of "dn_transport D" p "dm_conn s"] by (auto simp: delivering_def WriteMessage_def)
  moreover have "code \<noteq> []" using assms(2) by (auto simp: start_errors_def)
  ultimately show ?thesis by (auto simp: report_error_def SendError_def client_send_def error_message_def)
qed

lemma run_ready_said:
  assumes "delivering (dn_transport D)" and "run_ready D opts im certificate s = (r, s')"
  shows "said (dn_transport D) SaidNothing s s' \<or>
    (said (dn_transport D) (SaidReady (ready_of opts im certificate)) s s' \<and>
      rd_IMAPAddress (ready_of opts im certificate) \<noteq> [])"
proof -
  let ?T = "dn_transport D" and ?rdy = "ready_of opts im certificate"
  obtain e c where send: "SendReady ?T ?rdy (dm_conn s) = (e, c)" by fastforce
  show ?thesis
  proof (cases e)
    case (Some x)
    then have c: "c = dm_conn s"
      using send assms(1) WriteMessage_fails
      by (auto simp: SendReady_def client_send_def delivering_def split: if_splits)
    obtain q s2 where close: "close_imap D im (snd (stop_smtp D (s\<lparr>dm_conn := c\<rparr>))) = (q, s2)" by fastforce
    have "s' = s2" using assms(2) send Some close by (simp add: run_ready_def Let_def case_prod_beta)
    moreover have "quiet s s2"
      using quiet_trans [OF stop_smtp_quiet close_imap_quiet [OF close]] by (simp add: quiet_def c)
    ultimately show ?thesis by (simp add: quiet_def)
  next
    case None
    then have wrote: "WriteMessage ?T False (ready_message ?rdy) (dm_conn s) = (None, c)"
      and address: "rd_IMAPAddress ?rdy \<noteq> []"
      using send by (auto simp: SendReady_def client_send_def ready_message_def split: if_splits)
    let ?s1 = "note_effects (ReadySent # map IMAPEffect (imap_Resync im)) (s\<lparr>dm_conn := c\<rparr>)"
    obtain x events c2 where serve: "Serve ?T False (dn_ended D) True True 0 [] (dm_conn ?s1) = (x, events, c2)"
      by (metis prod_cases3)
    obtain more where more: "cn_out c2 = cn_out c @ more" using Serve_appends [OF serve] by auto
    obtain events1 s2 where s2: "amid (dn_pace D) im 0 [RunContextDone] events (?s1\<lparr>dm_conn := c2\<rparr>) = (events1, s2)"
      by fastforce
    have s': "shutdownServices D im 2 events1 s2 = (r, s')"
      using assms(2) send None serve s2 by (simp add: run_ready_def Let_def)
    have "quiet (?s1\<lparr>dm_conn := c2\<rparr>) s'"
      using quiet_trans [OF amid_quiet [OF s2] shutdownServices_quiet [OF s']] by simp
    then show ?thesis using wrote more address by (auto simp: quiet_def)
  qed
qed

lemma run_services_said:
  assumes "delivering (dn_transport D)" and "run_services D opts session tls certificate s = (r, s')"
  shows "\<exists>outcome. said (dn_transport D) outcome s s' \<and>
    (\<forall>rdy. outcome = SaidReady rdy \<longrightarrow> rd_IMAPAddress rdy \<noteq> [] \<and>
      rd_SMTPAddress rdy = bc_SMTPAddr (op_Config opts))"
proof -
  let ?T = "dn_transport D"
  obtain q s1 where imap: "startIMAP D opts session tls s = (q, s1)" by fastforce
  note q1 = startIMAP_quiet [OF imap]
  show ?thesis
  proof (cases q)
    case (Inl e)
    then have "s' = report_error D ''start_imap'' s1" using assms(2) imap by (simp add: run_services_def)
    then have "said ?T (SaidError ''start_imap'') s s'"
      using said_after_quiet [OF q1 report_error_said [OF assms(1), of "''start_imap''"]]
      by (simp add: start_errors_def)
    then show ?thesis by (intro exI [of _ "SaidError ''start_imap''"]) simp
  next
    case (Inr im)
    obtain p s2 where smtp: "startSMTP D opts tls s1 = (p, s2)" by fastforce
    note q2 = quiet_trans [OF q1 startSMTP_quiet [OF smtp]]
    show ?thesis
    proof (cases p)
      case (Inl e)
      obtain x s3 where close: "close_imap D im s2 = (x, s3)" by fastforce
      have "s' = report_error D ''start_smtp'' s3"
        using assms(2) imap Inr smtp Inl close by (simp add: run_services_def)
      then have "said ?T (SaidError ''start_smtp'') s s'"
        using said_after_quiet [OF quiet_trans [OF q2 close_imap_quiet [OF close]]
            report_error_said [OF assms(1), of "''start_smtp''"]]
        by (simp add: start_errors_def)
      then show ?thesis by (intro exI [of _ "SaidError ''start_smtp''"]) simp
    next
      case (Inr sm)
      have "run_ready D opts im certificate s2 = (r, s')"
        using assms(2) imap \<open>q = Inr im\<close> smtp Inr by (simp add: run_services_def)
      from run_ready_said [OF assms(1) this] show ?thesis
      proof
        assume "said ?T SaidNothing s2 s'"
        then show ?thesis using said_after_quiet [OF q2] by (intro exI [of _ SaidNothing]) blast
      next
        assume "said ?T (SaidReady (ready_of opts im certificate)) s2 s' \<and>
          rd_IMAPAddress (ready_of opts im certificate) \<noteq> []"
        then show ?thesis using said_after_quiet [OF q2]
          by (intro exI [of _ "SaidReady (ready_of opts im certificate)"]) (auto simp: ready_of_def simp del: said.simps)
      qed
    qed
  qed
qed

lemma run_session_said:
  assumes "delivering (dn_transport D)" and "run_session D opts api session s = (r, s')"
  shows "\<exists>outcome. said (dn_transport D) outcome s s' \<and>
    (\<forall>rdy. outcome = SaidReady rdy \<longrightarrow> rd_IMAPAddress rdy \<noteq> [] \<and>
      rd_SMTPAddress rdy = bc_SMTPAddr (op_Config opts))"
proof -
  obtain tls certificate s0 where run: "run_services D opts session tls certificate s0 = (r, s')" and "quiet s s0"
    using assms(2) by (auto simp: run_session_def Let_def quiet_def split: if_splits prod.splits sum.splits)
  then show ?thesis using run_services_said [OF assms(1) run] said_after_quiet by blast
qed

lemma ReceiveStartSession_out: "ReceiveStartSession T c = (r, c') \<Longrightarrow> cn_out c' = cn_out c"
  by (cases "ReadMessage T True c") (auto simp: ReceiveStartSession_def dest: ReadMessage_out
      split: sum.splits if_splits option.splits)

text \<open>The bytes a whole run puts on the connection, by what it reported.\<close>

lemma Run_said:
  assumes "delivering (dn_transport D)" and "Run D opts api s = (r, s')"
    and "cn_out (dm_conn s) = []" and "dm_trace s = []"
  obtains (ready) rdy payload more where "reports (dm_trace s') = [ReadySent]"
      "ct_Marshal (dn_transport D) (ready_message rdy) = Inr payload" "frameable payload"
      "cn_out (dm_conn s') = frame_of payload @ more" "rd_IMAPAddress rdy \<noteq> []"
      "rd_SMTPAddress rdy = bc_SMTPAddr (op_Config opts)"
  | (error) code payload where "reports (dm_trace s') = [ErrorSent code]"
      "ct_Marshal (dn_transport D) (error_message code) = Inr payload" "frameable payload"
      "cn_out (dm_conn s') = frame_of payload"
  | (mute) "reports (dm_trace s') = []" "cn_out (dm_conn s') = []"
proof (cases "op_ControlEndpoint opts = [] \<or> Connect (dn_dial D) (op_ControlEndpoint opts) \<noteq> None")
  case True
  then have "s' = s" using assms(2) by (auto simp: Run_def split: if_splits)
  then show ?thesis using assms(3,4) by (intro mute) simp_all
next
  case False
  let ?s0 = "note_effects [ControlOpened] s"
  from False obtain s1 where run: "run_connected D opts api ?s0 = (r, s1)" and s': "s' = close_control s1"
    using assms(2) by (auto simp: Run_def split: prod.splits)
  obtain q c where receive: "ReceiveStartSession (dn_transport D) (dm_conn s) = (q, c)" by fastforce
  have c: "cn_out c = []" using ReceiveStartSession_out [OF receive] assms(3) by simp
  have same: "cn_out (dm_conn s') = cn_out (dm_conn s1)" "reports (dm_trace s') = reports (dm_trace s1)"
    by (simp_all add: s' client_Close_def close_control_def)
  show ?thesis
  proof (cases q)
    case (Inl e)
    then have "s1 = ?s0\<lparr>dm_conn := c\<rparr>" using run receive by (simp add: run_connected_def)
    then show ?thesis using mute same c assms(4) by simp
  next
    case (Inr session)
    then have "run_session D opts api session (?s0\<lparr>dm_conn := c\<rparr>) = (r, s1)"
      using run receive by (simp add: run_connected_def)
    from run_session_said [OF assms(1) this] obtain outcome where
      said: "said (dn_transport D) outcome (?s0\<lparr>dm_conn := c\<rparr>) s1"
      and addresses: "\<forall>rdy. outcome = SaidReady rdy \<longrightarrow> rd_IMAPAddress rdy \<noteq> [] \<and>
        rd_SMTPAddress rdy = bc_SMTPAddr (op_Config opts)" by blast
    show ?thesis
    proof (cases outcome)
      case (SaidReady rdy)
      then obtain c' more where "WriteMessage (dn_transport D) False (ready_message rdy) c = (None, c')"
        "cn_out (dm_conn s1) = cn_out c' @ more" "reports (dm_trace s1) = [ReadySent]"
        using said assms(4) by auto
      then show ?thesis using ready [of rdy] addresses SaidReady same c by (auto elim!: WriteMessage_None)
    next
      case (SaidError code)
      then obtain c' where "WriteMessage (dn_transport D) False (error_message code) c = (None, c')"
        "cn_out (dm_conn s1) = cn_out c'" "reports (dm_trace s1) = [ErrorSent code]"
        using said assms(4) by auto
      then show ?thesis using error [of code] same c by (auto elim!: WriteMessage_None)
    next
      case SaidNothing
      then show ?thesis using mute said same c assms(4) by simp
    qed
  qed
qed

lemma in_reports: "is_report x \<Longrightarrow> x \<in> set tr \<longleftrightarrow> x \<in> set (reports tr)"
  by (simp add: reports_def)

lemma WriteMessage_in: "WriteMessage P d m c = (None, c') \<Longrightarrow> cn_in c' = cn_in c \<and> cn_end c' = cn_end c"
  using writeFrame_None(3,4) by (auto simp: WriteMessage_def split: sum.splits)

lemma ReadMessage_end:
  assumes "cn_in c = []" and "cn_end c = ErrSentinel IoEOF" and "setDeadline T d = None"
  shows "ReadMessage T d c = (Inl (ErrSentinel IoEOF), c)"
  using assms by (simp add: ReadMessage_def readFrame_def ReadFull_def)

text \<open>
  C15: The parent learns how the start of the bridge went. It writes a session to its connection and
  reads what the bridge puts on it during a whole run, however the store, the sockets and the
  libraries answer: when the run reported that it is ready, the parent gets a pair of addresses, the
  IMAP one not empty and the SMTP one the configured one; when the run reported an error, it gets that
  code and closes the connection; and when the run told it nothing, it sees the end of the stream.
\<close>

theorem parent_learns_the_outcome:
  assumes "Run D opts api s = (r, s')" and "dm_trace s = []" and "cn_out (dm_conn s) = []"
    and "delivering (dn_transport D)" and "\<And>rdy. carries (dn_transport D) P (ready_message rdy)"
    and "\<And>code. carries (dn_transport D) P (error_message code)"
    and "ends_with_EOF P" and "setDeadline P d = None"
    and "WriteMessage P d (no_message\<lparr>m_Type := startSessionType, m_Session := Some session\<rparr>) p = (None, p')"
    and "cn_in p = cn_out (dm_conn s')" and "cn_end p = ErrSentinel IoEOF"
  shows "(ReadySent \<in> set (dm_trace s') \<longrightarrow> (\<exists>rdy q. dev_Serve P d (Inr p) session = (Inr rdy, Some q) \<and>
        rd_IMAPAddress rdy \<noteq> [] \<and> rd_SMTPAddress rdy = bc_SMTPAddr (op_Config opts)))
    \<and> (\<forall>code. ErrorSent code \<in> set (dm_trace s') \<longrightarrow> (\<exists>q. dev_Serve P d (Inr p) session =
        (Inl (ErrNew (''bridge failed to start: '' @ code)), Some (client_Close q))))
    \<and> (reports (dm_trace s') = [] \<longrightarrow> dev_Serve P d (Inr p) session =
        (Inl (ErrWrap ''read bridge reply'' (ErrSentinel IoEOF)), Some (client_Close p')))"
proof -
  have p': "cn_in p' = cn_out (dm_conn s')" "cn_end p' = ErrSentinel IoEOF"
    using WriteMessage_in [OF assms(9)] assms(10,11) by simp_all
  have serve: "dev_Serve P d (Inr p) session =
      (case receiveReady P d p' of (Inl e, q) \<Rightarrow> (Inl e, Some (client_Close q)) | (Inr rdy, q) \<Rightarrow> (Inr rdy, Some q))"
    using assms(9) by (simp add: dev_Serve_def handshake_def dev_startSessionType_def startSessionType_def)
  from assms(4,1,3,2) show ?thesis
  proof (cases rule: Run_said)
    case (ready rdy payload more)
    have "ReadMessage P d p' = (Inr (ready_message rdy), p'\<lparr>cn_in := more\<rparr>)"
      using ready(3,4) p'(1) by (intro ReadMessage_frame [OF ready(2) assms(5,7) _ _ assms(8)]) simp_all
    then have "receiveReady P d p' = (Inr rdy, p'\<lparr>cn_in := more\<rparr>)"
      by (simp add: receiveReady_def ready_message_def no_message_def readyType_def dev_readyType_def dev_errorType_def)
    then show ?thesis using serve ready(1,5,6) by (simp add: in_reports)
  next
    case (error code payload)
    have "ReadMessage P d p' = (Inr (error_message code), p'\<lparr>cn_in := []\<rparr>)"
      using error(3,4) p'(1) by (intro ReadMessage_frame [OF error(2) assms(6,7) _ _ assms(8)]) simp_all
    then have "receiveReady P d p' = (Inl (ErrNew (''bridge failed to start: '' @ code)), p'\<lparr>cn_in := []\<rparr>)"
      by (simp add: receiveReady_def error_message_def no_message_def errorType_def dev_errorType_def)
    then show ?thesis using serve error(1) by (auto simp: in_reports)
  next
    case mute
    have "receiveReady P d p' = (Inl (ErrWrap ''read bridge reply'' (ErrSentinel IoEOF)), p')"
      using ReadMessage_end [OF _ p'(2) assms(8)] mute(2) p'(1) by (simp add: receiveReady_def)
    then show ?thesis using serve mute(1) by (simp add: in_reports)
  qed
qed

section \<open>The session on its way\<close>

text \<open>What the JSON codec is documented to do with the session material, on both ends.\<close>

definition backend_codec_ok :: "dev_env \<Rightarrow> transport \<Rightarrow> bool" where
  "backend_codec_ok V T \<longleftrightarrow> (\<forall>b raw. dv_MarshalBackend V b = Inr raw \<longrightarrow>
     raw \<noteq> [] \<and> ct_Valid T raw \<and> ct_UnmarshalBackend T raw = Inr b)"

lemma b64_raw_url_nonempty: "xs \<noteq> [] \<Longrightarrow> b64_raw_url xs \<noteq> []"
proof -
  assume "xs \<noteq> []"
  moreover have "b64_char n \<noteq> CHR ''=''" if "n < 64" for n
    using b64_value_char [OF that] by (auto simp: b64_value_def find_Some_iff b64_alphabet_def)
  ultimately show ?thesis
    by (cases xs rule: b64_encode.cases) (auto simp: b64_raw_url_def filter_empty_conv)
qed

lemma keep_password_nonempty:
  assumes "\<And>x. dv_rand V passwordBytes = Inr x \<Longrightarrow> x \<noteq> []" and "keep_password V dir s = (Inr p, s')"
  shows "p \<noteq> [] \<and> os_files s' (dv_join V dir passwordFile) = Some (str_bytes p)"
proof -
  obtain x where x: "dv_rand V passwordBytes = Inr x"
    and p: "p = b64_raw_url x" and "\<exists>s1. WriteFile (dv_join V dir passwordFile) (str_bytes p) s1 = (Inr (), s')"
    using assms(2) by (auto simp: keep_password_def randomPassword_def split: sum.splits)
  then show ?thesis using b64_raw_url_nonempty [OF assms(1) [OF x]] WriteFile_Inr by fastforce
qed

lemma ensurePassword_cases:
  assumes "ensurePassword V dir s = (Inr p, s')"
  obtains (kept) s1 stored where "ReadFile (dv_join V dir passwordFile) s = (Inr stored, s1)" "stored \<noteq> []"
      "p = bytes_str stored" "s' = s1"
  | (made) r s1 where "ReadFile (dv_join V dir passwordFile) s = (r, s1)" "keep_password V dir s1 = (Inr p, s')"
proof -
  obtain r s1 where read: "ReadFile (dv_join V dir passwordFile) s = (r, s1)" by fastforce
  show ?thesis
  proof (cases "\<exists>stored. r = Inr stored \<and> stored \<noteq> []")
    case True
    then show ?thesis using kept read assms by (auto simp: ensurePassword_def)
  next
    case False
    then have "keep_password V dir s1 = (Inr p, s')"
      using read assms by (auto simp: ensurePassword_def split: sum.splits if_splits)
    then show ?thesis by (rule made [OF read])
  qed
qed

lemma ensurePassword_nonempty:
  assumes "\<And>x. dv_rand V passwordBytes = Inr x \<Longrightarrow> x \<noteq> []" and "ensurePassword V dir s = (Inr p, s')"
  shows "p \<noteq> []"
  using assms(2)
proof (cases rule: ensurePassword_cases)
  case (kept s1 stored)
  then show ?thesis by (metis length_0_conv length_bytes_str)
next
  case (made r s1)
  then show ?thesis using keep_password_nonempty [OF assms(1)] by blast
qed

lemma SessionFromEnv_Inr:
  assumes "SessionFromEnv V dir s = (Inr session, s')"
  obtains raw password where "dv_Getenv V ''BRIDGE_DEV_EMAIL'' \<noteq> []"
    and "dv_MarshalBackend V \<lparr>be_Token = dv_Getenv V ''BRIDGE_DEV_TOKEN'',
      be_EncryptionPrivateKey = dv_Getenv V ''BRIDGE_DEV_ENCRYPTION_PRIVATE_KEY'',
      be_EncryptionPublicKey = dv_Getenv V ''BRIDGE_DEV_PUBLIC_KEY''\<rparr> = Inr raw"
    and "ensurePassword V dir s = (Inr password, s')"
    and "session = \<lparr>ss_AccountID = dv_Getenv V ''BRIDGE_DEV_EMAIL'', ss_Addresses = [dv_Getenv V ''BRIDGE_DEV_EMAIL''],
      ss_BackendSession = raw,
      ss_MailClient = \<lparr>lc_Username = dv_Getenv V ''BRIDGE_DEV_EMAIL'', lc_Password = password\<rparr>\<rparr>"
  using assms by (auto simp: SessionFromEnv_def Let_def split: if_splits sum.splits)

text \<open>
  C22: The session the parent makes reaches the bridge whole. Whatever the environment holds, a session
  that was made from it and written to the connection, in frames and pieces, passes the bridge's own
  validation; the bridge gets exactly that session, and in it the token and the keys the environment
  held. Nothing of what follows on the connection has been read, and nothing has been written back.
\<close>

theorem session_survives_the_handshake:
  assumes "SessionFromEnv V dir f = (Inr session, f')" and "backend_codec_ok V T"
    and "\<And>x. dv_rand V passwordBytes = Inr x \<Longrightarrow> x \<noteq> []"
    and "WriteMessage P d (no_message\<lparr>m_Type := dev_startSessionType, m_Session := Some session\<rparr>) p = (None, p')"
    and "cn_out p = []" and "cn_in c = cn_out p' @ rest"
    and "carries P T (no_message\<lparr>m_Type := dev_startSessionType, m_Session := Some session\<rparr>)"
    and "ends_with_EOF T" and "setDeadline T True = None"
  shows "ReceiveStartSession T c = (Inr session, c\<lparr>cn_in := rest\<rparr>)
    \<and> session_Backend T session = Inr \<lparr>be_Token = dv_Getenv V ''BRIDGE_DEV_TOKEN'',
        be_EncryptionPrivateKey = dv_Getenv V ''BRIDGE_DEV_ENCRYPTION_PRIVATE_KEY'',
        be_EncryptionPublicKey = dv_Getenv V ''BRIDGE_DEV_PUBLIC_KEY''\<rparr>
    \<and> ss_Addresses session = [dv_Getenv V ''BRIDGE_DEV_EMAIL'']"
proof -
  let ?m = "no_message\<lparr>m_Type := dev_startSessionType, m_Session := Some session\<rparr>"
  from assms(1) obtain raw password where address: "dv_Getenv V ''BRIDGE_DEV_EMAIL'' \<noteq> []"
    and raw: "dv_MarshalBackend V \<lparr>be_Token = dv_Getenv V ''BRIDGE_DEV_TOKEN'',
      be_EncryptionPrivateKey = dv_Getenv V ''BRIDGE_DEV_ENCRYPTION_PRIVATE_KEY'',
      be_EncryptionPublicKey = dv_Getenv V ''BRIDGE_DEV_PUBLIC_KEY''\<rparr> = Inr raw"
    and pass: "ensurePassword V dir f = (Inr password, f')"
    and session: "session = \<lparr>ss_AccountID = dv_Getenv V ''BRIDGE_DEV_EMAIL'',
      ss_Addresses = [dv_Getenv V ''BRIDGE_DEV_EMAIL''], ss_BackendSession = raw,
      ss_MailClient = \<lparr>lc_Username = dv_Getenv V ''BRIDGE_DEV_EMAIL'', lc_Password = password\<rparr>\<rparr>"
    by (rule SessionFromEnv_Inr)
  have "password \<noteq> []" by (rule ensurePassword_nonempty [OF assms(3) pass])
  moreover note codec = assms(2) [unfolded backend_codec_ok_def, rule_format, OF raw]
  ultimately have valid: "validateSession T session = None"
    using address by (simp add: session validateSession_def)
  have "carries P T ?m \<and> ends_with_EOF T \<and> setDeadline T True = None"
    using assms(7-9) by simp
  from ctl.sent_is_read [OF assms(4) this] have "ReadMessage T True c = (Inr ?m, c\<lparr>cn_in := rest\<rparr>)"
    using assms(5,6) by auto
  then show ?thesis
    using valid codec
    by (simp add: ReceiveStartSession_def startSessionType_def dev_startSessionType_def session session_Backend_def)
qed

section \<open>Progress\<close>

text \<open>The message each report of a sync becomes; a start without anything to download becomes none.\<close>

fun event_messages :: "sync_event \<Rightarrow> Message list" where
  "event_messages (OnStarted tot) =
     (if tot \<le> 0 then [] else [no_message\<lparr>m_Type := syncStartedType, m_Started := Some \<lparr>sn_Total = tot\<rparr>\<rparr>])"
| "event_messages (OnProgress made tot pct) =
     (if tot \<le> 0 then []
      else [no_message\<lparr>m_Type := syncProgressType,
        m_Progress := Some \<lparr>sg_Downloaded = made, sg_Total = tot, sg_Percent = pct\<rparr>\<rparr>])"
| "event_messages (OnFinished made tot code) =
     [no_message\<lparr>m_Type := syncFinishedType,
        m_Finished := Some \<lparr>sf_Downloaded = made, sf_Total = tot, sf_Code = code\<rparr>\<rparr>]"

text \<open>What a user should read of it.\<close>

fun event_lines :: "sync_event \<Rightarrow> string list" where
  "event_lines (OnStarted tot) =
     (if tot \<le> 0 then [] else [''Sync started: '' @ itoa tot @ '' emails to download''])"
| "event_lines (OnProgress made tot pct) =
     (if tot \<le> 0 then [] else [''  '' @ itoa pct @ ''% ('' @ itoa made @ '' of '' @ itoa tot @ '' emails)''])"
| "event_lines (OnFinished made tot code) =
     (if code = [] then [''Sync finished: '' @ itoa made @ '' emails'']
      else [''Sync gave up after '' @ itoa made @ '' of '' @ itoa tot @ '' emails: '' @ code])"

lemma event_messages_lines: "concat (map progress_lines (event_messages event)) = event_lines event"
  by (cases event) (simp_all add: progress_lines_def finished_line_def no_message_def Let_def
      dev_syncStartedType_def dev_syncProgressType_def dev_syncFinishedType_def
      syncStartedType_def syncProgressType_def syncFinishedType_def)

lemma concat_event_lines:
  "concat (map progress_lines (concat (map event_messages events))) = concat (map event_lines events)"
  by (induction events) (simp_all add: event_messages_lines)

lemma send_each_append: "send_each give (ms @ ms') c =
    (case send_each give ms c of (Some e, c) \<Rightarrow> (Some e, c) | (None, c) \<Rightarrow> send_each give ms' c)"
  by (induction ms arbitrary: c) (auto split: prod.splits option.splits)

lemma syncProgressEvents_sends: "syncProgressEvents T event c = snd (send_each (WriteMessage T False) (event_messages event) c)"
  by (cases event) (auto simp: syncProgressEvents_def SendSyncStarted_def SendSyncProgress_def SendSyncFinished_def
      client_send_def split: prod.splits option.splits)

text \<open>Reports are sent one by one; with a writer that makes progress all of them arrive.\<close>

lemma progress_sent:
  assumes "progressing T" and "\<And>m. m \<in> set (concat (map event_messages events)) \<Longrightarrow>
    \<exists>p. ct_Marshal T m = Inr p \<and> frameable p"
  shows "\<exists>c'. send_each (WriteMessage T False) (concat (map event_messages events)) c = (None, c') \<and>
    fold (syncProgressEvents T) events c = c'"
  using assms(2)
proof (induction events arbitrary: c)
  case (Cons event events)
  obtain c1 where c1: "send_each (WriteMessage T False) (event_messages event) c = (None, c1)"
    using parent_sends_delivers [OF assms(1), of "event_messages event" c] Cons.prems by auto
  obtain c' where "send_each (WriteMessage T False) (concat (map event_messages events)) c1 = (None, c')"
    "fold (syncProgressEvents T) events c1 = c'"
    using Cons.IH [of c1] Cons.prems by auto
  moreover have "syncProgressEvents T event c = c1" using c1 by (simp add: syncProgressEvents_sends)
  ultimately show ?case using c1 by (simp add: send_each_append)
qed simp

lemma fold_append_map: "fold (\<lambda>m printed. printed @ f m) ms printed = printed @ concat (map f ms)"
  by (induction ms arbitrary: printed) simp_all

text \<open>
  The user reads what the sync reports. Whatever a sync reports, in whatever order, the bridge
  puts it on the control channel and the parent that reads the channel to its end prints one line for
  each report, in the same order and with the same numbers; only a start or a progress with a total of
  zero is left out. Then it returns the error of the end of the stream.
\<close>

theorem progress_reaches_the_user:
  assumes "progressing T" and "\<And>event m. event \<in> set events \<Longrightarrow> m \<in> set (event_messages event) \<Longrightarrow>
      (\<exists>p. ct_Marshal T m = Inr p \<and> frameable p) \<and> carries T P m"
    and "ends_with_EOF P" and "setDeadline P d = None" and "cn_out c = []"
    and "cn_in p = cn_out (fold (syncProgressEvents T) events c)" and "cn_end p = ErrSentinel IoEOF"
  shows "ReportProgress P d [] p = (ErrSentinel IoEOF, concat (map event_lines events), p\<lparr>cn_in := []\<rparr>)"
proof -
  let ?ms = "concat (map event_messages events)" and ?loop = "ReportProgress P d"
  obtain c' where sent: "send_each (WriteMessage T False) ?ms c = (None, c')" and c': "cn_in p = cn_out c'"
    using progress_sent [OF assms(1), of events c] assms(2,6) by auto
  have carried: "\<forall>m \<in> set ?ms. (carries T P m \<and> ends_with_EOF P \<and> setDeadline P d = None) \<and> True"
    using assms(2-4) by auto
  have turn: "?loop printed c = ?loop (printed @ progress_lines m) c'"
    if "ReadMessage P d c = (Inr m, c')" for m c c' printed
    using that by (subst ReportProgress.simps) simp
  obtain bytes where "cn_out c' = cn_out c @ bytes" and "\<forall>c rest printed. cn_in c = bytes @ rest \<longrightarrow>
      ?loop printed c = ?loop (fold (\<lambda>m printed. printed @ progress_lines m) ?ms printed) (c\<lparr>cn_in := rest\<rparr>)"
    using ctl.taken_in [where loop = ?loop and act = "\<lambda>m printed. printed @ progress_lines m" and Q = "\<lambda>m. True",
        OF sent carried turn] by blast
  then have "?loop [] p = ?loop (concat (map event_lines events)) (p\<lparr>cn_in := []\<rparr>)"
    using c' assms(5) by (simp add: fold_append_map concat_event_lines)
  moreover have "ReadMessage P d (p\<lparr>cn_in := []\<rparr>) = (Inl (ErrSentinel IoEOF), p\<lparr>cn_in := []\<rparr>)"
    using assms(4,7) by (intro ReadMessage_end) simp_all
  then have "?loop printed (p\<lparr>cn_in := []\<rparr>) = (ErrSentinel IoEOF, printed, p\<lparr>cn_in := []\<rparr>)" for printed
    by (subst ReportProgress.simps) simp
  ultimately show ?thesis by simp
qed

section \<open>The password\<close>

text \<open>
  A mail client that was set up once keeps working. When a start of the parent got a password, it
  is not empty, and every later start in the same directory that can read the file gets the same one,
  whatever the random source gives then, and leaves the files alone. It does not hold of a start that
  failed: what a write that broke off left of the password becomes the password of the next start.
\<close>

theorem password_made_once:
  assumes "\<And>x. dv_rand V passwordBytes = Inr x \<Longrightarrow> x \<noteq> []"
    and "dv_join V' dir' passwordFile = dv_join V dir passwordFile" and "os_outcomes t = []"
  shows "(ensurePassword V dir s = (Inr password, s') \<and> os_files t = os_files s' \<longrightarrow>
      password \<noteq> [] \<and> ensurePassword V' dir' t = (Inr password, t))
    \<and> (ReadFile (dv_join V dir passwordFile) s = (Inl (ErrSentinel OsErrNotExist), s1) \<and>
        os_outcomes s1 = [OsOk, OsWritesPart (Suc n) e] \<and> dv_rand V passwordBytes = Inr fresh \<and>
        ensurePassword V dir s = (Inl e', s') \<and> os_files t = os_files s' \<longrightarrow>
      ensurePassword V' dir' t = (Inr (take (Suc n) (b64_raw_url fresh)), t))"
proof (intro conjI impI)
  assume made: "ensurePassword V dir s = (Inr password, s') \<and> os_files t = os_files s'"
  then show "password \<noteq> []" using ensurePassword_nonempty [OF assms(1)] by blast
  have "os_files s' (dv_join V dir passwordFile) = Some (str_bytes password)"
    using conjunct1 [OF made]
  proof (cases rule: ensurePassword_cases)
    case (kept s1 stored)
    then have "os_files s1 (dv_join V dir passwordFile) = Some stored"
      using ReadFile_files [OF kept(1)] by (auto simp: ReadFile_def split: option.splits)
    then show ?thesis using kept(3,4) by simp
  next
    case (made r s1)
    then show ?thesis using keep_password_nonempty [OF assms(1)] by blast
  qed
  then show "ensurePassword V' dir' t = (Inr password, t)"
    using made assms(2,3) \<open>password \<noteq> []\<close> by (simp add: ensurePassword_def ReadFile_calm)
next
  assume broken: "ReadFile (dv_join V dir passwordFile) s = (Inl (ErrSentinel OsErrNotExist), s1) \<and>
        os_outcomes s1 = [OsOk, OsWritesPart (Suc n) e] \<and> dv_rand V passwordBytes = Inr fresh \<and>
        ensurePassword V dir s = (Inl e', s') \<and> os_files t = os_files s'"
  have part: "take k (str_bytes x) = str_bytes (take k x)" for k x by (simp add: str_bytes_def take_map)
  have "keep_password V dir s1 = (Inl e', s')" using broken by (auto simp: ensurePassword_def)
  then have "os_files s' (dv_join V dir passwordFile) = Some (take (Suc n) (str_bytes (b64_raw_url fresh)))"
    using broken by (auto simp: keep_password_def randomPassword_def MkdirAll_def os_do_def os_next_def WriteFile_def)
  then have "os_files t (dv_join V dir passwordFile) = Some (str_bytes (take (Suc n) (b64_raw_url fresh)))"
    using broken part by simp
  moreover have "take (Suc n) (b64_raw_url fresh) \<noteq> []"
    using b64_raw_url_nonempty [OF assms(1)] broken by auto
  ultimately show "ensurePassword V' dir' t = (Inr (take (Suc n) (b64_raw_url fresh)), t)"
    using assms(2,3) by (simp add: ensurePassword_def ReadFile_calm)
qed

section \<open>A codec\<close>

text \<open>
  A codec for closed examples: the fields of a message one after the other, each byte behind a one and
  each field ended by a zero.
\<close>

fun wire :: "string list \<Rightarrow> bytes" where
  "wire [] = []"
| "wire (f # fs) = concat (map (\<lambda>b. [1, b]) (str_bytes f)) @ 0 # wire fs"

fun unwire :: "bytes \<Rightarrow> bytes \<Rightarrow> string list option" where
  "unwire cur [] = Some []"
| "unwire cur [z] = (if z = 0 then Some [bytes_str cur] else None)"
| "unwire cur (z # b # r) =
     (if z = 0 then map_option ((#) (bytes_str cur)) (unwire [] (b # r)) else unwire (cur @ [b]) r)"

lemma unwire_zero: "unwire cur (0 # r) = map_option ((#) (bytes_str cur)) (unwire [] r)"
  by (cases r) simp_all

lemma unwire_field: "unwire cur (concat (map (\<lambda>b. [1, b]) xs) @ 0 # r) =
    map_option ((#) (bytes_str (cur @ xs))) (unwire [] r)"
  by (induction xs arbitrary: cur) (simp_all add: unwire_zero)

lemma unwire_wire [simp]: "unwire [] (wire fs) = Some fs"
  by (induction fs) (simp_all add: unwire_field)

lemma wire_Cons_nonempty [simp]: "wire (f # fs) \<noteq> []"
  by simp

lemma length_wire: "length (wire fs) = (\<Sum>f\<leftarrow>fs. 2 * length f + 1)"
proof (induction fs)
  case (Cons f fs)
  have "length (concat (map (\<lambda>b. [1, b]) xs)) = 2 * length xs" for xs :: bytes by (induction xs) simp_all
  then show ?case using Cons by simp
qed simp

definition demo_fields :: "Message \<Rightarrow> string list" where
  "demo_fields m =
     (case m_Session m of
       Some x \<Rightarrow> [ss_AccountID x, hd (ss_Addresses x), bytes_str (ss_BackendSession x),
         lc_Username (ss_MailClient x), lc_Password (ss_MailClient x)]
     | None \<Rightarrow>
         (case m_Ready m of
           Some x \<Rightarrow> [rd_IMAPAddress x, rd_SMTPAddress x, if rd_StartTLS x then ''1'' else [], rd_Certificate x]
         | None \<Rightarrow>
             (case m_Error m of
               Some x \<Rightarrow> [cr_Code x]
             | None \<Rightarrow>
                 (case m_Started m of
                   Some x \<Rightarrow> [itoa (sn_Total x)]
                 | None \<Rightarrow>
                     (case m_Finished m of
                       Some x \<Rightarrow> [itoa (sf_Downloaded x), itoa (sf_Total x), sf_Code x]
                     | None \<Rightarrow> [])))))"

definition demo_number :: "string \<Rightarrow> int" where
  "demo_number f = (case atoi f of Inr n \<Rightarrow> n | Inl _ \<Rightarrow> 0)"

definition demo_message :: "string list \<Rightarrow> Message" where
  "demo_message fs =
     (let m = no_message\<lparr>m_Type := fs ! 0\<rparr>
      in if fs ! 0 = startSessionType then
           m\<lparr>m_Session := Some \<lparr>ss_AccountID = fs ! 1, ss_Addresses = [fs ! 2], ss_BackendSession = str_bytes (fs ! 3),
             ss_MailClient = \<lparr>lc_Username = fs ! 4, lc_Password = fs ! 5\<rparr>\<rparr>\<rparr>
         else if fs ! 0 = readyType then
           m\<lparr>m_Ready := Some \<lparr>rd_IMAPAddress = fs ! 1, rd_SMTPAddress = fs ! 2, rd_StartTLS = (fs ! 3 = ''1''),
             rd_Certificate = fs ! 4\<rparr>\<rparr>
         else if fs ! 0 = errorType then m\<lparr>m_Error := Some \<lparr>cr_Code = fs ! 1\<rparr>\<rparr>
         else if fs ! 0 = syncStartedType then m\<lparr>m_Started := Some \<lparr>sn_Total = demo_number (fs ! 1)\<rparr>\<rparr>
         else if fs ! 0 = syncFinishedType then
           m\<lparr>m_Finished := Some \<lparr>sf_Downloaded = demo_number (fs ! 1), sf_Total = demo_number (fs ! 2), sf_Code = fs ! 3\<rparr>\<rparr>
         else m)"

definition demo_link :: transport where
  "demo_link = toy_transport\<lparr>ct_Marshal := (\<lambda>m. Inr (wire (m_Type m # demo_fields m))),
     ct_Decode := (\<lambda>p. case unwire [] p of Some (f # fs) \<Rightarrow> Inr (demo_message (f # fs), [])
       | _ \<Rightarrow> Inl (ErrNew ''invalid character'')),
     ct_UnmarshalBackend := (\<lambda>p. case unwire [] p of
         Some [t, a, b] \<Rightarrow> Inr \<lparr>be_Token = t, be_EncryptionPrivateKey = a, be_EncryptionPublicKey = b\<rparr>
       | _ \<Rightarrow> Inl (ErrNew ''unmarshal''))\<rparr>"

lemmas demo_codec_defs = demo_link_def demo_message_def demo_fields_def toy_transport_def no_message_def Let_def

lemma demo_link_facts:
  "ends_with_EOF demo_link" "setDeadline demo_link d = None" "progressing demo_link"
  "ct_Marshal demo_link m = Inr (wire (m_Type m # demo_fields m))"
  by (simp_all add: demo_link_def toy_transport_def ends_with_EOF_def setDeadline_def progressing_def)

lemma demo_carries_ready: "carries demo_link demo_link (ready_message rdy)"
  by (simp add: carries_def ready_message_def demo_codec_defs readyType_def startSessionType_def del: wire.simps)

lemma demo_carries_error: "carries demo_link demo_link (error_message code)"
  by (simp add: carries_def error_message_def demo_codec_defs readyType_def startSessionType_def errorType_def del: wire.simps)

lemma demo_carries_session: "ss_Addresses session = [a] \<Longrightarrow>
    carries demo_link demo_link (no_message\<lparr>m_Type := startSessionType, m_Session := Some session\<rparr>)"
  by (simp add: carries_def demo_codec_defs startSessionType_def del: wire.simps)

lemma demo_delivering: "delivering demo_link"
  by (auto simp: delivering_def start_errors_def demo_link_facts frameable_def MaxFrameSize_def error_message_def
      errorType_def demo_fields_def no_message_def str_bytes_def)

section \<open>A parent and a bridge\<close>

definition demo_dev :: dev_env where
  "demo_dev = \<lparr>dv_Getenv = (\<lambda>name. if name = ''BRIDGE_DEV_EMAIL'' then ''a@inxt.me'' else []),
     dv_MarshalBackend = (\<lambda>b. Inr (wire [be_Token b, be_EncryptionPrivateKey b, be_EncryptionPublicKey b])),
     dv_rand = (\<lambda>n. Inr (replicate n 0)), dv_join = (\<lambda>a b. a @ ''/'' @ b)\<rparr>"

definition empty_disk :: os_state where
  "empty_disk = \<lparr>os_files = Map.empty, os_outcomes = []\<rparr>"

definition demo_session :: Session where
  "demo_session = \<lparr>ss_AccountID = ''a@inxt.me'', ss_Addresses = [''a@inxt.me''],
     ss_BackendSession = wire [[], [], []],
     ss_MailClient = \<lparr>lc_Username = ''a@inxt.me'', lc_Password = b64_raw_url (replicate 32 0)\<rparr>\<rparr>"

lemma demo_SessionFromEnv: "\<exists>f'. SessionFromEnv demo_dev ''d'' empty_disk = (Inr demo_session, f')"
  by (simp add: SessionFromEnv_def demo_dev_def ensurePassword_def ReadFile_calm empty_disk_def keep_password_def
      randomPassword_def passwordBytes_def MkdirAll_def WriteFile_def os_do_def os_next_def demo_session_def Let_def)

lemma demo_backend: "backend_codec_ok demo_dev demo_link"
  by (auto simp: backend_codec_ok_def demo_dev_def demo_link_def toy_transport_def simp del: wire.simps)

definition demo_start :: Message where
  "demo_start = no_message\<lparr>m_Type := dev_startSessionType, m_Session := Some demo_session\<rparr>"

lemma demo_carries_start: "carries demo_link demo_link demo_start"
  using demo_carries_session [of demo_session "''a@inxt.me''"]
  by (simp add: demo_start_def demo_session_def dev_startSessionType_def startSessionType_def)

lemma demo_start_sent: "\<exists>p'. WriteMessage demo_link False demo_start (toy_conn x) = (None, p')"
proof -
  have "length (b64_raw_url (replicate 32 0)) \<le> 44"
    using length_filter_le [of "\<lambda>c. c \<noteq> CHR ''=''" "b64_encode (replicate 32 0)"]
    by (simp add: b64_raw_url_def length_b64_encode b64_encoded_len_def)
  then have "length (wire (m_Type demo_start # demo_fields demo_start)) \<le> MaxFrameSize"
    by (simp add: length_wire demo_start_def demo_session_def demo_fields_def no_message_def dev_startSessionType_def
        MaxFrameSize_def del: wire.simps)
  then have "frameable (wire (m_Type demo_start # demo_fields demo_start))" by (simp add: frameable_def)
  from writeFrame_delivers [OF demo_link_facts(3) this, of "toy_conn x"] show ?thesis
    by (auto simp: WriteMessage_def demo_link_facts simp del: wire.simps)
qed

theorem session_survives_the_handshake_witness:
  "\<exists>f' p'. SessionFromEnv demo_dev ''d'' empty_disk = (Inr demo_session, f') \<and>
     WriteMessage demo_link False demo_start (toy_conn []) = (None, p') \<and>
     ReceiveStartSession demo_link (toy_conn (cn_out p' @ [7])) = (Inr demo_session, toy_conn [7])"
proof -
  obtain f' where f': "SessionFromEnv demo_dev ''d'' empty_disk = (Inr demo_session, f')"
    using demo_SessionFromEnv by blast
  obtain p' where p': "WriteMessage demo_link False demo_start (toy_conn []) = (None, p')"
    using demo_start_sent by blast
  have rand: "x \<noteq> []" if "dv_rand demo_dev passwordBytes = Inr x" for x
    using that by (auto simp: demo_dev_def passwordBytes_def)
  have "ReceiveStartSession demo_link (toy_conn (cn_out p' @ [7])) =
      (Inr demo_session, toy_conn (cn_out p' @ [7])\<lparr>cn_in := [7]\<rparr>)"
    using session_survives_the_handshake [OF f' demo_backend rand p' [unfolded demo_start_def] _ _
        demo_carries_start [unfolded demo_start_def] demo_link_facts(1,2)] by (simp add: toy_conn_def)
  then show ?thesis using f' p' by (intro exI conjI) (simp_all add: toy_conn_def)
qed

text \<open>A bridge that cannot open its store, so that the IMAP server is not started.\<close>

definition storeless :: "(memory, unit) daemon_env" where
  "storeless = toy_daemon\<lparr>dn_transport := demo_link, dn_open := Some (ErrNew ''store: state directory is required'')\<rparr>"

theorem parent_learns_the_outcome_witness:
  "\<exists>p' r s' q. WriteMessage demo_link False demo_start (toy_conn []) = (None, p') \<and>
     Run storeless toy_options () (toy_start\<lparr>dm_conn := toy_conn (cn_out p')\<rparr>) = (r, s') \<and>
     dev_Serve demo_link False (Inr (toy_conn (cn_out (dm_conn s')))) demo_session =
       (Inl (ErrNew ''bridge failed to start: start_imap''), Some q)"
proof -
  obtain p' where p': "WriteMessage demo_link False demo_start (toy_conn []) = (None, p')"
    using demo_start_sent by blast
  let ?s = "toy_start\<lparr>dm_conn := toy_conn (cn_out p')\<rparr>"
  obtain r s' where run: "Run storeless toy_options () ?s = (r, s')" by fastforce
  have "carries demo_link demo_link demo_start \<and> ends_with_EOF demo_link \<and> setDeadline demo_link True = None"
    by (simp add: demo_carries_start demo_link_facts)
  from ctl.sent_is_read [OF p' this]
  have "ReadMessage demo_link True (toy_conn (cn_out p')) = (Inr demo_start, toy_conn [])"
    by (auto simp: toy_conn_def)
  moreover have "validateSession demo_link demo_session = None"
    by (simp add: validateSession_def demo_session_def demo_link_def toy_transport_def b64_raw_url_nonempty)
  ultimately have "ReceiveStartSession demo_link (toy_conn (cn_out p')) = (Inr demo_session, toy_conn [])"
    by (simp add: ReceiveStartSession_def demo_start_def no_message_def startSessionType_def dev_startSessionType_def)
  then have reported: "ErrorSent ''start_imap'' \<in> set (dm_trace s')"
    using run
    by (auto simp: Run_def run_connected_def Connect_def storeless_def toy_daemon_def toy_start_def toy_options_def
        DefaultOptions_def DefaultStateDir_def Load_def env_or_def Let_def run_session_def run_services_def
        startIMAP_def storagePassphrase_def close_control_def split: if_splits)
  obtain q where q: "WriteMessage demo_link False demo_start (toy_conn (cn_out (dm_conn s'))) = (None, q)"
    using demo_start_sent by blast
  have start: "no_message\<lparr>m_Type := startSessionType, m_Session := Some demo_session\<rparr> = demo_start"
    by (simp add: demo_start_def startSessionType_def dev_startSessionType_def)
  have "\<exists>q. dev_Serve demo_link False (Inr (toy_conn (cn_out (dm_conn s')))) demo_session =
      (Inl (ErrNew (''bridge failed to start: '' @ ''start_imap'')), Some (client_Close q))"
    using parent_learns_the_outcome [OF run, of demo_link False demo_session "toy_conn (cn_out (dm_conn s'))" q]
      demo_delivering demo_carries_ready demo_carries_error demo_link_facts(1,2) q reported
    by (simp add: start storeless_def toy_start_def toy_conn_def)
  then show ?thesis using p' run by auto
qed

text \<open>A sync of three emails, read by the parent.\<close>

lemma demo_number_itoa: "- (2 ^ 63) \<le> n \<Longrightarrow> n < 2 ^ 63 \<Longrightarrow> demo_number (itoa n) = n"
  by (simp add: demo_number_def atoi_itoa)

lemma demo_carries_progress:
  "carries demo_link demo_link (no_message\<lparr>m_Type := syncStartedType, m_Started := Some \<lparr>sn_Total = 3\<rparr>\<rparr>)"
  "carries demo_link demo_link (no_message\<lparr>m_Type := syncFinishedType,
     m_Finished := Some \<lparr>sf_Downloaded = 3, sf_Total = 3, sf_Code = code\<rparr>\<rparr>)"
  by (simp_all add: carries_def demo_codec_defs demo_number_itoa startSessionType_def readyType_def errorType_def
      syncStartedType_def syncFinishedType_def del: wire.simps)

lemma demo_progress_messages:
  assumes "m \<in> set (event_messages (OnStarted 3)) \<or> m \<in> set (event_messages (OnFinished 3 3 []))"
  shows "(\<exists>p. ct_Marshal demo_link m = Inr p \<and> frameable p) \<and> carries demo_link demo_link m"
proof -
  have "itoa 3 = ''3''" by code_simp
  then have "frameable (wire (m_Type m # demo_fields m))"
    using assms by (auto simp: frameable_def length_wire MaxFrameSize_def demo_fields_def no_message_def
        syncStartedType_def syncFinishedType_def simp del: wire.simps)
  then show ?thesis using assms demo_carries_progress by (auto simp: demo_link_facts)
qed

theorem progress_reaches_the_user_witness:
  "ReportProgress demo_link False []
     (toy_conn (cn_out (fold (syncProgressEvents demo_link) [OnStarted 0, OnStarted 3, OnFinished 3 3 []] (toy_conn [])))) =
   (ErrSentinel IoEOF, [''Sync started: 3 emails to download'', ''Sync finished: 3 emails''], toy_conn [])"
proof -
  let ?events = "[OnStarted 0, OnStarted 3, OnFinished 3 3 []]"
  have n: "itoa 3 = ''3''" by code_simp
  have "ReportProgress demo_link False [] (toy_conn (cn_out (fold (syncProgressEvents demo_link) ?events (toy_conn [])))) =
      (ErrSentinel IoEOF, concat (map event_lines ?events),
       (toy_conn (cn_out (fold (syncProgressEvents demo_link) ?events (toy_conn []))))\<lparr>cn_in := []\<rparr>)"
  proof (rule progress_reaches_the_user [OF demo_link_facts(3)])
    show "(\<exists>p. ct_Marshal demo_link m = Inr p \<and> frameable p) \<and> carries demo_link demo_link m"
      if "event \<in> set ?events" "m \<in> set (event_messages event)" for event m
      using that by (intro demo_progress_messages) auto
  qed (simp_all add: demo_link_facts toy_conn_def)
  then show ?thesis by (simp add: n toy_conn_def)
qed

theorem password_made_once_witness:
  "\<exists>f. ensurePassword demo_dev ''d'' empty_disk = (Inr (b64_raw_url (replicate 32 0)), f) \<and>
     ensurePassword (demo_dev\<lparr>dv_rand := (\<lambda>n. Inr [9])\<rparr>) ''d'' f = (Inr (b64_raw_url (replicate 32 0)), f)"
proof -
  have "os_outcomes empty_disk = []" "os_files empty_disk = Map.empty" by (simp_all add: empty_disk_def)
  then obtain f where f: "ensurePassword demo_dev ''d'' empty_disk = (Inr (b64_raw_url (replicate 32 0)), f)"
    and calm: "os_outcomes f = []"
    by (simp add: demo_dev_def ensurePassword_def ReadFile_calm keep_password_def
        randomPassword_def passwordBytes_def MkdirAll_def WriteFile_def os_do_def os_next_def)
  have rand: "x \<noteq> []" if "dv_rand demo_dev passwordBytes = Inr x" for x
    using that by (auto simp: demo_dev_def passwordBytes_def)
  have join: "dv_join (demo_dev\<lparr>dv_rand := (\<lambda>n. Inr [9])\<rparr>) ''d'' passwordFile = dv_join demo_dev ''d'' passwordFile"
    by simp
  show ?thesis using f password_made_once [OF rand join calm, of empty_disk] by blast
qed

end
