(* ===== verification/CommandLine.thy ===== *)
theory CommandLine
  imports Development Daemon
begin

text \<open>
  The programs of the repository (\<open>cmd/bridge\<close>, \<open>cmd/devcontrol\<close>, \<open>cmd/storectl\<close>): what each does with
  its command line. A program ends with its exit status and what it prints on the standard error, a
  prefix and the error; what it prints on the standard output is the list of its lines. The
  configuration the defaults come from, the signals and the clock are outside.
\<close>

type_synonym exit = "nat \<times> (string \<times> err) option"

definition flag_exit :: "flag_stop \<Rightarrow> exit" where
  "flag_exit stop = (case stop of FlagHelp \<Rightarrow> (0, None) | FlagError m \<Rightarrow> (2, None))"

definition exit_of :: "string \<Rightarrow> err option \<Rightarrow> exit" where
  "exit_of name r = (case r of None \<Rightarrow> (0, None) | Some e \<Rightarrow> (1, Some (name, e)))"

section \<open>bridge\<close>

definition bridge_flags :: "string \<rightharpoonup> flag_kind" where
  "bridge_flags = [''imap-address'' \<mapsto> StringFlag, ''state-dir'' \<mapsto> StringFlag,
     ''control-endpoint'' \<mapsto> StringFlag, ''reset'' \<mapsto> BoolFlag]"

definition parseOptions :: "daemon_options \<Rightarrow> string list \<Rightarrow> flag_stop + daemon_options \<times> bool" where
  "parseOptions options args =
     (case parse_flags bridge_flags Map.empty args of
       Inl stop \<Rightarrow> Inl stop
     | Inr (given, rest) \<Rightarrow>
         Inr (options\<lparr>op_IMAPAddress := string_flag given ''imap-address'' (op_IMAPAddress options),
                op_StateDir := string_flag given ''state-dir'' (op_StateDir options),
                op_ControlEndpoint := string_flag given ''control-endpoint'' (op_ControlEndpoint options)\<rparr>,
              bool_flag given ''reset'' False))"

text \<open>
  \<open>env\<close> is what a run meets for a state directory, \<open>rm\<close> what removing the directory does and answers.
\<close>

definition bridge_main :: "(string \<Rightarrow> ('k, 'c) daemon_env) \<Rightarrow> (string \<Rightarrow> ('k, unit) op) \<Rightarrow> daemon_options \<Rightarrow> 's \<Rightarrow>
    string list \<Rightarrow> ('k, 's) daemon_state \<Rightarrow> exit \<times> ('k, 's) daemon_state" where
  "bridge_main env rm defaults api args s =
     (case parseOptions defaults args of
       Inl stop \<Rightarrow> (flag_exit stop, s)
     | Inr (options, reset) \<Rightarrow>
         let D = env (op_StateDir options)
         in if reset then
              (case daemon_reset (dn_codec D) (dn_backend D) (dn_open D) (rm (op_StateDir options)) (dm_store s) of
                (r, k) \<Rightarrow> (exit_of ''bridge: reset:'' r, s\<lparr>dm_store := k\<rparr>))
            else (case Run D options api s of (r, s) \<Rightarrow> (exit_of ''bridge:'' r, s)))"

section \<open>storectl\<close>

definition list_keys :: "index_codec \<Rightarrow> 's backend \<Rightarrow> ('s, string list) op" where
  "list_keys J B s =
     bind_st (wrap_st ''list keys'' (store_Keys J B s)) (\<lambda>keys s.
       (Inr (if length keys = 0 then [''The store is empty.'']
             else (itoa (int (length keys)) @ '' key(s) stored:'') # map (\<lambda>key. ''  '' @ key) keys), s))"

definition clearStore :: "index_codec \<Rightarrow> 's backend \<Rightarrow> ('s, string list) op" where
  "clearStore J B s =
     bind_st (wrap_st ''list keys'' (store_Keys J B s)) (\<lambda>keys s.
       if length keys = 0 then (Inr [''The store is already empty.''], s)
       else bind_st (wrap_st ''clear store'' (store_Clear J B s)) (\<lambda>_ s.
         (Inr [''Removed '' @ itoa (int (length keys)) @ '' key(s): ['' @ join keys '' '' @ '']'',
               ''Gluon's message cache is now unreadable, so every mailbox will be synchronised again.''], s)))"

text \<open>\<open>opened\<close> is what \<open>store.New\<close> answers for the state directory.\<close>

definition storectl_run :: "index_codec \<Rightarrow> 's backend \<Rightarrow> err option \<Rightarrow> string \<Rightarrow> ('s, string list) op" where
  "storectl_run J B opened command s =
     (case opened of
       Some e \<Rightarrow> (Inl e, s)
     | None \<Rightarrow>
         if command = ''list'' then list_keys J B s
         else if command = ''clear'' then clearStore J B s
         else (Inl (ErrNew ''unknown command, want list or clear''), s))"

definition storectl_main :: "index_codec \<Rightarrow> (string \<Rightarrow> 's backend) \<Rightarrow> (string \<Rightarrow> err option) \<Rightarrow> string \<Rightarrow> string list \<Rightarrow>
    's \<Rightarrow> exit \<times> string list \<times> 's" where
  "storectl_main J B opened defaultDir args s =
     (case parse_flags [''state-dir'' \<mapsto> StringFlag] Map.empty args of
       Inl stop \<Rightarrow> (flag_exit stop, [], s)
     | Inr (given, rest) \<Rightarrow>
         let dir = string_flag given ''state-dir'' defaultDir
         in (case storectl_run J (B dir) (opened dir) (first_arg rest) s of
              (Inl e, s) \<Rightarrow> (exit_of ''storectl:'' (Some e), [], s)
            | (Inr printed, s) \<Rightarrow> (exit_of ''storectl:'' None, printed, s)))"

section \<open>devcontrol\<close>

text \<open>
  \<open>listen\<close>: the directory of the endpoint is made, a socket left behind is removed; \<open>listening\<close> is
  what \<open>net.Listen\<close> answers. \<open>os.IsNotExist\<close> looks at the error itself.
\<close>

definition dev_listen :: "(string \<Rightarrow> string) \<Rightarrow> err option \<Rightarrow> string \<Rightarrow> (os_state, unit) op" where
  "dev_listen dirOf listening endpoint s =
     bind_st (wrap_st ''create endpoint directory'' (MkdirAll (dirOf endpoint) s)) (\<lambda>_ s.
       case os_Remove endpoint s of
         (r, s) \<Rightarrow>
           (case r of
             Inl e \<Rightarrow>
               if e \<noteq> ErrSentinel OsErrNotExist then (Inl (ErrWrap ''remove stale endpoint'' e), s)
               else (wrap_err ''listen on control endpoint'' (case listening of None \<Rightarrow> Inr () | Some e \<Rightarrow> Inl e), s)
           | Inr _ \<Rightarrow> (wrap_err ''listen on control endpoint'' (case listening of None \<Rightarrow> Inr () | Some e \<Rightarrow> Inl e), s)))"

text \<open>
  Every line read from the terminal is a resync, until the context has ended or a send fails; \<open>ended k\<close>
  is the state of the context at the \<open>k\<close>-th line. What is printed comes with what a failed send prints on
  the standard error.
\<close>

fun resyncOnEnter :: "transport \<Rightarrow> bool \<Rightarrow> (nat \<Rightarrow> err option) \<Rightarrow> nat \<Rightarrow> string list \<Rightarrow> conn \<Rightarrow>
    string list \<times> (string \<times> err) option \<times> conn" where
  "resyncOnEnter T d ended k [] c = ([], None, c)"
| "resyncOnEnter T d ended k (line # lines) c =
     (if ended k \<noteq> None then ([], None, c)
      else case SendResync T d c of
          (Some e, c) \<Rightarrow> ([], Some (''devcontrol: send resync:'', e), c)
        | (None, c) \<Rightarrow>
            (case resyncOnEnter T d ended (k + 1) lines c of
              (printed, r, c) \<Rightarrow> (''Asked the bridge to resync.'' # printed, r, c)))"

record dev_outcome =
  do_printed :: "string list"
  do_reported :: "string list"
  do_errors :: "(string \<times> err) list"
  do_conn :: "conn option"

text \<open>
  \<open>run\<close>: the two goroutines use different directions of the connection, so they are run one after the
  other; their lines, and what each prints on the standard error, are kept apart. \<open>quiet\<close> tells whether
  the context had ended when the bridge stopped reporting. When the context ends, the connection is closed.
\<close>

definition devcontrol_run :: "transport \<Rightarrow> dev_env \<Rightarrow> (string \<Rightarrow> string) \<Rightarrow> (nat \<Rightarrow> err option) \<Rightarrow> bool \<Rightarrow> err option \<Rightarrow>
    err + conn \<Rightarrow> string list \<Rightarrow> string \<Rightarrow> string \<Rightarrow> os_state \<Rightarrow> (err option \<times> dev_outcome) \<times> os_state" where
  "devcontrol_run T V dirOf ended quiet listening accepted enters endpoint stateDir s =
     (let none = \<lparr>do_printed = [], do_reported = [], do_errors = [], do_conn = None\<rparr>
      in case SessionFromEnv V stateDir s of
          (Inl e, s) \<Rightarrow> ((Some e, none), s)
        | (Inr session, s) \<Rightarrow>
            (case dev_listen dirOf listening endpoint s of
              (Inl e, s) \<Rightarrow> ((Some e, none), s)
            | (Inr _, s) \<Rightarrow>
                let waiting = [''Waiting for the bridge on '' @ endpoint, ''Start it with: make run'']
                in (case dev_Serve T False accepted session of
                     (Inl e, c) \<Rightarrow> ((Some e, none\<lparr>do_printed := waiting, do_conn := c\<rparr>), s)
                   | (Inr rdy, c) \<Rightarrow>
                       let (asked, failed, c1) = resyncOnEnter T False ended 0 enters (the c);
                           (e, reported, c2) = ReportProgress T False [] c1
                       in ((None, \<lparr>do_printed = waiting @ ReportConnectionSettings session rdy @ asked,
                              do_reported = reported,
                              do_errors = (case failed of None \<Rightarrow> [] | Some m \<Rightarrow> [m]) @
                                (if quiet then [] else [(''devcontrol: the bridge stopped reporting:'', e)]),
                              do_conn = Some (client_Close c2)\<rparr>), s))))"

definition devcontrol_flags :: "string \<rightharpoonup> flag_kind" where
  "devcontrol_flags = [''control-endpoint'' \<mapsto> StringFlag, ''state-dir'' \<mapsto> StringFlag]"

definition devcontrol_main :: "transport \<Rightarrow> dev_env \<Rightarrow> (string \<Rightarrow> string) \<Rightarrow> (nat \<Rightarrow> err option) \<Rightarrow> bool \<Rightarrow> err option \<Rightarrow>
    err + conn \<Rightarrow> string list \<Rightarrow> daemon_options \<Rightarrow> string list \<Rightarrow> os_state \<Rightarrow> exit \<times> dev_outcome option \<times> os_state" where
  "devcontrol_main T V dirOf ended quiet listening accepted enters defaults args s =
     (case parse_flags devcontrol_flags Map.empty args of
       Inl stop \<Rightarrow> (flag_exit stop, None, s)
     | Inr (given, rest) \<Rightarrow>
         (case devcontrol_run T V dirOf ended quiet listening accepted enters
             (string_flag given ''control-endpoint'' (op_ControlEndpoint defaults))
             (string_flag given ''state-dir'' (op_StateDir defaults)) s of
           ((r, out), s) \<Rightarrow> (exit_of ''devcontrol:'' r, Some out, s)))"

end
