(* ===== verification/CommandLineProps.thy ===== *)
theory CommandLineProps
  imports CommandLine DevelopmentProps
begin

text \<open>
  What the programs of the repository do with the model behind them: a logout leaves nothing for
  \<open>storectl\<close> to find, a command line that cannot be parsed does nothing at all, and pressing Enter in
  \<open>devcontrol\<close> is a resync the bridge acts on.
\<close>

lemma parse_reset: "parseOptions defaults [''-reset'', ''--state-dir'', dir] = Inr (defaults\<lparr>op_StateDir := dir\<rparr>, True)"
  by (simp add: parseOptions_def bridge_flags_def flag_name_def flag_split_def Let_def string_flag_def bool_flag_def
      parse_bool_def)

lemma os_RemoveAll_calm:
  "os_RemoveAll survives dir (empty_store keys others n) =
     (Inr (), empty_store keys (others |` {p. \<not> in_dir dir p}) n)"
  by (simp add: os_RemoveAll_def os_call_def empty_store_def restrict_map_def fun_eq_iff)

text \<open>
  C23: A logout leaves nothing behind. Over any keychain that keeps its contract and a disk that reports no error, whatever the bridge has
  stored, small values and large ones, and however often it changed them, running the bridge with the reset
  flag ends with status 0, starts no server and says nothing to any parent. The keychain is then empty, without
  a value, the index or a file key; no file of the store is left, nor any other file of the state
  directory (Gluon's databases and caches, the control socket), and files elsewhere are untouched. \<open>storectl list\<close>
  then finds the store empty and \<open>storectl clear\<close> has nothing to remove.
\<close>

theorem reset_leaves_nothing:
  assumes d: "keychain_contract (dk_keys d) good content" "inj_on (disk_path d) K" "gcm_ok (dk_prims d)"
      "rand_ok (dk_rand d)" "\<And>i n. is_ok (dk_rand d i n)" "\<forall>k \<in> K. others (disk_path d k) = None"
    and start: "good keys" "content keys = Map.empty"
    and J: "indexKey \<in> K" "\<And>ks. ix_unmarshal J (ix_marshal J ks) = Inr ks"
    and ops: "\<And>x. x \<in> set ops \<Longrightarrow> op_key x \<in> K - {[], indexKey} \<and> \<not> has_suffix (op_key x) dekSuffix"
    and run: "run_ops J (router d) ops (empty_store keys others n) = (r, dm_store s)"
    and env: "dn_codec (env dir) = J" "dn_backend (env dir) = router d" "dn_open (env dir) = None"
      "rm dir = os_RemoveAll survives dir"
  shows "\<exists>s'. bridge_main env rm defaults api [''-reset'', ''--state-dir'', dir] s = ((0, None), s')
    \<and> dm_trace s' = dm_trace s \<and> dm_conn s' = dm_conn s
    \<and> content (ds_keys (dm_store s')) = Map.empty
    \<and> ds_files (dm_store s') = others |` {p. \<not> in_dir dir p}
    \<and> fst (storectl_run J (router d) None ''list'' (dm_store s')) = Inr [''The store is empty.'']
    \<and> fst (storectl_run J (router d) None ''clear'' (dm_store s')) = Inr [''The store is already empty.'']"
proof -
  note er = keychain_router [OF d]
  obtain k0 ks where k0: "run_ops J (router d) ops (empty_store keys others n) = (Inr (), k0)"
    "encrypted_router.router_good good content d K others k0"
    "indexed_store.holds_index (encrypted_router.router_content content d K) J k0 ks"
    "dom (encrypted_router.router_content content d K k0) \<subseteq> {k. value_key K k}"
    using keychain_store_ops [OF er start J ops, where n = n] by metis
  have "dm_store s = k0" using k0(1) run by simp
  then obtain keys' n' where clear: "store_Clear J (router d) (dm_store s) = (Inr (), empty_store keys' others n')"
    and keys': "good keys'" "content keys' = Map.empty"
    using keychain_store_Clear [OF er J k0(2-4)] by metis
  let ?others = "others |` {p. \<not> in_dir dir p}" and ?k = "empty_store keys' (others |` {p. \<not> in_dir dir p}) n'"
  have "\<forall>k \<in> K. ?others (disk_path d k) = None" using d(6) by (simp add: restrict_map_def)
  from empty_store_Keys [OF keychain_router [OF d(1-5) this] keys' J] have "fst (store_Keys J (router d) ?k) = Inr []" .
  then obtain k2 where "store_Keys J (router d) ?k = (Inr [], k2)" by (metis prod.collapse)
  then have "fst (storectl_run J (router d) None ''list'' ?k) = Inr [''The store is empty.'']"
    "fst (storectl_run J (router d) None ''clear'' ?k) = Inr [''The store is already empty.'']"
    by (simp_all add: storectl_run_def list_keys_def clearStore_def)
  moreover have "bridge_main env rm defaults api [''-reset'', ''--state-dir'', dir] s = ((0, None), s\<lparr>dm_store := ?k\<rparr>)"
    using clear env
    by (simp add: bridge_main_def parse_reset daemon_reset_def exit_of_def errors_join_def Let_def List.map_filter_def
        os_RemoveAll_calm err_of_def)
  moreover have "ds_keys ?k = keys'" "ds_files ?k = ?others" by (simp_all add: empty_store_def)
  ultimately show ?thesis using keys'(2) by (intro exI [of _ "s\<lparr>dm_store := ?k\<rparr>"]) simp
qed

definition stored_env :: "string \<Rightarrow> (secrets disk_state, unit) daemon_env" where
  "stored_env dir = \<lparr>dn_dial = (\<lambda>a. None), dn_transport = toy_transport, dn_ended = (\<lambda>k. None), dn_pace = id,
     dn_open = store_New dir None, dn_backend = router demo_disk, dn_codec = demo_codec, dn_rand = toy_entropy,
     dn_tls = toy_tls, dn_now = 0, dn_imap = toy_imap None, dn_listen = Inr, dn_shutdown = None\<rparr>"

text \<open>Two values over the system keychain, beside a file of Gluon's: nothing is left of either.\<close>

theorem reset_leaves_nothing_witness:
  "\<exists>k s'. run_ops demo_codec (router demo_disk) [OpSet ''a'' [1], OpSet ''b'' (replicate 4000 7)]
       (empty_store Map.empty demo_others 0) = (Inr (), k) \<and>
     bridge_main stored_env (os_RemoveAll (\<lambda>p. False)) toy_options () [''-reset'', ''--state-dir'', ''/state'']
       \<lparr>dm_conn = toy_conn [], dm_store = k, dm_service = None, dm_trace = []\<rparr> = ((0, None), s') \<and>
     demo_content (ds_keys (dm_store s')) = Map.empty \<and> ds_files (dm_store s') = Map.empty"
proof -
  let ?ops = "[OpSet ''a'' [1], OpSet ''b'' (replicate 4000 7)]"
  have x: "op_key x \<in> UNIV - {[], indexKey} \<and> \<not> has_suffix (op_key x) dekSuffix" if "x \<in> set ?ops" for x
    using that by (auto simp: indexKey_def dekSuffix_def has_suffix_def)
  have e: "demo_content Map.empty = Map.empty" by (simp add: fun_eq_iff)
  obtain k where k: "run_ops demo_codec (router demo_disk) ?ops (empty_store Map.empty demo_others 0) = (Inr (), k)"
    using keychain_store_ops [where good = "\<lambda>_. True" and content = demo_content and keys = Map.empty and d = demo_disk
        and K = UNIV and others = demo_others and n = 0 and J = demo_codec and ops = ?ops,
        OF demo.encrypted_router_axioms TrueI e UNIV_I demo_codec_ok x] by metis
  let ?s = "\<lparr>dm_conn = toy_conn [], dm_store = k, dm_service = None, dm_trace = []\<rparr>
    :: (secrets disk_state, unit) daemon_state"
  have env: "dn_codec (stored_env ''/state'') = demo_codec" "dn_backend (stored_env ''/state'') = router demo_disk"
    "dn_open (stored_env ''/state'') = None"
    by (simp_all add: stored_env_def store_New_def)
  have run: "run_ops demo_codec (router demo_disk) ?ops (empty_store Map.empty demo_others 0) = (Inr (), dm_store ?s)"
    using k by simp
  have "in_dir ''/state'' ''/state/gluon.db''" by (simp add: in_dir_def has_prefix_def)
  then have "demo_others |` {p. \<not> in_dir ''/state'' p} = Map.empty"
    by (auto simp: demo_others_def restrict_map_def fun_eq_iff)
  moreover from reset_leaves_nothing [where env = stored_env and dir = "''/state''" and
      rm = "os_RemoveAll (\<lambda>p. False)" and survives = "\<lambda>p. False" and good = "\<lambda>_. True" and content = demo_content and
      keys = Map.empty and defaults = toy_options and api = "()" and s = ?s,
      OF demo_disk_ok(1) demo_paths demo_disk_ok(2-5) TrueI e UNIV_I demo_codec_ok x run env refl]
  obtain s' where "bridge_main stored_env (os_RemoveAll (\<lambda>p. False)) toy_options () [''-reset'', ''--state-dir'', ''/state''] ?s =
      ((0, None), s')" "demo_content (ds_keys (dm_store s')) = Map.empty"
    "ds_files (dm_store s') = demo_others |` {p. \<not> in_dir ''/state'' p}" by blast
  ultimately show ?thesis using k by metis
qed

section \<open>Command lines\<close>

text \<open>A command line that cannot be parsed ends the program before it has done anything.\<close>

lemma bad_command_line_does_nothing:
  "parse_flags bridge_flags Map.empty args = Inl stop \<Longrightarrow>
     bridge_main env removed defaults api args s = (flag_exit stop, s)"
  by (simp add: bridge_main_def parseOptions_def)

lemma unknown_flag: "parse_flags bridge_flags Map.empty [''--logout''] = Inl (FlagError ''flag provided but not defined'')"
  by (simp add: bridge_flags_def flag_name_def flag_split_def)

text \<open>
  Every press of Enter in \<open>devcontrol\<close> is one resync the bridge acts on, and one line that says so.
\<close>

lemma enters_become_resyncs:
  assumes "resyncOnEnter P False (\<lambda>_. None) k lines p = (printed, None, p')" and "cn_out p = []"
    and "carries P T (no_message\<lparr>m_Type := dev_resyncType\<rparr>)" and "ends_with_EOF T" and "setDeadline T d = None"
    and "cn_in c = cn_out p'" and "cn_end c = ErrSentinel IoEOF"
  shows "printed = replicate (length lines) ''Asked the bridge to resync.''"
    and "Serve T d (\<lambda>_. None) True update 0 [] c =
      (ErrWrap ''read control message'' (ErrSentinel IoEOF), replicate (length lines) OnResync, c\<lparr>cn_in := []\<rparr>)"
proof -
  let ?m = "no_message\<lparr>m_Type := dev_resyncType\<rparr>"
  have sent: "printed = replicate (length lines) ''Asked the bridge to resync.'' \<and>
      parent_sends P (replicate (length lines) ?m) p = (None, p')"
    using assms(1)
  proof (induction lines arbitrary: k printed p)
    case (Cons line lines)
    then show ?case by (auto simp: SendResync_def split: prod.splits option.splits)
  qed simp
  then show "printed = replicate (length lines) ''Asked the bridge to resync.''" by blast
  have "carries P T m \<and> readable_update T m" if "m \<in> set (replicate (length lines) ?m)" for m
    using that assms(3) by (auto simp: readable_update_def no_message_def)
  moreover have "parent_sends P (replicate (length lines) ?m) p = (None, p')" using sent by blast
  ultimately obtain bytes where "cn_out p' = cn_out p @ bytes" and serve: "\<And>c rest k evs. cn_in c = bytes @ rest \<Longrightarrow>
      Serve T d (\<lambda>_. None) True update k evs c = Serve T d (\<lambda>_. None) True update (k + length (replicate (length lines) ?m))
        (evs @ concat (map (events_of T True update) (replicate (length lines) ?m))) (c\<lparr>cn_in := rest\<rparr>)"
    using Serve_parent_sends [OF _ assms(5,4)] by blast
  then have "Serve T d (\<lambda>_. None) True update 0 [] c = Serve T d (\<lambda>_. None) True update (length lines)
      (concat (map (events_of T True update) (replicate (length lines) ?m))) (c\<lparr>cn_in := []\<rparr>)"
    using assms(2,6) serve [of c "[]" 0 "[]"] by simp
  moreover have "concat (map (events_of T True update) (replicate n ?m)) = replicate n OnResync" for n
    by (induction n) (simp_all add: events_of_def no_message_def resyncType_def dev_resyncType_def)
  ultimately show "Serve T d (\<lambda>_. None) True update 0 [] c =
      (ErrWrap ''read control message'' (ErrSentinel IoEOF), replicate (length lines) OnResync, c\<lparr>cn_in := []\<rparr>)"
    using Serve_end [of "c\<lparr>cn_in := []\<rparr>" T d] assms(5,7) by simp
qed

end
