(* ===== verification/Spec2Isabelle.thy ===== *)
theory Spec2Isabelle
  imports Envelope CommandsProps ApiProps StoreProps Mime MailConnectorProps OutgoingProps MailServiceProps
    AttachmentStore LocalSecrets LocalServersProps ControlProps Poller DaemonProps SchemaProps
    Settled Logger DevelopmentProps CommandLineProps
begin

text \<open>
  A model of the mail bridge (Go, \<open>src/internal\<close> and \<open>src/cmd\<close>) and what is proved of it.

  The program. A desktop application (the parent) starts the bridge and sends it a session over a
  private socket. The bridge then serves the account's mail to local mail clients over IMAP, through the
  Gluon library, and takes the messages they send over SMTP. Mail is fetched from and submitted to the
  Mail API over HTTPS; it is sealed end to end, so the bridge decrypts what it serves and encrypts what
  it sends.

  Layers, from the ground up, with the theories that model them:

  \<^item> \<open>Prelude\<close>, \<open>Stateful\<close>, \<open>GoStrings\<close>, \<open>Base64\<close>: bytes, Go's errors as values (\<open>err + 'a\<close>, with
    \<open>errors.Is\<close>, \<open>errors.As\<close> and \<open>errors.Join\<close>), operations on a state (\<open>('s, 'a) op\<close>, which keep their
    effects when they fail), the parts of \<open>strings\<close>, \<open>strconv\<close> and \<open>encoding/base64\<close> the program uses.
  \<^item> \<open>Primitives\<close>, \<open>KeyWrap\<close>, \<open>Symmetric\<close>, \<open>Hybrid\<close>, \<open>Envelope\<close> (\<open>internal/crypto\<close>): AES key wrap step by
    step, AES-GCM framing, the X-Wing hybrid KEM and the envelope of a message. AES, GCM, ML-KEM, X25519
    and the hashes are the fields of a record \<open>prims\<close>; what they must satisfy is named (\<open>block_cipher_ok\<close>,
    \<open>gcm_ok\<close>, \<open>kem_ok\<close>, \<open>hash_ok\<close>) and met by the instance \<open>toy_prims\<close>.
  \<^item> \<open>Dto\<close>, \<open>Api\<close>, \<open>ApiProps\<close> (\<open>internal/api\<close>): the data of the API and the client: headers, retries,
    backoff, the reading of errors. The network is a function of the requests made so far.
  \<^item> \<open>Client\<close>, \<open>Commands\<close>, \<open>CommandsProps\<close> (\<open>internal/mail/commands\<close>): the operations on mail over any
    client (a record of operations): listing, opening, updating, sealing and sending. \<open>Schema\<close>,
    \<open>SchemaProps\<close> (\<open>api/types.gen.go\<close>): the generated types no call of the program uses, the enumerations
    and what the schema documents of a request, as checks on calls: \<open>request_typed\<close> (enumerations and sealed
    blocks) and \<open>request_addressed\<close> (its addresses), with the three calls that break the second
    (\<open>breaks_schema\<close>). A nil slice of addresses, which is sent as \<open>null\<close>, is \<open>None\<close>, an empty one \<open>Some []\<close>
    (\<open>addresses_of\<close> is what ranging over either sees).
  \<^item> \<open>Mime\<close>, \<open>Outgoing\<close>, \<open>OutgoingProps\<close>, \<open>MailService\<close>, \<open>MailServiceProps\<close> (\<open>internal/mail\<close>): building
    the RFC 5322 message of an email, reading the message a client composed, and the service that holds
    the session, the threads remembered during a sync and the last 32 sent copies.
  \<^item> \<open>Store\<close>, \<open>StoreProps\<close> (\<open>internal/store\<close>): the keychain, the encrypted files, the router between
    them and the index. \<open>LocalSecrets\<close> (\<open>imapserver/credentials.go\<close>, \<open>internal/localtls\<close>): the passphrase
    and the certificate kept there.
  \<^item> \<open>MailConnector\<close>, \<open>MailConnectorProps\<close>, \<open>Announcing\<close>, \<open>Poller\<close> (\<open>imapserver/mailconnector\<close>): the sync
    of the account into Gluon. The state is what is remembered of every message; what Gluon receives is
    the list of updates sent. The concurrent download is a step function driven by an arbitrary
    schedule (\<open>announce_step\<close>, where \<open>errgroup.SetLimit\<close>, a library, is the guard that lets a waiting
    download start while fewer than eight run), the polling goroutine a step relation (\<open>poll_step\<close>) with its
    callers and ticker.
  \<^item> \<open>Mirror\<close>, \<open>Gateway\<close>, \<open>Settled\<close>: specifications over the three layers above at once. \<open>told_by\<close> is what
    the updates sent so far say of every message (its folders and flags), \<open>account_view\<close> what the account
    says; a sync brings the one to the other. \<open>lived\<close> is every history of a connector: requests of the
    client, changes elsewhere, syncs whole or partial. \<open>account_service\<close> puts the mail service under the
    connector; \<open>keeps_account\<close> is a client of the API behind which an account changes.
  \<^item> \<open>AttachmentStore\<close> (\<open>imapserver/attachmentstore\<close>): the message store that completes a message with
    its attachments at the first read; a read is the steps between its critical sections (\<open>get_step\<close>), and
    \<open>store_Get_message\<close> one that no other call interrupts.
  \<^item> \<open>LocalServers\<close>, \<open>LocalServersProps\<close> (\<open>internal/config\<close>, \<open>internal/imapserver\<close>, \<open>internal/smtpserver\<close>):
    configuration, the life of the IMAP server, its authorization and protocol log, SMTP sessions and
    the listener that tells TLS from plain connections.
  \<^item> \<open>Logger\<close> (\<open>internal/logger\<close>): the lines a logger writes.
  \<^item> \<open>Control\<close>, \<open>ControlProps\<close> (\<open>internal/control\<close>): the framed messages exchanged with the parent and
    the loop that serves it. \<open>Daemon\<close>, \<open>DaemonProps\<close> (\<open>internal/daemon\<close>): one run of the bridge, from the
    control connection opened to it closed, as a trace of effects. From readiness on it has two goroutines, one
    that acts on the parent's messages and one that waits for the context and shuts down; \<open>dn_pace\<close> says how
    many messages the first acts on before each step of the second, and is arbitrary. \<open>daemon_reset\<close> is the
    logout, with what \<open>os.RemoveAll\<close> does to the files of the store.
  \<^item> \<open>GoOs\<close>, \<open>Development\<close>, \<open>DevelopmentProps\<close> (\<open>internal/development\<close>, \<open>imapserver/development.go\<close>): the
    files and flags of Go's library; the stand-in for the parent, at the other end of the control channel,
    with the session it makes of the environment. \<open>CommandLine\<close>, \<open>CommandLineProps\<close> (\<open>cmd\<close>): the three
    programs, from the command line to the exit status.

  Names are those of the source; a prefix or suffix is added where a name occurs twice (\<open>imap_Start\<close>,
  \<open>smtp_Start\<close>; \<open>svc_SendEmail\<close> for the method of the mail service, \<open>SendEmail\<close> for the command).

  What the groups of lemmas show. Of the cryptography: what is wrapped, sealed or enveloped opens again,
  and only the wrapping of a key unwraps. Of the client: how often a request is sent, what its result
  says, when it is retried. Of the commands: that a message leaves only sealed and for whom, that paging
  ends, in what order updates stop. Of the store: that it refines a map over any keychain
  and leaves nothing behind when cleared, over the locales \<open>backend_contract\<close>, \<open>indexed_store\<close>,
  \<open>keychain_contract\<close> and \<open>encrypted_router\<close>, interpreted on the system keychain, the in-memory one and the router;
  on the same contract rest that the bridge's own secrets are made once and that a reset leaves nothing.
  Of the connector: that every interleaving announces each message once, that only what is gone is
  deleted, that an unchanged account causes nothing, that reported progress ends at its total, and that
  no requested resync is lost. Of the connector over the service over the commands: that whatever happened
  before, one whole sync brings Gluon to the account (by the invariant \<open>mirrored\<close> of \<open>lived\<close>), that what a
  client asks for is carried out and comes back so (by the locale \<open>one_by_one\<close>, interpreted on the three
  loops over emails), that showing mail changes nothing (by the locale \<open>reading_service\<close>, interpreted on
  the mail service for its calls and for its session), and what is not told when a sync hears of a new
  email in a part of its folders only. Of the service and the servers: what is served without asking again, which
  recipients a message reaches, that every byte a client sends is seen. Of the control channel and the
  daemon: that messages arrive whole and in order, that a bad frame is bounded and reported, and that a
  run closes what it opened. What one end of the channel writes the other reads once: that is the locale
  \<open>message_channel\<close>, interpreted on \<open>WriteMessage\<close> and \<open>ReadMessage\<close>, and both loops, the bridge's
  \<open>Serve\<close> and the parent's \<open>ReportProgress\<close>, rest on it. Of the two ends together: that the session reaches the
  bridge whole, and that the parent learns how the start went and prints every report. Of the schema: that every request of
  every sequence of commands is well typed, and which of them break what it asks of their addresses. Below, properties that need several of these parts at once.

  Bounds and fuel. Loops are structural or have a measure; \<open>ListAllEmails\<close>, which can run forever, is a
  \<open>partial_function (option)\<close>, proved to return against a service that pages through a folder and not
  to against one that repeats a page. The announcement of messages runs for a given schedule, after which
  each goroutine is stepped seven times, as many as it can need; that all have returned then is proved. Numbers that can wrap in Go are \<open>wrap64\<close> or words; lengths are naturals.

  Parameters. Code that is not in the repository is an argument: the primitives above, HTTP, the keyring,
  file system and random source (with faults at every call), JSON codecs, the MIME readers of the
  standard library, X.509, Gluon, go-smtp, sockets and clocks. Laws about them are named hypotheses, each
  met by a concrete instance in the witnesses.

  Not modelled. What the other parts log, the usage texts of the flags and the text of
  error messages beyond the label of their site; signals, which are the end of a context; what the data
  races of Go could do beyond the steps that the mutexes and channels make atomic; the timers of the HTTP
  client and of a start, whose outcomes are answers of the environment. What the goroutine that serves the parent
  still does after \<open>Run\<close> has returned is not part of a run; the two goroutines of \<open>devcontrol\<close> use
  different directions of the connection and run one after the other.
\<close>

section \<open>Properties across components\<close>

text \<open>
  C18: a message sent through the bridge does not become two. When the client that submitted a message
  over SMTP appends its copy to the Sent folder, the connector answers with the very message the
  backend filed (the identifier its API returned for the submission), leaves the state alone and
  makes no call; until such an append is recognised, an append to Sent is refused.
\<close>

theorem append_after_send_is_the_same_message:
  assumes "sent_inv s" and "svc_SendEmail V raw recipients s = Some (Inr (), s')"
    and "messageIDHeaderOf (mv_lib V) raw \<noteq> []"
    and "cs_service c = s'" "mailboxTypeOf c mbox = Inr MailboxSent"
  shows "\<exists>msg sentID api. ParseOutgoingMessage (mv_lib V) raw recipients = Some (Inr msg) \<and> SendEmail (mv_deps V) (mv_rand V (sv_draws s)) (mv_client V) (svc_token s) msg
      (decryptionAccount s) (mv_serverPublicKey V) (sv_api s) = (Inr sentID, api) \<and>
    (if sentID \<noteq> [] then CreateMessage (account_service V) mbox raw flags date c = (Inr (sentID, flags, date, raw), c)
     else CreateMessage (account_service V) mbox raw flags date c =
       (case sv_sentCopies s (messageIDHeaderOf (mv_lib V) raw) of
          None \<Rightarrow> (Inl (ErrSentinel ErrOperationNotAllowed), c)
        | Some ident \<Rightarrow> (Inr (ident, flags, date, raw), c)))"
proof -
  let ?ident = "messageIDHeaderOf (mv_lib V) raw"
  obtain msg sentID api where parsed: "ParseOutgoingMessage (mv_lib V) raw recipients = Some (Inr msg)"
    and send: "SendEmail (mv_deps V) (mv_rand V (sv_draws s)) (mv_client V) (svc_token s) msg
      (decryptionAccount s) (mv_serverPublicKey V) (sv_api s) = (Inr sentID, api)"
    and s': "s' = rememberSentCopy V raw sentID ((drawn s)\<lparr>sv_api := api\<rparr>)"
    using svc_SendEmail_Inr [OF assms(2)] by blast
  have inv: "sent_inv ((drawn s)\<lparr>sv_api := api\<rparr>)" using assms(1) by (simp add: sent_inv_def drawn_def)
  have svc: "with_service (ms_SentCopyID (account_service V) raw) c = (sv_sentCopies s' ?ident, c)"
    using assms(3,4) by (simp add: with_service_def account_service_def svc_SentCopyID_def Let_def)
  have create: "CreateMessage (account_service V) mbox raw flags date c =
      (case sv_sentCopies s' ?ident of None \<Rightarrow> (Inl (ErrSentinel ErrOperationNotAllowed), c)
       | Some ident \<Rightarrow> (Inr (ident, flags, date, raw), c))"
    by (simp add: CreateMessage_def assms(5) sentCopy_def svc MailboxSent_def MailboxDrafts_def split: option.split)
  show ?thesis
  proof (cases "sentID = []")
    case True
    then have "sv_sentCopies s' = sv_sentCopies s" by (simp add: s' rememberSentCopy_def remember_copy_def drawn_def)
    with True parsed send create show ?thesis by auto
  next
    case False
    then have "sv_sentCopies s' ?ident = Some sentID"
      unfolding s' rememberSentCopy_def by (intro remember_copy_found inv assms(3))
    with False parsed send create show ?thesis by auto
  qed
qed

section \<open>Witnesses\<close>

definition sending_lib :: mail_lib where
  "sending_lib = toy_lib\<lparr>ml_ReadMessage := (\<lambda>raw. Inr ([''Message-Id'' \<mapsto> [''<m1>''], ''Subject'' \<mapsto> [''hi''],
     ''To'' \<mapsto> [''bob@inxt.eu'']], str_bytes ''hello''))\<rparr>"

definition sending_mail :: "unit mail_env" where
  "sending_mail = (toy_mail sending_client)\<lparr>mv_lib := sending_lib, mv_serverPublicKey := toy_server_key\<rparr>"

definition sending_account :: MailAccount where
  "sending_account = \<lparr>mac_Token = ''t'', mac_Address = [], mac_PrivateKey = [], mac_PublicKey = []\<rparr>"

lemma sending_parses: "ParseOutgoingMessage sending_lib [] [''bob@inxt.eu''] = Some (Inr toy_message)"
proof -
  have k: "canonical_key ''Message-Id'' = ''Message-Id''" "canonical_key ''Subject'' = ''Subject''"
    "canonical_key ''To'' = ''To''" "canonical_key ''Cc'' = ''Cc''" "canonical_key ''Content-Type'' = ''Content-Type''"
    "canonical_key ''Content-Transfer-Encoding'' = ''Content-Transfer-Encoding''"
    "canonical_key ''In-Reply-To'' = ''In-Reply-To''" by code_simp+
  have t: "trim_space [] = []" "to_lower ascii_unicode [] = []" "to_lower ascii_unicode ''bob@inxt.eu'' = ''bob@inxt.eu''"
    by code_simp+
  show ?thesis
    by (simp add: ParseOutgoingMessage_def parseOutgoingMessage_def sending_lib_def toy_lib_def header_get_def k t
        decodeSubject_def header_addressList_def readBody_def is_multipart_def part_type_def part_params_def
        mediaTypeOf_def has_prefix_def decodedPart_def no_content_def repliedEmailID_def bccFrom_def toy_message_def)
qed


lemma sending_succeeds:
  "\<exists>s'. svc_SendEmail sending_mail [] [''bob@inxt.eu''] (svc_New () sending_account) = Some (Inr (), s')"
  "fst (SendEmail toy_deps toy_rand sending_client ''t'' toy_message no_account toy_server_key ()) = Inr ''M1''"
proof -
  have l: "cl_LookupRecipientKeys sending_client ''t'' [''bob@inxt.eu''] () = (Inr [], ())"
    by (simp add: sending_client_def kind_client_def)
  obtain d where d: "SendEmail toy_deps toy_rand sending_client ''t'' toy_message no_account toy_server_key () =
      wrap_st ''send email'' (bind_st (cl_SendEmail sending_client ''t'' d ()) (\<lambda>created s. (Inr (ec_Id created), s)))"
    using toy_SendEmail [OF l] by blast
  have r: "SendEmail toy_deps toy_rand sending_client ''t'' toy_message no_account toy_server_key () = (Inr ''M1'', ())"
    unfolding d by (simp add: sending_client_def kind_client_def)
  then show "fst (SendEmail toy_deps toy_rand sending_client ''t'' toy_message no_account toy_server_key ()) = Inr ''M1''"
    by simp
  have "decryptionAccount (drawn (svc_New () sending_account)) = no_account"
    "decryptionAccount (svc_New () sending_account) = no_account" for s :: "unit service_state"
    by (simp_all add: decryptionAccount_def drawn_def svc_New_def sending_account_def no_account_def)
  then show "\<exists>s'. svc_SendEmail sending_mail [] [''bob@inxt.eu''] (svc_New () sending_account) = Some (Inr (), s')"
    using r sending_parses
    by (simp add: svc_SendEmail_def sending_mail_def on_api_def toy_mail_def svc_token_def svc_New_def
        sending_account_def drawn_def)
qed

theorem append_after_send_is_the_same_message_witness:
  "\<exists>s'. svc_SendEmail sending_mail [] [''bob@inxt.eu''] (svc_New () sending_account) = Some (Inr (), s') \<and>
     fst (CreateMessage (account_service sending_mail) ''box'' [] {FlagSeen} 0
       \<lparr>cs_service = s', cs_updates = [], cs_mailboxTypes = [(''box'', MailboxSent)], cs_messages = []\<rparr>) =
     Inr (''M1'', {FlagSeen}, 0, [])"
proof -
  let ?s = "svc_New () sending_account"
  obtain s' where s': "svc_SendEmail sending_mail [] [''bob@inxt.eu''] ?s = Some (Inr (), s')"
    using sending_succeeds(1) by blast
  let ?c = "\<lparr>cs_service = s', cs_updates = [], cs_mailboxTypes = [(''box'', MailboxSent)], cs_messages = []\<rparr>"
  have k: "canonical_key ''Message-Id'' = ''Message-Id''" "trim_space ''<m1>'' = ''<m1>''" by code_simp+
  have id: "messageIDHeaderOf (mv_lib sending_mail) [] \<noteq> []"
    by (simp add: sending_mail_def messageIDHeaderOf_def sending_lib_def header_get_def k)
  have c: "cs_service ?c = s'" "mailboxTypeOf ?c ''box'' = Inr MailboxSent"
    by (simp_all add: mailboxTypeOf_def)
  obtain msg sentID api where m: "ParseOutgoingMessage (mv_lib sending_mail) [] [''bob@inxt.eu''] = Some (Inr msg)"
    "SendEmail (mv_deps sending_mail) (mv_rand sending_mail (sv_draws ?s))
      (mv_client sending_mail) (svc_token ?s) msg (decryptionAccount ?s) (mv_serverPublicKey sending_mail) (sv_api ?s) =
        (Inr sentID, api)"
    "sentID \<noteq> [] \<longrightarrow> CreateMessage (account_service sending_mail) ''box'' [] {FlagSeen} 0 ?c =
        (Inr (sentID, {FlagSeen}, 0, []), ?c)"
    using append_after_send_is_the_same_message [OF svc_New_inv(1) s' id c, of "{FlagSeen}" 0]
    by (auto split: if_splits)
  have "msg = toy_message" using m(1) sending_parses by (simp add: sending_mail_def)
  moreover have "decryptionAccount ?s = no_account"
    by (simp add: decryptionAccount_def svc_New_def sending_account_def no_account_def)
  ultimately have "sentID = ''M1''" using m(2) sending_succeeds(2)
    by (simp add: sending_mail_def toy_mail_def svc_token_def svc_New_def sending_account_def)
  with s' m(3) show ?thesis by simp
qed


theorem envelope_recipients_covered_witness:
  "\<exists>a \<in> set (addresses_of (om_To toy_message)) \<union> set (om_Cc toy_message) \<union> set (om_Bcc toy_message).
     to_lower ascii_unicode (ad_Email a) = to_lower ascii_unicode ''bob@inxt.eu''"
  using envelope_recipients_covered [OF sending_parses] by (simp add: sending_lib_def toy_lib_def)

end
